(* ===== verification/Prelude.thy ===== *)
theory Prelude
  imports Main "HOL-Library.Word" "HOL-Library.Multiset"
begin

text \<open>
  Shared ground of the development: the machine integer types of the C++ sources, results
  that may be an error (an exception of the source), the decimal and hexadecimal printing of
  the C++ standard library, and the generic facts on words, lists and results that the
  component theories use.

  Collections: \<open>result_simps\<close> unfolds the sequencing of fallible steps, \<open>mask_simps\<close> rewrites
  the bit masks of the sources to \<open>mask n\<close>, so that \<open>bit_simps\<close> decides the word equations.
\<close>

unbundle bit_operations_syntax

named_theorems result_simps
named_theorems mask_simps

subsection \<open>Machine integers\<close>

text \<open>
  Signed and unsigned C++ integers of one width share a type; a signed reading is \<open>sint\<close>.
  Counters that only ever grow (SSA value numbers, virtual register numbers) are \<open>nat\<close> with
  their wrap-around written out at the increment.
\<close>

type_synonym u8 = "8 word"
type_synonym u16 = "16 word"
type_synonym u32 = "32 word"
type_synonym u64 = "64 word"
type_synonym i32 = "32 word"
type_synonym i64 = "64 word"

subsection \<open>Sequencing fallible steps\<close>

definition bindR :: "'e + 'a \<Rightarrow> ('a \<Rightarrow> 'e + 'b) \<Rightarrow> 'e + 'b" where
  "bindR m f = (case m of Inl e \<Rightarrow> Inl e | Inr a \<Rightarrow> f a)"

fun mapR :: "('a \<Rightarrow> 'e + 'b) \<Rightarrow> 'a list \<Rightarrow> 'e + 'b list" where
  "mapR f [] = Inr []"
| "mapR f (x # xs) = bindR (f x) (\<lambda>y. bindR (mapR f xs) (\<lambda>ys. Inr (y # ys)))"

fun foldR :: "('a \<Rightarrow> 's \<Rightarrow> 'e + 's) \<Rightarrow> 'a list \<Rightarrow> 's \<Rightarrow> 'e + 's" where
  "foldR f [] s = Inr s"
| "foldR f (x # xs) s = bindR (f x s) (foldR f xs)"

subsection \<open>Printing of numbers\<close>

text \<open>
  The digits of \<open>std::to_string\<close> and of a stream in \<open>std::hex\<close> mode (lower case), most
  significant digit first.
\<close>

definition digit_char :: "nat \<Rightarrow> char" where
  "digit_char d = ''0123456789abcdef'' ! d"

function to_base :: "nat \<Rightarrow> nat \<Rightarrow> string" where
  "to_base b n = (if n < b \<or> b < 2 then [digit_char n] else to_base b (n div b) @ [digit_char (n mod b)])"
  by pat_completeness auto
termination
  by (relation "measure snd") (auto simp: div_less_dividend)

declare to_base.simps [simp del]

definition dec_string :: "nat \<Rightarrow> string" where
  "dec_string n = to_base 10 n"

definition hex_string :: "nat \<Rightarrow> string" where
  "hex_string n = to_base 16 n"

definition int_string :: "int \<Rightarrow> string" where
  "int_string i = (if i < 0 then CHR ''-'' # dec_string (nat (- i)) else dec_string (nat i))"

text \<open>\<open>std::setfill('0') << std::setw(w)\<close>\<close>

definition pad_zero :: "nat \<Rightarrow> string \<Rightarrow> string" where
  "pad_zero w s = replicate (w - length s) (CHR ''0'') @ s"

subsection \<open>Facts on results\<close>

lemma bindR_simps [simp, result_simps]:
  "bindR (Inl e) f = Inl e"
  "bindR (Inr a) f = f a"
  by (simp_all add: bindR_def)

lemma bindR_Inr_iff [result_simps]: "bindR m f = Inr b \<longleftrightarrow> (\<exists>a. m = Inr a \<and> f a = Inr b)"
  by (cases m) auto

lemma bindR_Inl_iff: "bindR m f = Inl e \<longleftrightarrow> m = Inl e \<or> (\<exists>a. m = Inr a \<and> f a = Inl e)"
  by (cases m) auto

lemma bindR_InrE [elim]:
  assumes "bindR m f = Inr b"
  obtains a where "m = Inr a" and "f a = Inr b"
  using assms by (auto simp: bindR_Inr_iff)

lemma bindR_assoc: "bindR (bindR m f) g = bindR m (\<lambda>a. bindR (f a) g)"
  by (cases m) auto

lemma bindR_cong [fundef_cong]:
  "m = m' \<Longrightarrow> (\<And>a. m' = Inr a \<Longrightarrow> f a = f' a) \<Longrightarrow> bindR m f = bindR m' f'"
  by (cases m') auto

lemma bindR_Inr_right [simp, result_simps]: "bindR m Inr = m"
  by (cases m) auto

lemma mapR_append: "mapR f (xs @ ys) = bindR (mapR f xs) (\<lambda>us. bindR (mapR f ys) (\<lambda>vs. Inr (us @ vs)))"
  by (induction xs) (auto simp: bindR_assoc)

lemma mapR_Inr_iff: "mapR f xs = Inr ys \<longleftrightarrow> list_all2 (\<lambda>x y. f x = Inr y) xs ys"
proof (induction xs arbitrary: ys)
  case Nil
  show ?case by auto
next
  case (Cons x xs)
  show ?case
    by (cases ys) (auto simp: bindR_Inr_iff Cons)
qed

lemma mapR_Inl_ex: "mapR f xs = Inl e \<Longrightarrow> \<exists>x \<in> set xs. f x = Inl e"
  by (induction xs) (auto simp: bindR_Inl_iff)

lemma mapR_total: "(\<And>x. x \<in> set xs \<Longrightarrow> \<exists>y. f x = Inr y) \<Longrightarrow> \<exists>ys. mapR f xs = Inr ys"
  by (induction xs) (fastforce simp: bindR_Inr_iff)+

lemma foldR_append: "foldR f (xs @ ys) s = bindR (foldR f xs s) (foldR f ys)"
  by (induction xs arbitrary: s) (simp_all add: bindR_assoc cong: bindR_cong)

subsection \<open>Facts on words\<close>

lemma mask_numerals [mask_simps]:
  "(0x7 :: 'a::len word) = mask 3"
  "(0xF :: 'a word) = mask 4"
  "(0x1F :: 'a word) = mask 5"
  "(0x3F :: 'a word) = mask 6"
  "(0x7F :: 'a word) = mask 7"
  "(0xFF :: 'a word) = mask 8"
  "(0x1FF :: 'a word) = mask 9"
  "(0x3FF :: 'a word) = mask 10"
  "(0xFFF :: 'a word) = mask 12"
  "(0xFFFF :: 'a word) = mask 16"
  by (simp_all add: mask_eq_exp_minus_1)

lemma mask_one [mask_simps]: "x AND (1 :: 'a::len word) = x AND mask 1"
  by (simp add: mask_eq_exp_minus_1)

text \<open>A word equation is settled bit by bit; a bit beyond a word's width is never set.\<close>

lemma word_bitsI:
  fixes a b :: "'a::len word"
  assumes "\<And>n. n < LENGTH('a) \<Longrightarrow> bit a n = bit b n"
  shows "a = b"
  by (rule bit_word_eqI) (use assms in auto)

lemma bit_word_lt: "bit (w :: 'a::len word) n \<Longrightarrow> n < LENGTH('a)"
  by (rule bit_imp_le_length)

lemma test_bit_and: "w AND push_bit n (1 :: 'a::len word) \<noteq> 0 \<longleftrightarrow> bit w n"
  by (simp add: and_exp_eq_0_iff_not_bit)

lemma unat_of_nat_small: "x < 2 ^ LENGTH('a) \<Longrightarrow> unat (of_nat x :: 'a::len word) = x"
  by (simp add: unat_of_nat)

lemma of_nat_word_inj:
  assumes "(of_nat x :: 'a::len word) = of_nat y" and "x < 2 ^ LENGTH('a)" and "y < 2 ^ LENGTH('a)"
  shows "x = y"
  using arg_cong [OF assms(1), of unat] assms(2,3) by (simp add: unat_of_nat_small)

lemma unat_le_mask: "unat (w AND mask n :: 'a::len word) < 2 ^ n"
  by (simp add: take_bit_eq_mask [symmetric] unsigned_take_bit_eq)

lemma signed_take_bit_63 [simp]: "signed_take_bit 63 (a :: u64) = a"
proof (rule bit_word_eqI)
  fix n assume "n < LENGTH(64)"
  then have "n < 63 \<or> n = 63" by auto
  then show "bit (signed_take_bit 63 a) n = bit a n" by (auto simp: bit_simps)
qed

text \<open>
  Equality of 32-bit words by evaluating their bits at every position; with \<open>bits32\<close> the simplifier
  settles any equation between concatenations and extractions of bit fields.
\<close>

lemma word32_eqI:
  fixes a b :: u32
  assumes "list_all (\<lambda>n. bit a n = bit b n) [0..<32]"
  shows "a = b"
  by (rule word_bitsI) (use assms in \<open>auto simp: list_all_iff\<close>)

lemma bit_beyond [simp]: "LENGTH('a) \<le> n \<Longrightarrow> \<not> bit (w :: 'a::len word) n"
  using bit_word_lt by fastforce

lemma upt_32: "[0..<32] = [0,1,2,3,4,5,6,7,8,9,10,11,12,13,14,15,16,17,18,19,20,21,22,23,24,25,26,27,28,29,30,31]"
  by code_simp

lemmas bits32 = upt_32 bit_simps

subsection \<open>Facts on lists\<close>

lemma sorted_wrt_unique:
  assumes "mset xs = mset ys" and "sorted_wrt (\<lambda>a b. f a < f b) xs" and "sorted_wrt (\<lambda>a b. f a < (f b :: 'b::linorder)) ys"
  shows "xs = ys"
proof -
  have s: "map f xs = sorted_list_of_multiset (image_mset f (mset xs))" if "sorted_wrt (\<lambda>a b. f a < f b) xs" for xs
  proof -
    from that have "sorted (map f xs)"
      by (simp add: sorted_wrt_map) (erule sorted_wrt_mono_rel [rotated], simp)
    then show ?thesis
      by (metis mset_map sorted_list_of_multiset_mset sorted_sort_id)
  qed
  have inj: "inj_on f (set xs)"
  proof (rule inj_onI)
    fix a b assume "a \<in> set xs" "b \<in> set xs" and eq: "f a = f b"
    then obtain i j where "i < length xs" "j < length xs" "xs ! i = a" "xs ! j = b"
      by (auto simp: in_set_conv_nth)
    with eq assms(2) show "a = b"
      by (metis less_irrefl linorder_neqE_nat sorted_wrt_nth_less)
  qed
  have "map f xs = map f ys"
    using s [OF assms(2)] s [OF assms(3)] assms(1) by simp
  then show ?thesis
    using inj assms(1) by (metis inj_on_map_eq_map mset_eq_setD sup.idem)
qed

end
