(* ===== verification/Errors.thy ===== *)
theory Errors
  imports Prelude
begin

text \<open>
  The exceptions of \<open>lib/Error.h\<close>: one constructor per class derived from \<open>dinorisc::Error\<close>,
  with the message it carries. Three further constructors stand for what happens outside these
  classes: \<open>BadVariantAccess\<close> is the exception \<open>std::get\<close> throws on the wrong alternative,
  \<open>OutOfBounds\<close> a read past the end of a \<open>std::vector\<close>, and \<open>HostTrap\<close> a call of translated code
  that does not come back (an illegal instruction, a fault, an endless run).
  \<open>std::runtime_error::what()\<close> returns the message.
\<close>

datatype error =
    ELFError string
  | DecodingError string
  | UnsupportedInstructionError string
  | EncodingError string
  | LoweringError string
  | RuntimeError string
  | BadVariantAccess
  | OutOfBounds
  | HostTrap

type_synonym 'a result = "error + 'a"

text \<open>Whether an exception is caught by a handler for \<open>dinorisc::Error\<close>.\<close>

fun is_dinorisc_error :: "error \<Rightarrow> bool" where
  "is_dinorisc_error BadVariantAccess = False"
| "is_dinorisc_error OutOfBounds = False"
| "is_dinorisc_error HostTrap = False"
| "is_dinorisc_error _ = True"

text \<open>\<open>std::vector::operator[]\<close>\<close>

definition vec_nth :: "'a list \<Rightarrow> nat \<Rightarrow> 'a result" where
  "vec_nth xs i = (if i < length xs then Inr (xs ! i) else Inl OutOfBounds)"

lemma vec_nth_Inr_iff [simp, result_simps]: "vec_nth xs i = Inr x \<longleftrightarrow> i < length xs \<and> xs ! i = x"
  by (auto simp: vec_nth_def)

lemma vec_nth_in [simp, result_simps]: "i < length xs \<Longrightarrow> vec_nth xs i = Inr (xs ! i)"
  by (simp add: vec_nth_def)

end
