(* ===== verification/Arm64.thy ===== *)
theory Arm64
  imports Errors
begin

text \<open>
  \<open>lib/ARM64/Instruction.h\<close> and \<open>lib/ARM64/Instruction.cpp\<close>: the ARM64 instructions the lowering
  produces and their textual form. The enumerators of \<open>Opcode\<close> carry the prefix \<open>arm\<close>, those of
  \<open>Condition\<close> the prefix \<open>cond\<close> and those of \<open>DataSize\<close> the prefix \<open>Size\<close>. A virtual register
  (\<open>uint32_t\<close>) is a \<open>nat\<close> whose wrap-around is written out where it is incremented. The struct
  \<open>Instruction\<close> has its \<open>kind\<close> as only member and is the variant itself.
\<close>

datatype arm_register =
    X0 | X1 | X2 | X3 | X4 | X5 | X6 | X7
  | X8 | X9 | X10 | X11 | X12 | X13 | X14 | X15
  | X16 | X17 | X18 | X19 | X20 | X21 | X22 | X23
  | X24 | X25 | X26 | X27 | X28 | X29 | X30 | XSP

datatype arm_opcode =
    armADD | armSUB | armMUL | armUDIV | armSDIV | armAND | armORR | armEOR
  | armLSL | armLSR | armASR | armLDR | armSTR | armCMP | armB | armB_EQ
  | armB_NE | armB_LT | armB_LE | armB_GT | armB_GE | armCSEL | armCSET | armSXTB
  | armSXTH | armSXTW | armUXTB | armUXTH | armMOV | armMOVN | armMOVZ | armMOVK
  | armRET

datatype data_size = SizeB | SizeH | SizeW | SizeX

datatype condition =
    condEQ | condNE | condCS | condCC | condMI | condPL | condVS | condVC
  | condHI | condLS | condGE | condLT | condGT | condLE | condAL | condNV

type_synonym virtual_register = nat

datatype arm_operand = ArmReg arm_register | ArmVReg virtual_register | ArmImm u64

datatype arm_instruction =
    ThreeOperandInst arm_opcode data_size arm_operand arm_operand arm_operand
  | TwoOperandInst arm_opcode data_size arm_operand arm_operand
  | MemoryInst arm_opcode data_size arm_operand arm_operand i32
  | MoveWideInst arm_opcode data_size arm_operand u16 u8
  | BranchInst arm_opcode u64
  | ConditionalInst arm_opcode data_size arm_operand condition
  | ConditionalSelectInst arm_opcode data_size arm_operand arm_operand arm_operand condition

text \<open>The values of the enumerators of \<open>Register\<close> and of \<open>Condition\<close>.\<close>

fun register_number :: "arm_register \<Rightarrow> u32" where
  "register_number X0 = 0"
| "register_number X1 = 1"
| "register_number X2 = 2"
| "register_number X3 = 3"
| "register_number X4 = 4"
| "register_number X5 = 5"
| "register_number X6 = 6"
| "register_number X7 = 7"
| "register_number X8 = 8"
| "register_number X9 = 9"
| "register_number X10 = 10"
| "register_number X11 = 11"
| "register_number X12 = 12"
| "register_number X13 = 13"
| "register_number X14 = 14"
| "register_number X15 = 15"
| "register_number X16 = 16"
| "register_number X17 = 17"
| "register_number X18 = 18"
| "register_number X19 = 19"
| "register_number X20 = 20"
| "register_number X21 = 21"
| "register_number X22 = 22"
| "register_number X23 = 23"
| "register_number X24 = 24"
| "register_number X25 = 25"
| "register_number X26 = 26"
| "register_number X27 = 27"
| "register_number X28 = 28"
| "register_number X29 = 29"
| "register_number X30 = 30"
| "register_number XSP = 31"

fun condition_code :: "condition \<Rightarrow> u32" where
  "condition_code condEQ = 0"
| "condition_code condNE = 1"
| "condition_code condCS = 2"
| "condition_code condCC = 3"
| "condition_code condMI = 4"
| "condition_code condPL = 5"
| "condition_code condVS = 6"
| "condition_code condVC = 7"
| "condition_code condHI = 8"
| "condition_code condLS = 9"
| "condition_code condGE = 10"
| "condition_code condLT = 11"
| "condition_code condGT = 12"
| "condition_code condLE = 13"
| "condition_code condAL = 14"
| "condition_code condNV = 15"

subsection \<open>Textual form\<close>

fun registerToString :: "arm_register \<Rightarrow> string" where
  "registerToString X0 = ''x0''"
| "registerToString X1 = ''x1''"
| "registerToString X2 = ''x2''"
| "registerToString X3 = ''x3''"
| "registerToString X4 = ''x4''"
| "registerToString X5 = ''x5''"
| "registerToString X6 = ''x6''"
| "registerToString X7 = ''x7''"
| "registerToString X8 = ''x8''"
| "registerToString X9 = ''x9''"
| "registerToString X10 = ''x10''"
| "registerToString X11 = ''x11''"
| "registerToString X12 = ''x12''"
| "registerToString X13 = ''x13''"
| "registerToString X14 = ''x14''"
| "registerToString X15 = ''x15''"
| "registerToString X16 = ''x16''"
| "registerToString X17 = ''x17''"
| "registerToString X18 = ''x18''"
| "registerToString X19 = ''x19''"
| "registerToString X20 = ''x20''"
| "registerToString X21 = ''x21''"
| "registerToString X22 = ''x22''"
| "registerToString X23 = ''x23''"
| "registerToString X24 = ''x24''"
| "registerToString X25 = ''x25''"
| "registerToString X26 = ''x26''"
| "registerToString X27 = ''x27''"
| "registerToString X28 = ''x28''"
| "registerToString X29 = ''x29''"
| "registerToString X30 = ''x30''"
| "registerToString XSP = ''sp''"

fun armOpcodeToString :: "arm_opcode \<Rightarrow> string" where
  "armOpcodeToString armADD = ''add''"
| "armOpcodeToString armSUB = ''sub''"
| "armOpcodeToString armMUL = ''mul''"
| "armOpcodeToString armUDIV = ''udiv''"
| "armOpcodeToString armSDIV = ''sdiv''"
| "armOpcodeToString armAND = ''and''"
| "armOpcodeToString armORR = ''orr''"
| "armOpcodeToString armEOR = ''eor''"
| "armOpcodeToString armLSL = ''lsl''"
| "armOpcodeToString armLSR = ''lsr''"
| "armOpcodeToString armASR = ''asr''"
| "armOpcodeToString armLDR = ''ldr''"
| "armOpcodeToString armSTR = ''str''"
| "armOpcodeToString armCMP = ''cmp''"
| "armOpcodeToString armB = ''b''"
| "armOpcodeToString armB_EQ = ''b.eq''"
| "armOpcodeToString armB_NE = ''b.ne''"
| "armOpcodeToString armB_LT = ''b.lt''"
| "armOpcodeToString armB_LE = ''b.le''"
| "armOpcodeToString armB_GT = ''b.gt''"
| "armOpcodeToString armB_GE = ''b.ge''"
| "armOpcodeToString armCSEL = ''csel''"
| "armOpcodeToString armCSET = ''cset''"
| "armOpcodeToString armSXTB = ''sxtb''"
| "armOpcodeToString armSXTH = ''sxth''"
| "armOpcodeToString armSXTW = ''sxtw''"
| "armOpcodeToString armUXTB = ''uxtb''"
| "armOpcodeToString armUXTH = ''uxth''"
| "armOpcodeToString armMOV = ''mov''"
| "armOpcodeToString armMOVN = ''movn''"
| "armOpcodeToString armMOVZ = ''movz''"
| "armOpcodeToString armMOVK = ''movk''"
| "armOpcodeToString armRET = ''ret''"

fun dataSizeToString :: "data_size \<Rightarrow> string" where
  "dataSizeToString SizeB = ''b''"
| "dataSizeToString SizeH = ''h''"
| "dataSizeToString SizeW = ''w''"
| "dataSizeToString SizeX = ''x''"

fun conditionToString :: "condition \<Rightarrow> string" where
  "conditionToString condEQ = ''eq''"
| "conditionToString condNE = ''ne''"
| "conditionToString condCS = ''cs''"
| "conditionToString condCC = ''cc''"
| "conditionToString condMI = ''mi''"
| "conditionToString condPL = ''pl''"
| "conditionToString condVS = ''vs''"
| "conditionToString condVC = ''vc''"
| "conditionToString condHI = ''hi''"
| "conditionToString condLS = ''ls''"
| "conditionToString condGE = ''ge''"
| "conditionToString condLT = ''lt''"
| "conditionToString condGT = ''gt''"
| "conditionToString condLE = ''le''"
| "conditionToString condAL = ''al''"
| "conditionToString condNV = ''nv''"

fun armOperandToString :: "arm_operand \<Rightarrow> string" where
  "armOperandToString (ArmReg r) = registerToString r"
| "armOperandToString (ArmVReg v) = ''v'' @ dec_string v"
| "armOperandToString (ArmImm i) = ''#'' @ dec_string (unat i)"

fun armToString :: "arm_instruction \<Rightarrow> string" where
  "armToString (ThreeOperandInst opc sz d s1 s2) =
     armOpcodeToString opc @ '' '' @ armOperandToString d @ '', '' @ armOperandToString s1 @ '', '' @ armOperandToString s2"
| "armToString (TwoOperandInst opc sz d s) =
     armOpcodeToString opc @ '' '' @ armOperandToString d @ '', '' @ armOperandToString s"
| "armToString (MemoryInst opc sz r b off) =
     armOpcodeToString opc @ '' '' @ armOperandToString r @ '', ['' @ armOperandToString b @
     (if off \<noteq> 0 then '', #'' @ int_string (sint off) else []) @ '']''"
| "armToString (MoveWideInst opc sz d imm16 sh) =
     armOpcodeToString opc @ '' '' @ armOperandToString d @ '', #'' @ dec_string (unat imm16) @
     (if sh \<noteq> 0 then '', lsl #'' @ dec_string (unat sh) else [])"
| "armToString (BranchInst opc target) = armOpcodeToString opc @ '' 0x'' @ hex_string (unat target)"
| "armToString (ConditionalInst opc sz d c) =
     armOpcodeToString opc @ '' '' @ armOperandToString d @ '', '' @ conditionToString c"
| "armToString (ConditionalSelectInst opc sz d s1 s2 c) =
     armOpcodeToString opc @ '' '' @ armOperandToString d @ '', '' @ armOperandToString s1 @ '', '' @
     armOperandToString s2 @ '', '' @ conditionToString c"

subsection \<open>The order of the registers\<close>

instantiation arm_register :: linorder
begin

definition less_eq_arm_register :: "arm_register \<Rightarrow> arm_register \<Rightarrow> bool" where
  "less_eq_arm_register a b \<longleftrightarrow> register_number a \<le> register_number b"

definition less_arm_register :: "arm_register \<Rightarrow> arm_register \<Rightarrow> bool" where
  "less_arm_register a b \<longleftrightarrow> register_number a < register_number b"

instance
proof
  fix a b :: arm_register
  assume "a \<le> b" and "b \<le> a"
  then have n: "register_number a = register_number b" by (simp add: less_eq_arm_register_def)
  show "a = b" using n by (cases a; simp; cases b; simp)
qed (auto simp: less_eq_arm_register_def less_arm_register_def)

end

lemma register_number_inj: "register_number a = register_number b \<Longrightarrow> a = b"
  by (metis less_eq_arm_register_def order_antisym order_refl)

end
