(* ===== verification/A64.thy ===== *)
theory A64
  imports Arm64
begin

text \<open>
  The instruction words of the A64 instruction set as the Arm Architecture Reference Manual lays
  them out, for the classes the encoder uses: \<open>a64_decode\<close> splits a word into the fields of its
  class, \<open>a64_alias\<close> names the instruction by the manual's alias rules. Both are a specification
  (what the processor makes of a word), not a model of code under \<open>src/\<close>. \<open>disassemble\<close> is \<open>None\<close> on
  every word outside these classes and on operands the program has no name for.
\<close>

subsection \<open>Words and their classes\<close>

definition fld :: "u32 \<Rightarrow> nat \<Rightarrow> nat \<Rightarrow> u32" where
  "fld w lo n = take_bit n (drop_bit lo w)"

text \<open>
  The constructors carry the fields in the order of the manual's tables, most significant first;
  the first is always \<open>sf\<close> or \<open>size\<close> where the class has it.
\<close>

datatype a64_inst =
    AddSubShifted u32 u32 u32 u32 u32 u32 u32 u32
  | AddSubImmediate u32 u32 u32 u32 u32 u32 u32
  | LogicalShifted u32 u32 u32 u32 u32 u32 u32 u32
  | DataProc3 u32 u32 u32 u32 u32 u32 u32
  | DataProc2 u32 u32 u32 u32 u32
  | Bitfield u32 u32 u32 u32 u32 u32 u32
  | MoveWide u32 u32 u32 u32 u32
  | LoadStoreUnsigned u32 u32 u32 u32 u32
  | LoadStoreImm9 u32 u32 u32 u32 u32 u32
  | ConditionalSelect u32 u32 u32 u32 u32 u32 u32 u32
  | UnconditionalRet u32
  | UnconditionalBranch u32
  | ConditionalBranch u32 u32

definition a64_decode :: "u32 \<Rightarrow> a64_inst option" where
  "a64_decode w =
     (if fld w 24 5 = 0b01011 \<and> fld w 21 1 = 0 then
        Some (AddSubShifted (fld w 31 1) (fld w 30 1) (fld w 29 1) (fld w 22 2) (fld w 16 5) (fld w 10 6) (fld w 5 5) (fld w 0 5))
      else if fld w 23 6 = 0b100010 then
        Some (AddSubImmediate (fld w 31 1) (fld w 30 1) (fld w 29 1) (fld w 22 1) (fld w 10 12) (fld w 5 5) (fld w 0 5))
      else if fld w 24 5 = 0b01010 then
        Some (LogicalShifted (fld w 31 1) (fld w 29 2) (fld w 22 2) (fld w 21 1) (fld w 16 5) (fld w 10 6) (fld w 5 5) (fld w 0 5))
      else if fld w 24 7 = 0b0011011 then
        Some (DataProc3 (fld w 31 1) (fld w 21 3) (fld w 16 5) (fld w 15 1) (fld w 10 5) (fld w 5 5) (fld w 0 5))
      else if fld w 21 10 = 0b0011010110 then
        Some (DataProc2 (fld w 31 1) (fld w 16 5) (fld w 10 6) (fld w 5 5) (fld w 0 5))
      else if fld w 23 6 = 0b100110 then
        Some (Bitfield (fld w 31 1) (fld w 29 2) (fld w 22 1) (fld w 16 6) (fld w 10 6) (fld w 5 5) (fld w 0 5))
      else if fld w 23 6 = 0b100101 then
        Some (MoveWide (fld w 31 1) (fld w 29 2) (fld w 21 2) (fld w 5 16) (fld w 0 5))
      else if fld w 24 6 = 0b111001 then
        Some (LoadStoreUnsigned (fld w 30 2) (fld w 22 2) (fld w 10 12) (fld w 5 5) (fld w 0 5))
      else if fld w 24 6 = 0b111000 \<and> fld w 21 1 = 0 then
        Some (LoadStoreImm9 (fld w 30 2) (fld w 22 2) (fld w 12 9) (fld w 10 2) (fld w 5 5) (fld w 0 5))
      else if fld w 21 8 = 0b11010100 then
        Some (ConditionalSelect (fld w 31 1) (fld w 30 1) (fld w 29 1) (fld w 16 5) (fld w 12 4) (fld w 10 2) (fld w 5 5) (fld w 0 5))
      else if fld w 10 22 = 0b1101011001011111000000 \<and> fld w 0 5 = 0 then Some (UnconditionalRet (fld w 5 5))
      else if fld w 26 6 = 0b000101 then Some (UnconditionalBranch (fld w 0 26))
      else if fld w 24 8 = 0b01010100 \<and> fld w 4 1 = 0 then Some (ConditionalBranch (fld w 5 19) (fld w 0 4))
      else None)"

subsection \<open>Names\<close>

definition general_registers :: "arm_register list" where
  "general_registers = [X0, X1, X2, X3, X4, X5, X6, X7, X8, X9, X10, X11, X12, X13, X14, X15, X16, X17, X18, X19,
     X20, X21, X22, X23, X24, X25, X26, X27, X28, X29, X30]"

definition reg_of :: "u32 \<Rightarrow> arm_operand option" where
  "reg_of n = map_option ArmReg (find (\<lambda>r. register_number r = n) general_registers)"

definition conditions :: "condition list" where
  "conditions = [condEQ, condNE, condCS, condCC, condMI, condPL, condVS, condVC, condHI, condLS, condGE, condLT, condGT, condLE]"

definition cond_of :: "u32 \<Rightarrow> condition option" where
  "cond_of n = find (\<lambda>c. condition_code c = n) conditions"

definition alu_size :: "u32 \<Rightarrow> data_size" where
  "alu_size sf = (if sf = 1 then SizeX else SizeW)"

definition memory_size :: "u32 \<Rightarrow> data_size" where
  "memory_size n = (if n = 0 then SizeB else if n = 1 then SizeH else if n = 2 then SizeW else SizeX)"

definition with2 :: "(arm_operand \<Rightarrow> arm_operand \<Rightarrow> arm_instruction) \<Rightarrow> u32 \<Rightarrow> u32 \<Rightarrow> arm_instruction option" where
  "with2 f a b = Option.bind (reg_of a) (\<lambda>x. map_option (f x) (reg_of b))"

definition with3 ::
  "(arm_operand \<Rightarrow> arm_operand \<Rightarrow> arm_operand \<Rightarrow> arm_instruction) \<Rightarrow> u32 \<Rightarrow> u32 \<Rightarrow> u32 \<Rightarrow> arm_instruction option" where
  "with3 f a b c = Option.bind (reg_of a) (\<lambda>x. with2 (f x) b c)"

text \<open>
  The alias rules: SUBS into the zero register is CMP, ORR from it is MOV, MADD with a zero
  addend is MUL, the bitfield moves are the shifts by an immediate and the extensions, CSINC of
  the zero register is CSET with the condition inverted.
\<close>

fun a64_alias :: "a64_inst \<Rightarrow> arm_instruction option" where
  "a64_alias (AddSubShifted sf opc S sh rm imm6 rn rd) =
     (if sh \<noteq> 0 \<or> imm6 \<noteq> 0 then None
      else if S = 1 then (if opc = 1 \<and> rd = 31 then with2 (TwoOperandInst armCMP (alu_size sf)) rn rm else None)
      else with3 (ThreeOperandInst (if opc = 1 then armSUB else armADD) (alu_size sf)) rd rn rm)"
| "a64_alias (AddSubImmediate sf opc S sh imm rn rd) =
     (if sh \<noteq> 0 then None
      else if S = 1 then
        (if opc = 1 \<and> rd = 31 then map_option (\<lambda>n. TwoOperandInst armCMP (alu_size sf) n (ArmImm (ucast imm))) (reg_of rn)
         else None)
      else with2 (\<lambda>d n. ThreeOperandInst (if opc = 1 then armSUB else armADD) (alu_size sf) d n (ArmImm (ucast imm))) rd rn)"
| "a64_alias (LogicalShifted sf opc sh N rm imm6 rn rd) =
     (if sh \<noteq> 0 \<or> imm6 \<noteq> 0 \<or> N \<noteq> 0 then None
      else if opc = 0 then with3 (ThreeOperandInst armAND (alu_size sf)) rd rn rm
      else if opc = 1 then
        (if rn = 31 then with2 (TwoOperandInst armMOV (alu_size sf)) rd rm
         else with3 (ThreeOperandInst armORR (alu_size sf)) rd rn rm)
      else if opc = 2 then with3 (ThreeOperandInst armEOR (alu_size sf)) rd rn rm
      else None)"
| "a64_alias (DataProc3 sf op31 rm o0 ra rn rd) =
     (if op31 = 0 \<and> o0 = 0 \<and> ra = 31 then with3 (ThreeOperandInst armMUL (alu_size sf)) rd rn rm else None)"
| "a64_alias (DataProc2 sf rm opc rn rd) =
     (if opc = 0b001000 then with3 (ThreeOperandInst armLSL (alu_size sf)) rd rn rm
      else if opc = 0b001001 then with3 (ThreeOperandInst armLSR (alu_size sf)) rd rn rm
      else if opc = 0b001010 then with3 (ThreeOperandInst armASR (alu_size sf)) rd rn rm
      else None)"
| "a64_alias (Bitfield sf opc N immr imms rn rd) =
     (let top = (if sf = 1 then 63 else 31)
      in if N \<noteq> sf \<or> immr > top \<or> imms > top then None
         else if opc = 0 then
           (if imms = top then with2 (\<lambda>d n. ThreeOperandInst armASR (alu_size sf) d n (ArmImm (ucast immr))) rd rn
            else if immr = 0 \<and> imms = 7 then with2 (TwoOperandInst armSXTB (alu_size sf)) rd rn
            else if immr = 0 \<and> imms = 15 then with2 (TwoOperandInst armSXTH (alu_size sf)) rd rn
            else if immr = 0 \<and> imms = 31 then with2 (TwoOperandInst armSXTW (alu_size sf)) rd rn
            else None)
         else if opc = 2 then
           (if imms = top then with2 (\<lambda>d n. ThreeOperandInst armLSR (alu_size sf) d n (ArmImm (ucast immr))) rd rn
            else if imms + 1 = immr then with2 (\<lambda>d n. ThreeOperandInst armLSL (alu_size sf) d n (ArmImm (ucast (top - imms)))) rd rn
            else None)
         else None)"
| "a64_alias (MoveWide sf opc hw imm rd) =
     (if sf = 0 \<and> hw > 1 then None
      else if opc = 0 \<and> hw = 0 then map_option (\<lambda>d. TwoOperandInst armMOVN (alu_size sf) d (ArmImm (ucast imm))) (reg_of rd)
      else if opc = 2 then map_option (\<lambda>d. MoveWideInst armMOVZ (alu_size sf) d (ucast imm) (ucast (16 * hw))) (reg_of rd)
      else if opc = 3 then map_option (\<lambda>d. MoveWideInst armMOVK (alu_size sf) d (ucast imm) (ucast (16 * hw))) (reg_of rd)
      else None)"
| "a64_alias (LoadStoreUnsigned sz opc imm rn rt) =
     (if opc = 0 then with2 (\<lambda>t n. MemoryInst armSTR (memory_size sz) t n (push_bit (unat sz) imm)) rt rn
      else if opc = 1 then with2 (\<lambda>t n. MemoryInst armLDR (memory_size sz) t n (push_bit (unat sz) imm)) rt rn
      else None)"
| "a64_alias (ConditionalSelect sf opc S rm cnd op2 rn rd) =
     (if opc = 0 \<and> S = 0 \<and> op2 = 0 then
        Option.bind (cond_of cnd) (\<lambda>c. with3 (\<lambda>d n m. ConditionalSelectInst armCSEL (alu_size sf) d n m c) rd rn rm)
      else if opc = 0 \<and> S = 0 \<and> op2 = 1 \<and> rm = 31 \<and> rn = 31 then
        Option.bind (cond_of (cnd XOR 1)) (\<lambda>c. map_option (\<lambda>d. ConditionalInst armCSET (alu_size sf) d c) (reg_of rd))
      else None)"
| "a64_alias (UnconditionalRet rn) =
     map_option (\<lambda>n. TwoOperandInst armRET SizeX n n) (reg_of rn)"
| "a64_alias (UnconditionalBranch imm26) = Some (BranchInst armB (4 * scast (ucast imm26 :: 26 word)))"
| "a64_alias (ConditionalBranch imm19 cnd) =
     map_option (\<lambda>opc. BranchInst opc (4 * scast (ucast imm19 :: 19 word)))
       (if cnd = 0 then Some armB_EQ else if cnd = 1 then Some armB_NE else if cnd = 11 then Some armB_LT
        else if cnd = 13 then Some armB_LE else if cnd = 12 then Some armB_GT else if cnd = 10 then Some armB_GE else None)"
| "a64_alias _ = None"

definition disassemble :: "u32 \<Rightarrow> arm_instruction option" where
  "disassemble w = Option.bind (a64_decode w) a64_alias"

text \<open>A sequence of little-endian bytes as instructions.\<close>

fun disassemble_bytes :: "u8 list \<Rightarrow> arm_instruction list option" where
  "disassemble_bytes [] = Some []"
| "disassemble_bytes (b0 # b1 # b2 # b3 # rest) =
     Option.bind (disassemble (ucast b0 OR push_bit 8 (ucast b1) OR push_bit 16 (ucast b2) OR push_bit 24 (ucast b3)))
       (\<lambda>inst. map_option (Cons inst) (disassemble_bytes rest))"
| "disassemble_bytes _ = None"

subsection \<open>Registers and conditions have one number each\<close>

lemma reg_of_register_number: "r \<noteq> XSP \<Longrightarrow> reg_of (register_number r) = Some (ArmReg r)"
  by (cases r) (simp_all add: reg_of_def general_registers_def)

lemma reg_of_31 [simp]: "reg_of 31 = None"
  by (simp add: reg_of_def general_registers_def)

lemma register_number_le: "register_number r \<le> 31"
  by (cases r) simp_all

lemma register_number_ne_31: "r \<noteq> XSP \<Longrightarrow> register_number r \<noteq> 31"
  by (cases r) simp_all

lemma cond_of_condition_code: "c \<notin> {condAL, condNV} \<Longrightarrow> cond_of (condition_code c) = Some c"
  by (cases c) (simp_all add: cond_of_def conditions_def)

lemma condition_code_le: "condition_code c \<le> 15"
  by (cases c) simp_all

end
