(* ===== verification/Encoder.thy ===== *)
theory Encoder
  imports Arm64
begin

text \<open>
  \<open>lib/ARM64/Encoder.cpp\<close>: the encoder of ARM64 instructions to 32-bit words and their bytes. One
  definition per method; an \<open>EncodingError\<close> is an \<open>Inl\<close>. The bit patterns are those of the source.
\<close>

subsection \<open>Operands\<close>

fun encodeRegister :: "arm_operand \<Rightarrow> u32 result" where
  "encodeRegister (ArmReg r) = Inr (if r = XSP then 31 else register_number r)"
| "encodeRegister (ArmVReg _) = Inl (EncodingError ''Cannot encode virtual register - register allocation required'')"
| "encodeRegister (ArmImm _) = Inl (EncodingError ''Invalid operand type for register encoding'')"

fun isImmediate :: "arm_operand \<Rightarrow> bool" where
  "isImmediate (ArmImm _) = True"
| "isImmediate _ = False"

text \<open>\<open>std::get<Immediate>(operand).value\<close>, read only after \<open>isImmediate\<close>.\<close>

fun immediateValue :: "arm_operand \<Rightarrow> u64" where
  "immediateValue (ArmImm i) = i"
| "immediateValue _ = 0"

definition getSfBit :: "data_size \<Rightarrow> u32" where
  "getSfBit sz = (if sz = SizeX then 1 else 0)"

definition getConditionCode :: "arm_opcode \<Rightarrow> u32 result" where
  "getConditionCode opc =
     (case opc of
        armB_EQ \<Rightarrow> Inr 0b0000
      | armB_NE \<Rightarrow> Inr 0b0001
      | armB_LT \<Rightarrow> Inr 0b1011
      | armB_LE \<Rightarrow> Inr 0b1101
      | armB_GT \<Rightarrow> Inr 0b1100
      | armB_GE \<Rightarrow> Inr 0b1010
      | _ \<Rightarrow> Inl (EncodingError ''Unsupported condition code opcode''))"

subsection \<open>Three operands\<close>

text \<open>The immediate branch shared by ADD, SUB and CMP, with the pattern and the destination field.\<close>

definition encodeAddSubImmediate :: "string \<Rightarrow> u32 \<Rightarrow> u32 \<Rightarrow> u64 \<Rightarrow> u32 \<Rightarrow> u32 \<Rightarrow> u32 result" where
  "encodeAddSubImmediate msg pat sf immediate rn rd =
     (let imm = ucast immediate :: u32; sh = 0
      in if imm > 0xFFF then Inl (EncodingError msg)
         else Inr (push_bit 31 sf OR push_bit 23 pat OR push_bit 22 sh OR push_bit 10 imm OR push_bit 5 rn OR rd))"

text \<open>The shifted-register forms; the position of the pattern differs between the two groups.\<close>

definition encodeShiftedRegister :: "nat \<Rightarrow> u32 \<Rightarrow> u32 \<Rightarrow> u32 \<Rightarrow> u32 \<Rightarrow> u32 \<Rightarrow> u32" where
  "encodeShiftedRegister pos pat sf rm rn rd =
     (let shift = 0; imm6 = 0
      in push_bit 31 sf OR push_bit pos pat OR push_bit (pos - 2) shift OR push_bit 16 rm OR
         push_bit 10 imm6 OR push_bit 5 rn OR rd)"

text \<open>The immediate shifts, as the bitfield moves UBFM and SBFM.\<close>

definition encodeBitfield :: "u32 \<Rightarrow> u32 \<Rightarrow> u32 \<Rightarrow> u32 \<Rightarrow> u32 \<Rightarrow> u32 \<Rightarrow> u32 \<Rightarrow> u32" where
  "encodeBitfield pat sf N immr imms rn rd =
     push_bit 31 sf OR push_bit 23 pat OR push_bit 22 N OR push_bit 16 immr OR
     push_bit 10 imms OR push_bit 5 rn OR rd"

text \<open>The cases of the shifts: an immediate bitfield move, or the register form.\<close>

definition encodeLSL :: "u32 \<Rightarrow> arm_operand \<Rightarrow> u32 \<Rightarrow> u32 \<Rightarrow> u32 result" where
  "encodeLSL sf src2 rn rd =
     (if isImmediate src2
      then (let shiftAmount = immediateValue src2; datasize = (if sf = 1 then 64 else 32) :: u64
            in if shiftAmount \<ge> datasize then Inl (EncodingError ''LSL shift amount out of range'')
               else Inr (encodeBitfield 0b10100110 sf sf (ucast ((datasize - shiftAmount) mod datasize))
                           (ucast (datasize - 1 - shiftAmount)) rn rd))
      else bindR (encodeRegister src2) (\<lambda>rm.
        Inr (push_bit 31 sf OR push_bit 21 0b0011010110 OR push_bit 16 rm OR push_bit 10 0b001000 OR push_bit 5 rn OR rd)))"

definition encodeLSR :: "u32 \<Rightarrow> arm_operand \<Rightarrow> u32 \<Rightarrow> u32 \<Rightarrow> u32 result" where
  "encodeLSR sf src2 rn rd =
     (if isImmediate src2
      then (let shiftAmount = immediateValue src2; datasize = (if sf = 1 then 64 else 32) :: u64
            in if shiftAmount \<ge> datasize then Inl (EncodingError ''LSR shift amount out of range'')
               else Inr (encodeBitfield 0b10100110 sf sf (ucast shiftAmount) (ucast (datasize - 1)) rn rd))
      else bindR (encodeRegister src2) (\<lambda>rm.
        Inr (push_bit 31 sf OR push_bit 20 0b00110101100 OR push_bit 16 rm OR push_bit 10 0b0110 OR push_bit 5 rn OR rd)))"

definition encodeASR :: "u32 \<Rightarrow> arm_operand \<Rightarrow> u32 \<Rightarrow> u32 \<Rightarrow> u32 result" where
  "encodeASR sf src2 rn rd =
     (if isImmediate src2
      then (let shiftAmount = immediateValue src2; datasize = (if sf = 1 then 64 else 32) :: u64
            in if shiftAmount \<ge> datasize then Inl (EncodingError ''ASR shift amount out of range'')
               else Inr (encodeBitfield 0b00100110 sf sf (ucast shiftAmount) (ucast (datasize - 1)) rn rd))
      else bindR (encodeRegister src2) (\<lambda>rm.
        Inr (push_bit 31 sf OR push_bit 20 0b00110101100 OR push_bit 16 rm OR push_bit 10 0b1010 OR push_bit 5 rn OR rd)))"

definition encodeThreeOperandInst ::
  "arm_opcode \<Rightarrow> data_size \<Rightarrow> arm_operand \<Rightarrow> arm_operand \<Rightarrow> arm_operand \<Rightarrow> u32 result" where
  "encodeThreeOperandInst opc sz dest src1 src2 =
     (let sf = getSfBit sz in
      bindR (encodeRegister dest) (\<lambda>rd.
      bindR (encodeRegister src1) (\<lambda>rn.
      (case opc of
         armADD \<Rightarrow>
           (if isImmediate src2
            then encodeAddSubImmediate ''ADD immediate value too large (>12 bits)'' 0b00100010 sf (immediateValue src2) rn rd
            else bindR (encodeRegister src2) (\<lambda>rm. Inr (encodeShiftedRegister 24 0b0001011 sf rm rn rd)))
       | armSUB \<Rightarrow>
           (if isImmediate src2
            then encodeAddSubImmediate ''SUB immediate value too large (>12 bits)'' 0b10100010 sf (immediateValue src2) rn rd
            else bindR (encodeRegister src2) (\<lambda>rm. Inr (encodeShiftedRegister 24 0b1001011 sf rm rn rd)))
       | armAND \<Rightarrow>
           (if isImmediate src2 then Inl (EncodingError ''AND with immediate not supported'')
            else bindR (encodeRegister src2) (\<lambda>rm. Inr (encodeShiftedRegister 25 0b000101 sf rm rn rd)))
       | armORR \<Rightarrow>
           (if isImmediate src2 then Inl (EncodingError ''ORR with immediate not supported'')
            else bindR (encodeRegister src2) (\<lambda>rm. Inr (encodeShiftedRegister 25 0b010101 sf rm rn rd)))
       | armEOR \<Rightarrow>
           (if isImmediate src2 then Inl (EncodingError ''EOR with immediate not supported'')
            else bindR (encodeRegister src2) (\<lambda>rm. Inr (encodeShiftedRegister 25 0b110101 sf rm rn rd)))
       | armMUL \<Rightarrow>
           (if isImmediate src2 then Inl (EncodingError ''MUL with immediate not supported'')
            else bindR (encodeRegister src2) (\<lambda>rm.
              let ra = 31
              in Inr (push_bit 31 sf OR push_bit 21 0b0011011000 OR push_bit 16 rm OR push_bit 10 ra OR push_bit 5 rn OR rd)))
       | armCMP \<Rightarrow>
           (if isImmediate src2
            then encodeAddSubImmediate ''CMP immediate value too large (>12 bits)'' 0b11100010 sf (immediateValue src2) rn 31
            else bindR (encodeRegister src2) (\<lambda>rm. Inr (encodeShiftedRegister 24 0b1101011 sf rm rn 31)))
       | armLSL \<Rightarrow> encodeLSL sf src2 rn rd
       | armLSR \<Rightarrow> encodeLSR sf src2 rn rd
       | armASR \<Rightarrow> encodeASR sf src2 rn rd
       | _ \<Rightarrow> Inl (EncodingError ''Unsupported three-operand instruction opcode'')))))"

subsection \<open>Two operands\<close>

definition encodeMoveImmediate :: "string \<Rightarrow> u32 \<Rightarrow> u32 \<Rightarrow> u64 \<Rightarrow> u32 \<Rightarrow> u32 result" where
  "encodeMoveImmediate msg pat sf imm rd =
     (if imm > 0xFFFF then Inl (EncodingError msg)
      else (let hw = 0 in Inr (push_bit 31 sf OR push_bit 23 pat OR push_bit 21 hw OR push_bit 5 (ucast (imm AND 0xFFFF)) OR rd)))"

definition encodeTwoOperandInst :: "arm_opcode \<Rightarrow> data_size \<Rightarrow> arm_operand \<Rightarrow> arm_operand \<Rightarrow> u32 result" where
  "encodeTwoOperandInst opc sz dest src =
     (let sf = getSfBit sz in
      bindR (encodeRegister dest) (\<lambda>rd.
      (case opc of
         armMOV \<Rightarrow>
           (if isImmediate src
            then encodeMoveImmediate ''MOV immediate value too large (>16 bits)'' 0b10100101 sf (immediateValue src) rd
            else bindR (encodeRegister src) (\<lambda>rm. Inr (encodeShiftedRegister 25 0b010101 sf rm 31 rd)))
       | armSXTB \<Rightarrow> bindR (encodeRegister src) (\<lambda>rn. Inr (encodeBitfield 0b00100110 sf sf 0 7 rn rd))
       | armSXTH \<Rightarrow> bindR (encodeRegister src) (\<lambda>rn. Inr (encodeBitfield 0b00100110 sf sf 0 15 rn rd))
       | armSXTW \<Rightarrow> bindR (encodeRegister src) (\<lambda>rn. Inr (encodeBitfield 0b00100110 1 1 0 31 rn rd))
       | armRET \<Rightarrow> bindR (encodeRegister src) (\<lambda>rn. Inr (0xD65F0000 OR push_bit 5 rn))
       | armMOVN \<Rightarrow>
           (if \<not> isImmediate src then Inl (EncodingError ''MOVN only supports immediate operands'')
            else encodeMoveImmediate ''MOVN immediate value too large (>16 bits)'' 0b00100101 sf (immediateValue src) rd)
       | armCMP \<Rightarrow>
           bindR (encodeRegister dest) (\<lambda>rn.
           if isImmediate src
           then encodeAddSubImmediate ''CMP immediate value too large (>12 bits)'' 0b11100010 sf (immediateValue src) rn 31
           else bindR (encodeRegister src) (\<lambda>rm. Inr (encodeShiftedRegister 24 0b1101011 sf rm rn 31)))
       | _ \<Rightarrow> Inl (EncodingError ''Unsupported two-operand instruction opcode''))))"

subsection \<open>Memory\<close>

fun memorySize :: "data_size \<Rightarrow> nat" where
  "memorySize SizeB = 0b00"
| "memorySize SizeH = 0b01"
| "memorySize SizeW = 0b10"
| "memorySize SizeX = 0b11"

text \<open>The two forms of LDR and STR, with the patterns of the source.\<close>

definition encodeMemoryForms :: "string \<Rightarrow> string \<Rightarrow> u32 \<Rightarrow> u32 \<Rightarrow> nat \<Rightarrow> i32 \<Rightarrow> u32 \<Rightarrow> u32 \<Rightarrow> u32 result" where
  "encodeMemoryForms msgLarge msgRange pat index sz offset rn rt =
     (if sint offset \<ge> 0 \<and> sint offset mod 2 ^ sz = 0 then
        (let scaledOffset = signed_drop_bit sz offset
         in if scaledOffset \<le> 0xFFF
            then Inr (push_bit 30 (of_nat sz) OR push_bit 22 pat OR push_bit 10 scaledOffset OR push_bit 5 rn OR rt)
            else Inl (EncodingError msgLarge))
      else if sint offset \<ge> - 256 \<and> sint offset \<le> 255 then
        Inr (push_bit 30 (of_nat sz) OR push_bit 22 0b11100000 OR push_bit 12 (offset AND 0x1FF) OR
             push_bit 10 index OR push_bit 5 rn OR rt)
      else Inl (EncodingError msgRange))"

definition encodeMemoryInst :: "arm_opcode \<Rightarrow> data_size \<Rightarrow> arm_operand \<Rightarrow> arm_operand \<Rightarrow> i32 \<Rightarrow> u32 result" where
  "encodeMemoryInst opc sz reg baseReg offset =
     bindR (encodeRegister reg) (\<lambda>rt.
     bindR (encodeRegister baseReg) (\<lambda>rn.
     (case opc of
        armLDR \<Rightarrow>
          encodeMemoryForms ''LDR scaled offset too large (>4095)'' ''LDR offset out of range'' 0b11100101 0b11
            (memorySize sz) offset rn rt
      | armSTR \<Rightarrow>
          encodeMemoryForms ''STR scaled offset too large (>4095)'' ''STR offset out of range'' 0b11100100 0b01
            (memorySize sz) offset rn rt
      | _ \<Rightarrow> Inl (EncodingError ''Unsupported memory instruction opcode''))))"

subsection \<open>Branches, wide moves, conditional operations\<close>

definition encodeBranchInst :: "arm_opcode \<Rightarrow> u64 \<Rightarrow> u32 result" where
  "encodeBranchInst opc target =
     (let offset = sint target
      in if offset < - 0x2000000 \<or> offset > 0x1FFFFFF then Inl (EncodingError ''Branch target out of range'')
         else
           (let imm26 = ucast (signed_drop_bit 2 target) AND 0x3FFFFFF
            in if opc = armB then Inr (push_bit 26 0b000101 OR imm26)
               else if opc \<in> {armB_EQ, armB_NE, armB_LT, armB_LE, armB_GT, armB_GE} then
                 (if offset < - 0x40000 \<or> offset > 0x3FFFF
                  then Inl (EncodingError ''Conditional branch target out of range'')
                  else (let imm19 = ucast (signed_drop_bit 2 target) AND 0x7FFFF
                        in bindR (getConditionCode opc) (\<lambda>cnd. Inr (push_bit 25 0b0101010 OR push_bit 5 imm19 OR cnd))))
               else Inl (EncodingError ''Unsupported branch instruction opcode'')))"

definition encodeMoveWideInst :: "arm_opcode \<Rightarrow> data_size \<Rightarrow> arm_operand \<Rightarrow> u16 \<Rightarrow> u8 \<Rightarrow> u32 result" where
  "encodeMoveWideInst opc sz dest imm16 shift =
     (let sf = getSfBit sz in
      bindR (encodeRegister dest) (\<lambda>rd.
      let hw = ucast shift div 16 :: u32
      in if hw > 3 then Inl (EncodingError ''Invalid shift amount for move wide instruction'')
         else
           (case opc of
              armMOVZ \<Rightarrow> Inr (push_bit 31 sf OR push_bit 23 0b10100101 OR push_bit 21 hw OR push_bit 5 (ucast imm16) OR rd)
            | armMOVK \<Rightarrow> Inr (push_bit 31 sf OR push_bit 23 0b11100101 OR push_bit 21 hw OR push_bit 5 (ucast imm16) OR rd)
            | _ \<Rightarrow> Inl (EncodingError ''Unsupported move wide instruction opcode''))))"

definition encodeConditionalInst :: "arm_opcode \<Rightarrow> data_size \<Rightarrow> arm_operand \<Rightarrow> condition \<Rightarrow> u32 result" where
  "encodeConditionalInst opc sz dest cnd =
     (let sf = getSfBit sz in
      bindR (encodeRegister dest) (\<lambda>rd.
      (case opc of
         armCSET \<Rightarrow>
           (let c = condition_code cnd XOR 1
            in Inr (push_bit 31 sf OR push_bit 21 0b0011010100 OR push_bit 16 0b11111 OR push_bit 12 c OR
                    push_bit 10 0b01 OR push_bit 5 0b11111 OR rd))
       | _ \<Rightarrow> Inl (EncodingError ''Unsupported conditional instruction''))))"

definition encodeConditionalSelectInst ::
  "arm_opcode \<Rightarrow> data_size \<Rightarrow> arm_operand \<Rightarrow> arm_operand \<Rightarrow> arm_operand \<Rightarrow> condition \<Rightarrow> u32 result" where
  "encodeConditionalSelectInst opc sz dest src1 src2 cnd =
     (let sf = getSfBit sz in
      bindR (encodeRegister dest) (\<lambda>rd.
      bindR (encodeRegister src1) (\<lambda>rn.
      (case opc of
         armCSEL \<Rightarrow>
           (if isImmediate src1 \<or> isImmediate src2
            then Inl (EncodingError ''CSEL with immediate operands not supported'')
            else bindR (encodeRegister src2) (\<lambda>rm.
              let c = condition_code cnd
              in Inr (push_bit 31 sf OR push_bit 21 0b0011010100 OR push_bit 16 rm OR push_bit 12 c OR push_bit 5 rn OR rd)))
       | _ \<Rightarrow> Inl (EncodingError ''Unsupported conditional select instruction'')))))"

subsection \<open>An instruction\<close>

fun encodeWord :: "arm_instruction \<Rightarrow> u32 result" where
  "encodeWord (ThreeOperandInst opc sz d s1 s2) = encodeThreeOperandInst opc sz d s1 s2"
| "encodeWord (TwoOperandInst opc sz d s) = encodeTwoOperandInst opc sz d s"
| "encodeWord (MemoryInst opc sz r b off) = encodeMemoryInst opc sz r b off"
| "encodeWord (MoveWideInst opc sz d imm16 sh) = encodeMoveWideInst opc sz d imm16 sh"
| "encodeWord (BranchInst opc target) = encodeBranchInst opc target"
| "encodeWord (ConditionalInst opc sz d c) = encodeConditionalInst opc sz d c"
| "encodeWord (ConditionalSelectInst opc sz d s1 s2 c) = encodeConditionalSelectInst opc sz d s1 s2 c"

definition encodeInstruction :: "arm_instruction \<Rightarrow> u8 list result" where
  "encodeInstruction inst =
     bindR (encodeWord inst) (\<lambda>encoded.
       Inr [ucast (encoded AND 0xFF), ucast (drop_bit 8 encoded AND 0xFF),
            ucast (drop_bit 16 encoded AND 0xFF), ucast (drop_bit 24 encoded AND 0xFF)])"

end
