(* ===== verification/EncoderCorrect.thy ===== *)
theory EncoderCorrect
  imports A64 Encoder
begin

text \<open>
  The encoder against the A64 instruction set: every instruction the encoder supports
  (\<open>encodable\<close>: physical registers other than SP, immediates and offsets in range) is encoded to a
  word the manual's tables read back as that instruction (\<open>canon\<close> removes what has no counterpart
  in the encoding: operand sizes below a word of register operations, and the unused operands of
  RET and CMP). Three encodings do not mean what the encoder intends; they are stated at the end.

  A field of a concatenation of fields is computed by the rules \<open>fld_simps\<close>; \<open>small n x\<close> says that
  \<open>x\<close> fits into \<open>n\<close> bits.
\<close>

subsection \<open>Fields\<close>


lemma fld_or: "fld (x OR y) a n = fld x a n OR fld y a n"
  by (simp add: fld_def drop_bit_or take_bit_or)

lemma bit_fld: "bit (fld x a n) j \<longleftrightarrow> j < n \<and> bit x (a + j)"
  by (auto simp: fld_def bit_simps)

lemma fld_push_above: "a + n \<le> k \<Longrightarrow> fld (push_bit k x) a n = 0"
  by (rule bit_eqI) (auto simp: bit_fld bit_simps)

lemma fld_push_in: "a \<le> k \<Longrightarrow> k < a + n \<Longrightarrow> a + n \<le> 32 \<Longrightarrow> fld (push_bit k x) a n = push_bit (k - a) (take_bit (n - (k - a)) x)"
  by (rule bit_eqI) (auto simp: bit_fld bit_simps add.commute)

lemma fld_push_below: "k < a \<Longrightarrow> a + n \<le> 32 \<Longrightarrow> fld (push_bit k x) a n = fld x (a - k) n"
  by (rule bit_eqI) (auto simp: bit_fld bit_simps)

lemma bit_small: "unat (x :: u32) < 2 ^ a \<Longrightarrow> bit x j \<Longrightarrow> j < a"
proof -
  assume "unat x < 2 ^ a" and b: "bit x j"
  then have t: "take_bit a (unat x) = unat x" by (simp add: take_bit_nat_eq_self)
  have "bit (unat x) j" using b by (simp add: bit_unsigned_iff)
  then have "bit (take_bit a (unat x)) j" by (simp only: t)
  then show "j < a" by (simp add: bit_take_bit_iff)
qed

lemma fld_high: "unat x < 2 ^ a \<Longrightarrow> fld x a n = 0"
  by (rule bit_eqI) (auto simp: bit_fld dest: bit_small)

lemma fld_low: "unat x < 2 ^ n \<Longrightarrow> fld x 0 n = x"
  by (rule bit_eqI) (auto simp: bit_fld dest: bit_small)

lemma take_bit_low: "unat (x :: u32) < 2 ^ n \<Longrightarrow> take_bit n x = x"
  by (rule bit_eqI) (auto simp: bit_simps dest: bit_small)

lemma fld_zero: "fld 0 a n = 0"
  by (simp add: fld_def)

lemma fld_one: "fld 1 a n = take_bit n (drop_bit a 1)"
  by (simp add: fld_def)

lemma fld_numeral: "fld (numeral v) a n = take_bit n (drop_bit a (numeral v))"
  by (simp add: fld_def)

lemmas fld_simps = fld_or fld_push_above fld_push_in fld_push_below fld_zero fld_one fld_numeral

definition small :: "nat \<Rightarrow> u32 \<Rightarrow> bool" where "small n x \<longleftrightarrow> unat x < 2 ^ n"

lemma small_fld: "small k x \<Longrightarrow> k \<le> a \<Longrightarrow> fld x a n = 0"
  "small k x \<Longrightarrow> k \<le> n \<Longrightarrow> fld x 0 n = x"
  "small k x \<Longrightarrow> k \<le> n \<Longrightarrow> take_bit n x = x"
  by (auto simp: small_def intro!: fld_high fld_low take_bit_low elim: less_le_trans)


lemma small_register_number [simp]: "small 5 (register_number r)"
  using register_number_le [of r] by (simp add: small_def word_le_nat_alt)

lemma small_condition_code [simp]: "small 4 (condition_code c)"
  using condition_code_le [of c] by (simp add: small_def word_le_nat_alt)

lemma small_iff: "small n x \<longleftrightarrow> take_bit n x = x"
proof
  assume "small n x" then show "take_bit n x = x" by (simp add: small_fld(3))
next
  assume t: "take_bit n x = x"
  have "unat (take_bit n x) < 2 ^ n" by (simp add: unsigned_take_bit_eq)
  then show "small n x" by (simp add: t small_def)
qed

lemma small_xor: "small n x \<Longrightarrow> small n y \<Longrightarrow> small n (x XOR y)"
  by (simp add: small_iff take_bit_xor)

lemma small_ucast: "n \<le> 32 \<Longrightarrow> unat x < 2 ^ n \<Longrightarrow> small n (ucast (x :: u64))"
  by (simp add: small_def unsigned_ucast_eq le_less_trans [OF take_bit_nat_less_eq_self])

definition phys :: "arm_operand \<Rightarrow> bool" where
  "phys op \<longleftrightarrow> (case op of ArmReg r \<Rightarrow> r \<noteq> XSP | _ \<Rightarrow> False)"

lemma physE: "phys op \<Longrightarrow> (\<And>r. op = ArmReg r \<Longrightarrow> r \<noteq> XSP \<Longrightarrow> P) \<Longrightarrow> P"
  by (auto simp: phys_def split: arm_operand.splits)

definition canon_size :: "data_size \<Rightarrow> data_size" where
  "canon_size sz = (if sz = SizeX then SizeX else SizeW)"


lemma encodeRegister_phys:
  assumes "phys op"
  obtains x where "encodeRegister op = Inr x" and "small 5 x" and "reg_of x = Some op" and "x \<noteq> 31"
  using assms by (auto elim!: physE intro!: that simp: reg_of_register_number register_number_ne_31)

lemmas three_operand_defs = encodeThreeOperandInst_def encodeLSL_def encodeLSR_def encodeASR_def

lemmas enc_simps = getSfBit_def canon_size_def alu_size_def disassemble_def a64_decode_def fld_simps small_fld
  with2_def with3_def Let_def

lemma enc_addsub:
  assumes "small 5 rm" "small 5 rn" "small 5 rd" "reg_of rm = Some m" "reg_of rn = Some n" "reg_of rd = Some d"
  shows "disassemble (encodeShiftedRegister 24 0b0001011 (getSfBit sz) rm rn rd) = Some (ThreeOperandInst armADD (canon_size sz) d n m)"
    and "disassemble (encodeShiftedRegister 24 0b1001011 (getSfBit sz) rm rn rd) = Some (ThreeOperandInst armSUB (canon_size sz) d n m)"
    and "disassemble (encodeShiftedRegister 24 0b1101011 (getSfBit sz) rm rn 31) = Some (TwoOperandInst armCMP (canon_size sz) n m)"
  using assms by (cases "sz = SizeX"; simp add: enc_simps encodeShiftedRegister_def)+

lemma enc_logical:
  assumes "small 5 rm" "small 5 rn" "small 5 rd" "reg_of rm = Some m" "reg_of rn = Some n" "reg_of rd = Some d" "rn \<noteq> 31"
  shows "disassemble (encodeShiftedRegister 25 0b000101 (getSfBit sz) rm rn rd) = Some (ThreeOperandInst armAND (canon_size sz) d n m)"
    and "disassemble (encodeShiftedRegister 25 0b010101 (getSfBit sz) rm rn rd) = Some (ThreeOperandInst armORR (canon_size sz) d n m)"
    and "disassemble (encodeShiftedRegister 25 0b010101 (getSfBit sz) rm 31 rd) = Some (TwoOperandInst armMOV (canon_size sz) d m)"
  using assms by (cases "sz = SizeX"; simp add: enc_simps encodeShiftedRegister_def)+


lemma enc_addsub_imm:
  assumes "small 5 rn" "small 5 rd" "reg_of rn = Some n" "reg_of rd = Some d" and i: "unat i < 2 ^ 12"
  shows "\<exists>w. encodeAddSubImmediate msg 0b00100010 (getSfBit sz) i rn rd = Inr w \<and>
      disassemble w = Some (ThreeOperandInst armADD (canon_size sz) d n (ArmImm i))"
    and "\<exists>w. encodeAddSubImmediate msg 0b10100010 (getSfBit sz) i rn rd = Inr w \<and>
      disassemble w = Some (ThreeOperandInst armSUB (canon_size sz) d n (ArmImm i))"
    and "\<exists>w. encodeAddSubImmediate msg 0b11100010 (getSfBit sz) i rn 31 = Inr w \<and>
      disassemble w = Some (TwoOperandInst armCMP (canon_size sz) n (ArmImm i))"
proof -
  have s: "small 12 (ucast i)" using i by (simp add: small_ucast)
  then have le: "\<not> (ucast i :: u32) > 0xFFF" by (simp add: small_def word_less_nat_alt)
  have u: "ucast (ucast i :: u32) = i"
    using i by (simp add: word_unat_eq_iff unsigned_ucast_eq unsigned_take_bit_eq take_bit_nat_eq_self)
  obtain x where x: "(ucast i :: u32) = x" by simp
  note enc = encodeAddSubImmediate_def le [unfolded x] x enc_simps
  show "\<exists>w. encodeAddSubImmediate msg 0b00100010 (getSfBit sz) i rn rd = Inr w \<and>
      disassemble w = Some (ThreeOperandInst armADD (canon_size sz) d n (ArmImm i))"
    and "\<exists>w. encodeAddSubImmediate msg 0b10100010 (getSfBit sz) i rn rd = Inr w \<and>
      disassemble w = Some (ThreeOperandInst armSUB (canon_size sz) d n (ArmImm i))"
    and "\<exists>w. encodeAddSubImmediate msg 0b11100010 (getSfBit sz) i rn 31 = Inr w \<and>
      disassemble w = Some (TwoOperandInst armCMP (canon_size sz) n (ArmImm i))"
    using assms(1-4) s [unfolded x] u [unfolded x] by (cases "sz = SizeX"; simp add: enc)+
qed

lemma enc_variable:
  assumes "small 5 rm" "small 5 rn" "small 5 rd" "reg_of rm = Some m" "reg_of rn = Some n" "reg_of rd = Some d"
  shows "disassemble (push_bit 31 (getSfBit sz) OR push_bit 21 0b0011011000 OR push_bit 16 rm OR push_bit 10 31 OR push_bit 5 rn OR rd) =
      Some (ThreeOperandInst armMUL (canon_size sz) d n m)"
    and "disassemble (push_bit 31 (getSfBit sz) OR push_bit 21 0b0011010110 OR push_bit 16 rm OR push_bit 10 0b001000 OR push_bit 5 rn OR rd) =
      Some (ThreeOperandInst armLSL (canon_size sz) d n m)"
    and "disassemble (push_bit 31 (getSfBit sz) OR push_bit 20 0b00110101100 OR push_bit 16 rm OR push_bit 10 0b1010 OR push_bit 5 rn OR rd) =
      Some (ThreeOperandInst armASR (canon_size sz) d n m)"
  using assms by (cases "sz = SizeX"; simp add: enc_simps)+

lemma enc_extend:
  assumes "small 5 rn" "small 5 rd" "reg_of rn = Some n" "reg_of rd = Some d"
  shows "disassemble (encodeBitfield 0b00100110 (getSfBit sz) (getSfBit sz) 0 7 rn rd) = Some (TwoOperandInst armSXTB (canon_size sz) d n)"
    and "disassemble (encodeBitfield 0b00100110 (getSfBit sz) (getSfBit sz) 0 15 rn rd) = Some (TwoOperandInst armSXTH (canon_size sz) d n)"
    and "disassemble (encodeBitfield 0b00100110 1 1 0 31 rn rd) = Some (TwoOperandInst armSXTW SizeX d n)"
    and "disassemble (0xD65F0000 OR push_bit 5 rn) = Some (TwoOperandInst armRET SizeX n n)"
  using assms by (cases "sz = SizeX"; simp add: enc_simps encodeBitfield_def)+

lemma enc_move:
  assumes "small 5 rd" "reg_of rd = Some d" and i: "unat i < 2 ^ 16"
  shows "\<exists>w. encodeMoveImmediate msg 0b10100101 (getSfBit sz) i rd = Inr w \<and>
      disassemble w = Some (MoveWideInst armMOVZ (canon_size sz) d (ucast i) 0)"
    and "\<exists>w. encodeMoveImmediate msg 0b00100101 (getSfBit sz) i rd = Inr w \<and>
      disassemble w = Some (TwoOperandInst armMOVN (canon_size sz) d (ArmImm i))"
proof -
  have s: "small 16 (ucast i)" using i by (simp add: small_ucast)
  have le: "\<not> i > 0xFFFF" using i by (simp add: word_less_nat_alt)
  have m: "i AND 0xFFFF = i"
    using i by (simp add: mask_numerals take_bit_eq_mask [symmetric] word_unat_eq_iff unsigned_take_bit_eq take_bit_nat_eq_self)
  have u1: "ucast (ucast i :: u32) = i"
    using i by (simp add: word_unat_eq_iff unsigned_ucast_eq unsigned_take_bit_eq take_bit_nat_eq_self)
  have "ucast (ucast i :: u32) = (ucast i :: u16)"
    by (rule bit_word_eqI) (auto simp: bit_simps)
  note u = u1 this
  obtain x where x: "(ucast i :: u32) = x" by simp
  note enc = encodeMoveImmediate_def le m x enc_simps
  show "\<exists>w. encodeMoveImmediate msg 0b10100101 (getSfBit sz) i rd = Inr w \<and>
      disassemble w = Some (MoveWideInst armMOVZ (canon_size sz) d (ucast i) 0)"
    and "\<exists>w. encodeMoveImmediate msg 0b00100101 (getSfBit sz) i rd = Inr w \<and>
      disassemble w = Some (TwoOperandInst armMOVN (canon_size sz) d (ArmImm i))"
    using assms(1,2) s [unfolded x] u [unfolded x] by (cases "sz = SizeX"; simp add: enc)+
qed

lemma enc_cond:
  assumes "small 5 rm" "small 5 rn" "small 5 rd" "reg_of rm = Some m" "reg_of rn = Some n" "reg_of rd = Some d"
    and "small 4 c" "cond_of c = Some cnd"
  shows "disassemble (push_bit 31 (getSfBit sz) OR push_bit 21 0b0011010100 OR push_bit 16 rm OR push_bit 12 c OR push_bit 5 rn OR rd) =
      Some (ConditionalSelectInst armCSEL (canon_size sz) d n m cnd)"
  using assms by (cases "sz = SizeX"; simp add: enc_simps)+

lemma enc_cset:
  assumes "small 5 rd" "reg_of rd = Some d" and "small 4 c" "cond_of c = Some cnd"
  shows "disassemble (push_bit 31 (getSfBit sz) OR push_bit 21 0b0011010100 OR push_bit 16 0b11111 OR push_bit 12 (c XOR 1) OR
      push_bit 10 0b01 OR push_bit 5 0b11111 OR rd) = Some (ConditionalInst armCSET (canon_size sz) d cnd)"
proof -
  have x: "small 4 (c XOR 1)" using assms(3) by (rule small_xor) (simp add: small_def)
  have "(c XOR 1) XOR 1 = c" by (simp add: xor.assoc)
  then have y: "cond_of ((c XOR 1) XOR 1) = Some cnd" using assms(4) by simp
  obtain z where z: "c XOR 1 = z" by simp
  show ?thesis using assms(1,2) x [unfolded z] y [unfolded z] unfolding z
    by (cases "sz = SizeX"; simp add: enc_simps)
qed


lemma sint_nonneg: "0 \<le> sint (w :: u32) \<Longrightarrow> sint w = int (unat w)"
proof -
  assume "0 \<le> sint w"
  then have "\<not> bit w 31" using bit_last_iff [of w] by simp
  then have "bit (sint w) n = bit (uint w) n" for n
    using bit_word_lt [of w n] by (cases "n = 31") (auto simp: bit_simps min_def)
  then have "sint w = uint w" by (rule bit_eqI)
  then show ?thesis by simp
qed

lemma scaled_offset:
  assumes "0 \<le> sint off" "sint off mod 2 ^ k = 0" "sint off < 4096 * 2 ^ k" and k: "k \<le> 3"
  shows "small 12 (signed_drop_bit k off) \<and> push_bit k (signed_drop_bit k off) = off \<and> signed_drop_bit k off \<le> 0xFFF"
proof -
  have nb: "\<not> bit off 31" using assms(1) bit_last_iff [of off] by simp
  have d: "signed_drop_bit k off = drop_bit k off"
  proof (rule bit_word_eqI)
    fix n assume "n < LENGTH(32)"
    show "bit (signed_drop_bit k off) n = bit (drop_bit k off) n"
      using nb bit_word_lt [of off "k + n"] by (cases "k + n = 31") (auto simp: bit_simps min_def)
  qed
  have u: "int (unat off) mod 2 ^ k = 0" "int (unat off) < 4096 * 2 ^ k"
    using assms sint_nonneg [OF assms(1)] by simp_all
  then have m: "unat off mod 2 ^ k = 0" and l: "unat off < 4096 * 2 ^ k"
    by (metis of_nat_eq_0_iff of_nat_mod of_nat_numeral of_nat_power)
      (metis u(2) of_nat_less_iff of_nat_mult of_nat_numeral of_nat_power)
  have "take_bit k off = 0"
    using m by (simp add: word_unat_eq_iff unsigned_take_bit_eq take_bit_eq_mod [where 'a = nat])
  then have p: "push_bit k (drop_bit k off) = off"
    using bits_ident [of k off] by simp
  have "unat (drop_bit k off) < 4096"
    using l by (simp add: unat_drop_bit_eq drop_bit_eq_div [where 'a = nat] div_less_iff_less_mult)
  then show ?thesis by (simp add: d p small_def word_le_nat_alt)
qed

lemma or_neq: "x AND NOT z \<noteq> 0 \<Longrightarrow> x OR y \<noteq> (z :: u32)"
proof
  assume n: "x AND NOT z \<noteq> 0" and e: "x OR y = z"
  have "x AND NOT (x OR y) = 0" by (rule bit_word_eqI) (auto simp: bit_simps)
  with n e show False by simp
qed

lemma or_neq_numeral:
  "(numeral a :: u32) AND NOT (numeral b) \<noteq> 0 \<Longrightarrow> numeral a OR y \<noteq> (numeral b :: u32)"
  by (rule or_neq)

lemma decode_memory:
  assumes "S \<in> {0, 1, 2, 3}" "small 12 x" "small 5 rn" "small 5 rt"
  shows "a64_decode (push_bit 30 S OR push_bit 22 0b11100101 OR push_bit 10 x OR push_bit 5 rn OR rt) = Some (LoadStoreUnsigned S 1 x rn rt)"
    and "a64_decode (push_bit 30 S OR push_bit 22 0b11100100 OR push_bit 10 x OR push_bit 5 rn OR rt) = Some (LoadStoreUnsigned S 0 x rn rt)"
  using assms by (auto simp: a64_decode_def fld_simps small_fld or_neq_numeral)

lemma memorySize_word:
  "of_nat (memorySize sz) \<in> {0, 1, 2, 3 :: u32}" "memory_size (of_nat (memorySize sz)) = sz" "unat (of_nat (memorySize sz) :: u32) = memorySize sz"
  by (cases sz; simp add: small_def memory_size_def)+

lemma enc_memory:
  assumes "small 5 rn" "small 5 rt" "reg_of rn = Some n" "reg_of rt = Some t"
    and off: "0 \<le> sint off" "sint off mod 2 ^ memorySize sz = 0" "sint off < 4096 * 2 ^ memorySize sz"
  shows "\<exists>w. encodeMemoryForms ma mb 0b11100101 ia (memorySize sz) off rn rt = Inr w \<and>
      disassemble w = Some (MemoryInst armLDR sz t n off)"
    and "\<exists>w. encodeMemoryForms ma mb 0b11100100 ia (memorySize sz) off rn rt = Inr w \<and>
      disassemble w = Some (MemoryInst armSTR sz t n off)"
proof -
  have k: "memorySize sz \<le> 3" by (cases sz) simp_all
  obtain x where x: "signed_drop_bit (memorySize sz) off = x" by simp
  from scaled_offset [OF off k] have s: "small 12 x" "push_bit (memorySize sz) x = off" "x \<le> 0xFFF"
    unfolding x by simp_all
  have e: "encodeMemoryForms ma mb pat ia (memorySize sz) off rn rt =
      Inr (push_bit 30 (of_nat (memorySize sz)) OR push_bit 22 pat OR push_bit 10 x OR push_bit 5 rn OR rt)" for pat
    using off s(3) by (simp add: encodeMemoryForms_def x Let_def)
  show "\<exists>w. encodeMemoryForms ma mb 0b11100101 ia (memorySize sz) off rn rt = Inr w \<and>
      disassemble w = Some (MemoryInst armLDR sz t n off)"
    and "\<exists>w. encodeMemoryForms ma mb 0b11100100 ia (memorySize sz) off rn rt = Inr w \<and>
      disassemble w = Some (MemoryInst armSTR sz t n off)"
    unfolding e disassemble_def
    using decode_memory [OF memorySize_word(1) s(1) assms(1,2)]
    by (simp_all only: sum.inject bind.bind_lunit a64_alias.simps ex_simps simp_thms)
      (simp_all add: memorySize_word s(2) assms(3,4) with2_def)
qed

lemma decode_movewide:
  assumes "sf \<in> {0, 1}" "small 2 hw" "small 16 imm" "small 5 rd"
  shows "a64_decode (push_bit 31 sf OR push_bit 23 0b10100101 OR push_bit 21 hw OR push_bit 5 imm OR rd) = Some (MoveWide sf 2 hw imm rd)"
    and "a64_decode (push_bit 31 sf OR push_bit 23 0b11100101 OR push_bit 21 hw OR push_bit 5 imm OR rd) = Some (MoveWide sf 3 hw imm rd)"
  using assms by (auto simp: a64_decode_def fld_simps small_fld or_neq_numeral)

lemma small_sf: "getSfBit sz \<in> {0, 1}" "alu_size (getSfBit sz) = canon_size sz"
  by (simp_all add: small_def getSfBit_def alu_size_def canon_size_def)

lemma enc_movewide:
  assumes "small 5 rd" "reg_of rd = Some d" and sh: "shift \<in> {0, 16, 32, 48 :: u8}" "sz = SizeX \<or> shift \<in> {0, 16}"
  shows "disassemble (push_bit 31 (getSfBit sz) OR push_bit 23 0b10100101 OR push_bit 21 (ucast shift div 16) OR push_bit 5 (ucast (imm :: u16)) OR rd) =
      Some (MoveWideInst armMOVZ (canon_size sz) d imm shift)"
    and "disassemble (push_bit 31 (getSfBit sz) OR push_bit 23 0b11100101 OR push_bit 21 (ucast shift div 16) OR push_bit 5 (ucast imm) OR rd) =
      Some (MoveWideInst armMOVK (canon_size sz) d imm shift)"
proof -
  have s: "small 16 (ucast imm)"
    using unsigned_less [of imm, where 'a = nat]
    by (simp add: small_def unsigned_ucast_eq le_less_trans [OF take_bit_nat_less_eq_self])
  have u: "ucast (ucast imm :: u32) = imm" by (rule bit_word_eqI) (auto simp: bit_simps)
  have h: "small 2 (ucast shift div 16)" "ucast (16 * (ucast shift div 16 :: u32)) = shift"
    "\<not> (getSfBit sz = 0 \<and> (ucast shift div 16 :: u32) > 1)"
    using sh by (auto simp: small_def getSfBit_def)
  show "disassemble (push_bit 31 (getSfBit sz) OR push_bit 23 0b10100101 OR push_bit 21 (ucast shift div 16) OR push_bit 5 (ucast imm) OR rd) =
      Some (MoveWideInst armMOVZ (canon_size sz) d imm shift)"
    and "disassemble (push_bit 31 (getSfBit sz) OR push_bit 23 0b11100101 OR push_bit 21 (ucast shift div 16) OR push_bit 5 (ucast imm) OR rd) =
      Some (MoveWideInst armMOVK (canon_size sz) d imm shift)"
    unfolding disassemble_def
    by (simp_all only: decode_movewide [OF small_sf(1) h(1) s assms(1)] bind.bind_lunit a64_alias.simps h(2,3) u small_sf(2) assms(2) if_False)
      simp_all
qed


subsection \<open>Encodable instructions\<close>

definition imm_below :: "nat \<Rightarrow> arm_operand \<Rightarrow> bool" where
  "imm_below n op \<longleftrightarrow> (case op of ArmImm i \<Rightarrow> unat i < 2 ^ n | _ \<Rightarrow> False)"

fun encodable :: "arm_instruction \<Rightarrow> bool" where
  "encodable (ThreeOperandInst opc sz d s1 s2) \<longleftrightarrow>
     phys d \<and> phys s1 \<and>
     (phys s2 \<and> opc \<in> {armADD, armSUB, armCMP, armAND, armORR, armMUL, armLSL, armASR} \<or>
      imm_below 12 s2 \<and> opc \<in> {armADD, armSUB, armCMP})"
| "encodable (TwoOperandInst opc sz d s) \<longleftrightarrow>
     phys d \<and>
     (phys s \<and> opc \<in> {armMOV, armSXTB, armSXTH, armSXTW, armRET, armCMP} \<or>
      imm_below 12 s \<and> opc = armCMP \<or> imm_below 16 s \<and> opc \<in> {armMOV, armMOVN})"
| "encodable (MemoryInst opc sz r b off) \<longleftrightarrow>
     opc \<in> {armLDR, armSTR} \<and> phys r \<and> phys b \<and>
     0 \<le> sint off \<and> sint off mod 2 ^ memorySize sz = 0 \<and> sint off < 4096 * 2 ^ memorySize sz"
| "encodable (MoveWideInst opc sz d imm16 sh) \<longleftrightarrow>
     opc \<in> {armMOVZ, armMOVK} \<and> phys d \<and> sh \<in> {0, 16, 32, 48} \<and> (sz = SizeX \<or> sh \<in> {0, 16})"
| "encodable (BranchInst opc target) \<longleftrightarrow> False"
| "encodable (ConditionalInst opc sz d c) \<longleftrightarrow> opc = armCSET \<and> phys d \<and> c \<notin> {condAL, condNV}"
| "encodable (ConditionalSelectInst opc sz d s1 s2 c) \<longleftrightarrow>
     opc = armCSEL \<and> phys d \<and> phys s1 \<and> phys s2 \<and> c \<notin> {condAL, condNV}"

fun canon :: "arm_instruction \<Rightarrow> arm_instruction" where
  "canon (ThreeOperandInst opc sz d s1 s2) =
     (if opc = armCMP then TwoOperandInst armCMP (canon_size sz) s1 s2 else ThreeOperandInst opc (canon_size sz) d s1 s2)"
| "canon (TwoOperandInst opc sz d s) =
     (if opc = armMOV \<and> isImmediate s then MoveWideInst armMOVZ (canon_size sz) d (ucast (immediateValue s)) 0
      else if opc = armSXTW then TwoOperandInst armSXTW SizeX d s
      else if opc = armRET then TwoOperandInst armRET SizeX s s
      else TwoOperandInst opc (canon_size sz) d s)"
| "canon (MoveWideInst opc sz d imm16 sh) = MoveWideInst opc (canon_size sz) d imm16 sh"
| "canon (ConditionalInst opc sz d c) = ConditionalInst opc (canon_size sz) d c"
| "canon (ConditionalSelectInst opc sz d s1 s2 c) = ConditionalSelectInst opc (canon_size sz) d s1 s2 c"
| "canon inst = inst"

lemma phys_not_immediate: "phys op \<Longrightarrow> \<not> isImmediate op"
  by (auto elim!: physE)

lemma imm_belowE: "imm_below n op \<Longrightarrow> (\<And>i. op = ArmImm i \<Longrightarrow> unat i < 2 ^ n \<Longrightarrow> P) \<Longrightarrow> P"
  by (auto simp: imm_below_def split: arm_operand.splits)

lemma encode_three:
  assumes "encodable (ThreeOperandInst opc sz d s1 s2)"
  shows "\<exists>w. encodeThreeOperandInst opc sz d s1 s2 = Inr w \<and> disassemble w = Some (canon (ThreeOperandInst opc sz d s1 s2))"
proof -
  from assms have "phys d" "phys s1" by simp_all
  then obtain rd rn where d: "encodeRegister d = Inr rd" "small 5 rd" "reg_of rd = Some d" "rd \<noteq> 31"
    and n: "encodeRegister s1 = Inr rn" "small 5 rn" "reg_of rn = Some s1" "rn \<noteq> 31"
    by (metis encodeRegister_phys)
  from assms consider "phys s2" "opc \<in> {armADD, armSUB, armCMP, armAND, armORR, armMUL, armLSL, armASR}"
    | i where "s2 = ArmImm i" "unat i < 2 ^ 12" "opc \<in> {armADD, armSUB, armCMP}"
    by (auto elim: imm_belowE)
  then show ?thesis
  proof cases
    case 1
    from 1(1) obtain rm where m: "encodeRegister s2 = Inr rm" "small 5 rm" "reg_of rm = Some s2"
      by (metis encodeRegister_phys)
    note regs = m(2) n(2) d(2) m(3) n(3) d(3)
    from 1(2) show ?thesis
      using enc_addsub [OF regs] enc_logical [OF regs n(4)] enc_variable [OF regs]
      by (auto simp: three_operand_defs d(1) n(1) m(1) phys_not_immediate [OF 1(1)] Let_def)
  next
    case (2 i)
    from 2(3) show ?thesis
      using enc_addsub_imm [OF n(2) d(2) n(3) d(3) 2(2)]
      by (auto simp: three_operand_defs d(1) n(1) 2(1))
  qed
qed

lemma encode_two:
  assumes "encodable (TwoOperandInst opc sz d s)"
  shows "\<exists>w. encodeTwoOperandInst opc sz d s = Inr w \<and> disassemble w = Some (canon (TwoOperandInst opc sz d s))"
proof -
  from assms have "phys d" by simp
  then obtain rd where d: "encodeRegister d = Inr rd" "small 5 rd" "reg_of rd = Some d" "rd \<noteq> 31"
    by (metis encodeRegister_phys)
  from assms consider "phys s" "opc \<in> {armMOV, armSXTB, armSXTH, armSXTW, armRET, armCMP}"
    | i where "s = ArmImm i" "unat i < 2 ^ 12" "opc = armCMP" | i where "s = ArmImm i" "unat i < 2 ^ 16" "opc \<in> {armMOV, armMOVN}"
    by (auto elim: imm_belowE)
  then show ?thesis
  proof cases
    case 1
    from 1(1) obtain rm where m: "encodeRegister s = Inr rm" "small 5 rm" "reg_of rm = Some s"
      by (metis encodeRegister_phys)
    note regs = m(2) d(2) d(2) m(3) d(3) d(3)
    from 1(2) show ?thesis
      using enc_addsub(3) [OF regs] enc_logical(3) [OF regs d(4)] enc_extend [OF m(2) d(2) m(3) d(3)]
      by (auto simp: encodeTwoOperandInst_def d(1) m(1) phys_not_immediate [OF 1(1)] Let_def)
  next
    case (2 i)
    then show ?thesis
      using enc_addsub_imm(3) [OF d(2) d(2) d(3) d(3) 2(2)] by (simp add: encodeTwoOperandInst_def d(1))
  next
    case (3 i)
    from 3(3) show ?thesis
      using enc_move [OF d(2,3) 3(2)] by (auto simp: encodeTwoOperandInst_def d(1) 3(1))
  qed
qed

lemma encode_rest:
  "encodable (MemoryInst opc sz r b off) \<Longrightarrow> \<exists>w. encodeMemoryInst opc sz r b off = Inr w \<and> disassemble w = Some (MemoryInst opc sz r b off)"
  "encodable (MoveWideInst opc sz d imm16 sh) \<Longrightarrow>
     \<exists>w. encodeMoveWideInst opc sz d imm16 sh = Inr w \<and> disassemble w = Some (canon (MoveWideInst opc sz d imm16 sh))"
  "encodable (ConditionalInst opc sz d c) \<Longrightarrow>
     \<exists>w. encodeConditionalInst opc sz d c = Inr w \<and> disassemble w = Some (canon (ConditionalInst opc sz d c))"
  "encodable (ConditionalSelectInst opc sz d s1 s2 c) \<Longrightarrow>
     \<exists>w. encodeConditionalSelectInst opc sz d s1 s2 c = Inr w \<and> disassemble w = Some (canon (ConditionalSelectInst opc sz d s1 s2 c))"
proof -
  assume a: "encodable (MemoryInst opc sz r b off)"
  then have "phys r" "phys b" by simp_all
  then obtain rt rn where t: "encodeRegister r = Inr rt" "small 5 rt" "reg_of rt = Some r"
    and n: "encodeRegister b = Inr rn" "small 5 rn" "reg_of rn = Some b"
    by (metis encodeRegister_phys)
  from a enc_memory [OF n(2) t(2) n(3) t(3)]
  show "\<exists>w. encodeMemoryInst opc sz r b off = Inr w \<and> disassemble w = Some (MemoryInst opc sz r b off)"
    by (auto simp: encodeMemoryInst_def t(1) n(1))
next
  assume a: "encodable (MoveWideInst opc sz d imm16 sh)"
  then obtain rd where d: "encodeRegister d = Inr rd" "small 5 rd" "reg_of rd = Some d"
    by (auto elim: encodeRegister_phys)
  from a have s: "sh \<in> {0, 16, 32, 48}" "sz = SizeX \<or> sh \<in> {0, 16}" by simp_all
  then have h: "\<not> (ucast sh div 16 :: u32) > 3" by auto
  from a enc_movewide [OF d(2,3) s]
  show "\<exists>w. encodeMoveWideInst opc sz d imm16 sh = Inr w \<and> disassemble w = Some (canon (MoveWideInst opc sz d imm16 sh))"
    using h by (auto simp: encodeMoveWideInst_def d(1) Let_def simp del: insert_iff)
next
  assume a: "encodable (ConditionalInst opc sz d c)"
  then obtain rd where d: "encodeRegister d = Inr rd" "small 5 rd" "reg_of rd = Some d"
    by (auto elim: encodeRegister_phys)
  from a enc_cset [OF d(2,3) small_condition_code cond_of_condition_code]
  show "\<exists>w. encodeConditionalInst opc sz d c = Inr w \<and> disassemble w = Some (canon (ConditionalInst opc sz d c))"
    by (auto simp: encodeConditionalInst_def d(1) Let_def)
next
  assume a: "encodable (ConditionalSelectInst opc sz d s1 s2 c)"
  then have p: "phys d" "phys s1" "phys s2" by simp_all
  then obtain rd rn rm where d: "encodeRegister d = Inr rd" "small 5 rd" "reg_of rd = Some d"
    and n: "encodeRegister s1 = Inr rn" "small 5 rn" "reg_of rn = Some s1"
    and m: "encodeRegister s2 = Inr rm" "small 5 rm" "reg_of rm = Some s2"
    by (metis encodeRegister_phys)
  from a enc_cond [OF m(2) n(2) d(2) m(3) n(3) d(3) small_condition_code cond_of_condition_code]
  show "\<exists>w. encodeConditionalSelectInst opc sz d s1 s2 c = Inr w \<and> disassemble w = Some (canon (ConditionalSelectInst opc sz d s1 s2 c))"
    by (auto simp: encodeConditionalSelectInst_def d(1) n(1) m(1) phys_not_immediate [OF p(2)] phys_not_immediate [OF p(3)] Let_def)
qed

lemma encodeWord_disassemble:
  "encodable inst \<Longrightarrow> \<exists>w. encodeWord inst = Inr w \<and> disassemble w = Some (canon inst)"
  using encode_three encode_two encode_rest by (cases inst) (auto simp del: encodable.simps canon.simps, auto)


subsection \<open>Bytes\<close>

lemma bytes_word:
  "ucast (ucast (w AND 0xFF) :: u8) OR push_bit 8 (ucast (ucast (drop_bit 8 w AND 0xFF) :: u8)) OR
   push_bit 16 (ucast (ucast (drop_bit 16 w AND 0xFF) :: u8)) OR push_bit 24 (ucast (ucast (drop_bit 24 w AND 0xFF) :: u8)) = (w :: u32)"
  unfolding mask_simps by (rule word32_eqI) (simp add: bits32 del: One_nat_def)

lemma encodeInstruction_disassemble:
  assumes "encodable inst"
  shows "\<exists>bs. encodeInstruction inst = Inr bs \<and> length bs = 4 \<and>
    (\<forall>rest. disassemble_bytes (bs @ rest) = map_option (Cons (canon inst)) (disassemble_bytes rest))"
proof -
  from encodeWord_disassemble [OF assms] obtain w where "encodeWord inst = Inr w" and "disassemble w = Some (canon inst)"
    by blast
  then show ?thesis by (simp add: encodeInstruction_def bytes_word)
qed

text \<open>
  What the translator relies on of an encoder: an instruction of the class \<open>valid\<close> becomes four bytes that a
  reader takes for its normal form \<open>norm\<close> and leaves what follows them. A sequence of instructions
  then reads back as a whole.
\<close>

locale instruction_code =
  fixes enc :: "'i \<Rightarrow> 'e + u8 list" and dec :: "u8 list \<Rightarrow> 'i list option" and valid :: "'i \<Rightarrow> bool" and norm :: "'i \<Rightarrow> 'i"
  assumes dec_Nil: "dec [] = Some []"
    and enc_dec: "valid i \<Longrightarrow> \<exists>bs. enc i = Inr bs \<and> length bs = 4 \<and> (\<forall>rest. dec (bs @ rest) = map_option (Cons (norm i)) (dec rest))"
begin

lemma encode_all:
  assumes "list_all valid is"
  shows "\<exists>bss. mapR enc is = Inr bss \<and> length (concat bss) = 4 * length is \<and> dec (concat bss) = Some (map norm is)"
  using assms
proof (induction "is")
  case Nil
  then show ?case by (simp add: dec_Nil)
next
  case (Cons i "is")
  then obtain bss where "mapR enc is = Inr bss" "length (concat bss) = 4 * length is" "dec (concat bss) = Some (map norm is)"
    by auto
  with enc_dec [of i] Cons.prems show ?case by auto
qed

lemma encode_one: "valid i \<Longrightarrow> \<exists>bs. enc i = Inr bs \<and> length bs = 4 \<and> dec bs = Some [norm i]"
  using enc_dec [of i] by (metis append_Nil2 dec_Nil option.map(2))

end

interpretation a64: instruction_code encodeInstruction disassemble_bytes encodable canon
  by unfold_locales (simp_all add: encodeInstruction_disassemble)

subsection \<open>The encoder theorems\<close>

text \<open>
  C8: every encodable instruction is encoded to four bytes, and the little-endian word they form
  is, by the tables of the A64 manual, that instruction.
\<close>

theorem encodeInstruction_roundtrip:
  assumes "encodable inst"
  shows "\<exists>bs. encodeInstruction inst = Inr bs \<and> length bs = 4 \<and> disassemble_bytes bs = Some [canon inst]"
  using assms by (rule a64.encode_one)

theorem encodeInstruction_roundtrip_witness:
  "\<exists>bs. encodeInstruction (MemoryInst armLDR SizeX (ArmReg X5) (ArmReg X0) 280) = Inr bs \<and> length bs = 4 \<and>
     disassemble_bytes bs = Some [MemoryInst armLDR SizeX (ArmReg X5) (ArmReg X0) 280]"
proof -
  have "encodable (MemoryInst armLDR SizeX (ArmReg X5) (ArmReg X0) 280)" by (simp add: phys_def)
  from encodeInstruction_roundtrip [OF this] show ?thesis by simp
qed

text \<open>
  C35: EOR is encoded as ANDS: for general registers the word the encoder returns has the logical
  class with \<open>opc\<close> 3, which the manual assigns to ANDS (EOR is \<open>opc\<close> 2), so a guest XOR is executed
  as an AND that sets the flags.
\<close>

theorem eor_encoded_as_ands:
  assumes "d \<noteq> XSP" and "n \<noteq> XSP" and "m \<noteq> XSP"
  shows "\<exists>w. encodeWord (ThreeOperandInst armEOR sz (ArmReg d) (ArmReg n) (ArmReg m)) = Inr w \<and>
    a64_decode w = Some (LogicalShifted (getSfBit sz) 3 0 0 (register_number m) 0 (register_number n) (register_number d)) \<and>
    disassemble w \<noteq> Some (canon (ThreeOperandInst armEOR sz (ArmReg d) (ArmReg n) (ArmReg m)))"
proof -
  have a: "a64_decode (encodeShiftedRegister 25 0b110101 (getSfBit sz) rm rn rd) = Some (LogicalShifted (getSfBit sz) 3 0 0 rm 0 rn rd)"
    if "small 5 rm" "small 5 rn" "small 5 rd" for rm rn rd
    using that by (cases "sz = SizeX"; simp add: enc_simps encodeShiftedRegister_def)
  show ?thesis
    using assms a [of "register_number m" "register_number n" "register_number d"]
    by (simp add: three_operand_defs Let_def disassemble_def)
qed

theorem eor_encoded_as_ands_witness:
  "\<exists>w. encodeWord (ThreeOperandInst armEOR SizeX (ArmReg X1) (ArmReg X2) (ArmReg X3)) = Inr w \<and>
     a64_decode w = Some (LogicalShifted 1 3 0 0 3 0 2 1)"
  using eor_encoded_as_ands [of X1 X2 X3 SizeX] by (auto simp: getSfBit_def)

text \<open>
  C36: the register form of LSR is encoded as a word of the two-source class with \<open>opcode\<close> 000110,
  which is not allocated to a shift (LSRV is 001001): a guest SRL or SRLI is not executed.
\<close>

theorem lsr_encoded_as_unallocated:
  assumes "d \<noteq> XSP" and "n \<noteq> XSP" and "m \<noteq> XSP"
  shows "\<exists>w. encodeWord (ThreeOperandInst armLSR sz (ArmReg d) (ArmReg n) (ArmReg m)) = Inr w \<and>
    a64_decode w = Some (DataProc2 (getSfBit sz) (register_number m) 0b000110 (register_number n) (register_number d)) \<and>
    disassemble w = None"
proof -
  have a: "a64_decode (push_bit 31 (getSfBit sz) OR push_bit 20 0b00110101100 OR push_bit 16 rm OR push_bit 10 0b0110 OR push_bit 5 rn OR rd) =
      Some (DataProc2 (getSfBit sz) rm 0b000110 rn rd)"
    if "small 5 rm" "small 5 rn" "small 5 rd" for rm rn rd
    using that by (cases "sz = SizeX"; simp add: enc_simps)
  show ?thesis
    using assms a [of "register_number m" "register_number n" "register_number d"]
    by (simp add: three_operand_defs Let_def disassemble_def)
qed

theorem lsr_encoded_as_unallocated_witness:
  "\<exists>w. encodeWord (ThreeOperandInst armLSR SizeX (ArmReg X1) (ArmReg X2) (ArmReg X3)) = Inr w \<and> disassemble w = None"
  using lsr_encoded_as_unallocated [of X1 X2 X3 SizeX] by auto

text \<open>
  C37: LDR with a negative offset of at least -256 is encoded with \<open>opc\<close> 0 and index mode 3, which
  the manual reads as the pre-indexed store, not as a load.
\<close>

theorem ldr_negative_offset_is_store:
  assumes "t \<noteq> XSP" and "n \<noteq> XSP" and "sint off < 0" and "- 256 \<le> sint off"
  shows "\<exists>w. encodeWord (MemoryInst armLDR SizeX (ArmReg t) (ArmReg n) off) = Inr w \<and>
    a64_decode w = Some (LoadStoreImm9 3 0 (off AND 0x1FF) 3 (register_number n) (register_number t))"
proof -
  have a: "a64_decode (push_bit 30 3 OR push_bit 22 0b11100000 OR push_bit 12 x OR push_bit 10 0b11 OR push_bit 5 rn OR rt) =
      Some (LoadStoreImm9 3 0 x 3 rn rt)" if "small 9 x" "small 5 rn" "small 5 rt" for x rn rt
    using that by (simp add: a64_decode_def fld_simps small_fld or_neq_numeral)
  have "small 9 (off AND 0x1FF)" by (simp add: small_iff mask_numerals take_bit_eq_mask [symmetric])
  from a [OF this small_register_number small_register_number, of n t] assms show ?thesis
    by (simp add: encodeMemoryInst_def encodeMemoryForms_def)
qed

theorem ldr_negative_offset_is_store_witness:
  "\<exists>w. encodeWord (MemoryInst armLDR SizeX (ArmReg X1) (ArmReg X2) (- 8)) = Inr w \<and>
     a64_decode w = Some (LoadStoreImm9 3 0 0x1F8 3 2 1)"
  using ldr_negative_offset_is_store [of X1 X2 "- 8"] by auto

end
