(* ===== verification/Memory.thy ===== *)
theory Memory
  imports Prelude
begin

text \<open>
  Byte-addressed memory with little-endian accesses, the memory model under the guest, the IR and
  the host. Addresses wrap at 64 bits. The locale \<open>memory\<close> is the interface the semantics rely on
  (what a load returns after a store); \<open>load_le\<close> and \<open>store_le\<close> implement it.
\<close>

type_synonym mem = "u64 \<Rightarrow> u8"

fun load_le :: "nat \<Rightarrow> mem \<Rightarrow> u64 \<Rightarrow> u64" where
  "load_le 0 m a = 0"
| "load_le (Suc n) m a = ucast (m a) OR push_bit 8 (load_le n m (a + 1))"

fun store_le :: "nat \<Rightarrow> u64 \<Rightarrow> u64 \<Rightarrow> mem \<Rightarrow> mem" where
  "store_le 0 v a m = m"
| "store_le (Suc n) v a m = (store_le n (drop_bit 8 v) (a + 1) m)(a := ucast v)"

definition region :: "u64 \<Rightarrow> nat \<Rightarrow> u64 set" where
  "region a n = (\<lambda>i. a + of_nat i) ` {..<n}"

text \<open>The slot of the \<open>i\<close>-th 64-bit member of a structure at address \<open>g\<close>.\<close>

definition slot :: "u64 \<Rightarrow> nat \<Rightarrow> u64" where
  "slot g i = g + 8 * of_nat i"

subsection \<open>The interface\<close>

locale memory =
  fixes load :: "nat \<Rightarrow> 'm \<Rightarrow> u64 \<Rightarrow> u64"
    and store :: "nat \<Rightarrow> u64 \<Rightarrow> u64 \<Rightarrow> 'm \<Rightarrow> 'm"
  assumes load_store: "n \<le> 8 \<Longrightarrow> load n (store n v a m) a = take_bit (8 * n) v"
    and load_frame: "region a n \<inter> region b k = {} \<Longrightarrow> load k (store n v a m) b = load k m b"
begin

lemma load_store_word: "load 8 (store 8 v a m) a = v"
  by (simp add: load_store take_bit_word_eq_self)

lemma load_slot:
  assumes "region (slot g i) 8 \<inter> region (slot g j) 8 = {} \<or> i = j"
  shows "load 8 (store 8 v (slot g i) m) (slot g j) = (if i = j then v else load 8 m (slot g j))"
  using assms by (auto simp: load_store_word load_frame)

end

subsection \<open>Regions\<close>

lemma region_iff: "x \<in> region a n \<longleftrightarrow> (\<exists>i < n. x = a + of_nat i)"
  by (auto simp: region_def)

lemma region_iff_offset: "n \<le> 2 ^ 64 \<Longrightarrow> x \<in> region a n \<longleftrightarrow> unat (x - a) < n"
proof
  assume n: "n \<le> 2 ^ 64" and "x \<in> region a n"
  then obtain i where "i < n" "x = a + of_nat i" by (auto simp: region_iff)
  with n show "unat (x - a) < n"
    by (simp add: unat_of_nat_small)
next
  assume "unat (x - a) < n"
  moreover have "x = a + of_nat (unat (x - a))" by simp
  ultimately show "x \<in> region a n" unfolding region_iff by blast
qed

lemma region_0 [simp]: "region a 0 = {}"
  by (simp add: region_def)

lemma region_Suc: "region a (Suc n) = insert a (region (a + 1) n)"
proof -
  have "region a (Suc n) = (\<lambda>i. a + of_nat i) ` (insert 0 (Suc ` {..<n}))"
    by (simp add: region_def lessThan_Suc_eq_insert_0)
  also have "\<dots> = insert a (region (a + 1) n)"
    by (simp add: region_def image_image add.assoc)
  finally show ?thesis .
qed

lemma region_mono: "n \<le> k \<Longrightarrow> region a n \<subseteq> region a k"
  by (auto simp: region_def)

lemma region_shift: "x \<in> region a n \<longleftrightarrow> x + d \<in> region (a + d) n"
  by (auto simp: region_iff add.commute add.left_commute)

lemma region_slot: "region (slot g i) 8 \<subseteq> region g (8 * Suc i)"
  unfolding region_def slot_def by (force intro: image_eqI [where x = "8 * i + _"])

lemma region_slot_disjoint:
  assumes "i \<noteq> j" and "i < 2 ^ 61" and "j < 2 ^ 61"
  shows "region (slot g i) 8 \<inter> region (slot g j) 8 = {}"
proof -
  have False if "k < 8" "l < 8" and e: "slot g i + of_nat k = slot g j + of_nat l" for k l
  proof -
    from e have "(of_nat (8 * i + k) :: u64) = of_nat (8 * j + l)"
      by (simp add: slot_def)
    then have "8 * i + k = 8 * j + l"
      by (rule of_nat_word_inj) (use that assms in auto)
    with that assms(1) show False by arith
  qed
  then show ?thesis by (auto simp: region_iff)
qed

subsection \<open>Little-endian accesses\<close>

lemma store_le_other: "x \<notin> region a n \<Longrightarrow> store_le n v a m x = m x"
  by (induction n arbitrary: v a) (auto simp: region_Suc)

lemma load_le_cong: "(\<And>x. x \<in> region a n \<Longrightarrow> m x = m' x) \<Longrightarrow> load_le n m a = load_le n m' a"
  by (induction n arbitrary: a) (auto simp: region_Suc)

lemma load_le_frame: "region a n \<inter> region b k = {} \<Longrightarrow> load_le k (store_le n v a m) b = load_le k m b"
  by (rule load_le_cong) (metis store_le_other disjoint_iff)

lemma load_le_store_le: "n \<le> 8 \<Longrightarrow> load_le n (store_le n v a m) a = take_bit (8 * n) v"
proof (induction n arbitrary: v a)
  case 0
  then show ?case by simp
next
  case (Suc n)
  have na: "a \<notin> region (a + 1) n"
  proof
    assume "a \<in> region (a + 1) n"
    then obtain i where i: "i < n" "a = a + 1 + of_nat i" by (auto simp: region_iff)
    then have "(of_nat (Suc i) :: u64) = of_nat 0" by (simp add: add.assoc)
    then have "Suc i = 0" by (rule of_nat_word_inj) (use i(1) Suc.prems in auto)
    then show False by simp
  qed
  have "load_le n (store_le (Suc n) v a m) (a + 1) = load_le n (store_le n (drop_bit 8 v) (a + 1) m) (a + 1)"
    by (rule load_le_cong) (use na in auto)
  also have "\<dots> = take_bit (8 * n) (drop_bit 8 v)"
    using Suc by simp
  finally have "load_le (Suc n) (store_le (Suc n) v a m) a =
      ucast (ucast v :: u8) OR push_bit 8 (take_bit (8 * n) (drop_bit 8 v))"
    by simp
  also have "\<dots> = take_bit (8 * Suc n) v"
    by (rule word_bitsI) (auto simp: bit_simps)
  finally show ?case .
qed

interpretation le: memory load_le store_le
  by unfold_locales (simp_all add: load_le_store_le load_le_frame)

lemma bit_load_le: "bit (load_le n m a) k \<Longrightarrow> k < 8 * n"
proof (induction n arbitrary: a k)
  case 0
  then show ?case by simp
next
  case (Suc n)
  then consider "k < 8" | "8 \<le> k" and "bit (load_le n m (a + 1)) (k - 8)"
    by (auto simp: bit_simps dest: bit_word_lt)
  then show ?case
    by cases (use Suc.IH [of "a + 1" "k - 8"] in auto)
qed

lemma load_le_canonical: "take_bit (8 * n) (load_le n m a) = load_le n m a"
  by (rule bit_eqI) (auto simp: bit_simps dest: bit_load_le)

lemma store_le_take_bit: "8 * n \<le> k \<Longrightarrow> store_le n (take_bit k v) a m = store_le n v a m"
proof (induction n arbitrary: k v a)
  case 0
  then show ?case by simp
next
  case (Suc n)
  have "drop_bit 8 (take_bit k v) = take_bit (k - 8) (drop_bit 8 v)"
    by (rule bit_word_eqI) (auto simp: bit_simps)
  moreover have "(ucast (take_bit k v) :: u8) = ucast v"
    using Suc.prems by (intro bit_word_eqI) (auto simp: bit_simps)
  ultimately show ?case using Suc by simp
qed

text \<open>Two memories that agree on what they read still agree after the same store.\<close>

lemma store_le_agree:
  assumes "\<And>x. x \<in> A \<Longrightarrow> m (x + d) = m' x"
  shows "x \<in> A \<Longrightarrow> store_le n v (a + d) m (x + d) = store_le n v a m' x"
proof (induction n arbitrary: v a)
  case 0
  then show ?case using assms by simp
next
  case (Suc n)
  have "store_le n (drop_bit 8 v) (a + d + 1) m (x + d) = store_le n (drop_bit 8 v) (a + 1) m' x"
    using Suc.IH [of "drop_bit 8 v" "a + 1"] Suc.prems by (simp add: algebra_simps)
  then show ?case by simp
qed

lemma load_le_agree:
  assumes "\<And>x. x \<in> region a n \<Longrightarrow> m (x + d) = m' x"
  shows "load_le n m (a + d) = load_le n m' a"
  using assms
proof (induction n arbitrary: a)
  case 0
  then show ?case by simp
next
  case (Suc n)
  have "load_le n m (a + 1 + d) = load_le n m' (a + 1)"
    using Suc by (simp add: region_Suc)
  moreover have "m (a + d) = m' a"
    using Suc.prems by (simp add: region_Suc)
  ultimately show ?case by (simp add: algebra_simps)
qed

end
