(* ===== verification/GuestState.thy ===== *)
theory GuestState
  imports Errors Memory
begin

text \<open>
  \<open>lib/GuestState.h\<close>: the guest processor state the translated code works on, and its layout in
  host memory under the LP64 data model (every member is eight bytes wide and aligned, so the
  members lie at consecutive multiples of eight).
\<close>

record guest_state =
  gs_x :: "u64 list"
  gs_pc :: u64
  gs_shadowMemory :: u64
  gs_shadowMemorySize :: u64
  gs_guestMemoryBase :: u64

definition GuestState_init :: guest_state where
  "GuestState_init =
     \<lparr> gs_x = replicate 32 0, gs_pc = 0, gs_shadowMemory = 0, gs_shadowMemorySize = 0, gs_guestMemoryBase = 0 \<rparr>"

definition writeRegister :: "u8 \<Rightarrow> u64 \<Rightarrow> guest_state \<Rightarrow> guest_state" where
  "writeRegister reg v gs =
     (if reg \<ge> 32 \<or> reg = 0 then gs else gs\<lparr> gs_x := (gs_x gs)[unat reg := v] \<rparr>)"

text \<open>The members in memory order, and the offsets \<open>offsetof\<close> gives.\<close>

definition guest_members :: "guest_state \<Rightarrow> u64 list" where
  "guest_members gs = gs_x gs @ [gs_pc gs, gs_shadowMemory gs, gs_shadowMemorySize gs, gs_guestMemoryBase gs]"

definition offset_x :: "nat \<Rightarrow> nat" where
  "offset_x r = 8 * r"

definition offset_pc :: nat where "offset_pc = 256"

definition offset_shadowMemory :: nat where "offset_shadowMemory = 264"

definition offset_shadowMemorySize :: nat where "offset_shadowMemorySize = 272"

definition offset_guestMemoryBase :: nat where "offset_guestMemoryBase = 280"

definition sizeof_GuestState :: nat where "sizeof_GuestState = 288"

definition wf_guest :: "guest_state \<Rightarrow> bool" where
  "wf_guest gs \<longleftrightarrow> length (gs_x gs) = 32"

text \<open>A guest register as the RISC-V semantics reads it, by number.\<close>

definition guest_reg :: "guest_state \<Rightarrow> u32 \<Rightarrow> u64" where
  "guest_reg gs r = (if unat r < length (gs_x gs) then gs_x gs ! unat r else 0)"

subsection \<open>The register file\<close>

lemma wf_GuestState_init [simp]: "wf_guest GuestState_init"
  by (simp add: wf_guest_def GuestState_init_def)

lemma wf_writeRegister [simp]: "wf_guest gs \<Longrightarrow> wf_guest (writeRegister r v gs)"
  by (simp add: wf_guest_def writeRegister_def)

lemma writeRegister_zero [simp]: "writeRegister 0 v gs = gs"
  by (simp add: writeRegister_def)

lemma guest_reg_writeRegister:
  assumes "wf_guest gs" and "r < 32"
  shows "guest_reg (writeRegister q v gs) r = (if ucast q = r \<and> r \<noteq> 0 then v else guest_reg gs r)"
proof -
  have "unat (ucast q :: u32) = unat q"
    using unsigned_less [of q, where 'a = nat] by (simp add: unsigned_ucast_eq take_bit_nat_eq_self)
  then have q: "unat q = unat r \<longleftrightarrow> ucast q = r"
    by (simp add: word_unat_eq_iff)
  have z: "unat r = 0 \<longleftrightarrow> r = 0" by (simp add: unat_eq_0)
  show ?thesis
    using assms q z
    by (simp add: guest_reg_def writeRegister_def wf_guest_def nth_list_update word_less_nat_alt word_le_nat_alt
        unat_eq_0 [symmetric] del: unat_eq_0) auto
qed

text \<open>Where the members lie: the \<open>i\<close>-th member is the \<open>i\<close>-th eight-byte slot of the structure.\<close>

lemma guest_members_nth:
  assumes "wf_guest gs"
  shows "r < 32 \<Longrightarrow> guest_members gs ! (offset_x r div 8) = gs_x gs ! r"
    and "guest_members gs ! (offset_pc div 8) = gs_pc gs"
    and "guest_members gs ! (offset_shadowMemory div 8) = gs_shadowMemory gs"
    and "guest_members gs ! (offset_shadowMemorySize div 8) = gs_shadowMemorySize gs"
    and "guest_members gs ! (offset_guestMemoryBase div 8) = gs_guestMemoryBase gs"
    and "8 * length (guest_members gs) = sizeof_GuestState"
  using assms
  by (simp_all add: wf_guest_def guest_members_def offset_x_def offset_pc_def offset_shadowMemory_def
    offset_shadowMemorySize_def offset_guestMemoryBase_def sizeof_GuestState_def nth_append)

end
