(* ===== verification/ExecutionEngine.thy ===== *)
theory ExecutionEngine
  imports GuestState
begin

text \<open>
  \<open>lib/ExecutionEngine.cpp\<close>: running a translated block. The operating system and the processor are
  parameters: \<open>os_mmap\<close> gives the address of a fresh mapping (\<open>None\<close> for \<open>MAP_FAILED\<close>),
  \<open>os_mprotect\<close> whether the protection could be changed, and \<open>cpu entry arg m\<close> is the call of the
  code at \<open>entry\<close> with the argument \<open>arg\<close> in memory \<open>m\<close>: the returned value and the memory after it,
  or \<open>None\<close> when the call does not come back. The page protection is no argument of \<open>cpu\<close>: it is called only
  where \<open>os_mprotect\<close> has made the mapping executable. What the theorems assume of them is stated there.
\<close>

record host =
  os_pagesize :: nat
  os_mmap :: "nat \<Rightarrow> mem \<Rightarrow> u64 option"
  os_mprotect :: "u64 \<Rightarrow> nat \<Rightarrow> bool"
  cpu :: "u64 \<Rightarrow> u64 \<Rightarrow> mem \<Rightarrow> (u64 \<times> mem) option"

text \<open>\<open>std::memcpy\<close> of a byte vector to an address.\<close>

fun memcpy :: "u64 \<Rightarrow> u8 list \<Rightarrow> mem \<Rightarrow> mem" where
  "memcpy a [] m = m"
| "memcpy a (b # bs) m = memcpy (a + 1) bs (m(a := b))"

definition executeMachineCode :: "host \<Rightarrow> u8 list \<Rightarrow> u64 \<Rightarrow> mem \<Rightarrow> (u64 \<times> mem) result" where
  "executeMachineCode h machineCode guestState m =
     (let pageSize = os_pagesize h;
          allocSize = (length machineCode + pageSize - 1) div pageSize * pageSize
      in case os_mmap h allocSize m of
           None \<Rightarrow> Inl (RuntimeError ''ExecutionEngine: mmap failed'')
         | Some mapped \<Rightarrow>
             (let m = memcpy mapped machineCode m
              in if \<not> os_mprotect h mapped allocSize
                 then Inl (RuntimeError ''ExecutionEngine: Failed to set execute permissions'')
                 else (case cpu h mapped guestState m of
                         None \<Rightarrow> Inl HostTrap
                       | Some (nextPC, m) \<Rightarrow> Inr (nextPC, m))))"

subsection \<open>The guest state in host memory\<close>

fun store_words :: "u64 \<Rightarrow> u64 list \<Rightarrow> mem \<Rightarrow> mem" where
  "store_words a [] m = m"
| "store_words a (w # ws) m = store_words (a + 8) ws (store_le 8 w a m)"

definition load_words :: "u64 \<Rightarrow> nat \<Rightarrow> mem \<Rightarrow> u64 list" where
  "load_words a n m = map (\<lambda>i. load_le 8 m (slot a i)) [0..<n]"

text \<open>
  The object \<open>guestState\<close> at address \<open>g\<close>: its members as the C++ code reads them after the
  translated code has run, and its bytes before.
\<close>

definition write_guest :: "u64 \<Rightarrow> guest_state \<Rightarrow> mem \<Rightarrow> mem" where
  "write_guest g gs m = store_words g (guest_members gs) m"

definition read_guest :: "u64 \<Rightarrow> mem \<Rightarrow> guest_state" where
  "read_guest g m =
     \<lparr> gs_x = load_words g 32 m,
       gs_pc = load_le 8 m (g + of_nat offset_pc),
       gs_shadowMemory = load_le 8 m (g + of_nat offset_shadowMemory),
       gs_shadowMemorySize = load_le 8 m (g + of_nat offset_shadowMemorySize),
       gs_guestMemoryBase = load_le 8 m (g + of_nat offset_guestMemoryBase) \<rparr>"

subsection \<open>Facts\<close>

lemma memcpy_other: "x \<notin> region a (length bs) \<Longrightarrow> memcpy a bs m x = m x"
  by (induction bs arbitrary: a m) (auto simp: region_Suc)

lemma wf_read_guest [simp]: "wf_guest (read_guest g m)"
  by (simp add: wf_guest_def read_guest_def load_words_def)

lemma slot_0 [simp]: "slot g 0 = g"
  by (simp add: slot_def)

lemma slot_Suc: "slot g (Suc i) = slot (g + 8) i"
  by (simp add: slot_def algebra_simps)

lemma store_words_other:
  "(\<And>i. i < length ws \<Longrightarrow> region (slot a i) 8 \<inter> region b n = {}) \<Longrightarrow> load_le n (store_words a ws m) b = load_le n m b"
proof (induction ws arbitrary: a m)
  case Nil
  then show ?case by simp
next
  case (Cons w ws)
  have "load_le n (store_words (a + 8) ws (store_le 8 w a m)) b = load_le n (store_le 8 w a m) b"
    by (rule Cons.IH) (use Cons.prems [of "Suc _"] in \<open>simp add: slot_Suc\<close>)
  also have "\<dots> = load_le n m b"
    by (rule le.load_frame) (use Cons.prems [of 0] in simp)
  finally show ?case by simp
qed

lemma load_store_words:
  assumes "length ws < 2 ^ 61" and "i < length ws"
  shows "load_le 8 (store_words a ws m) (slot a i) = ws ! i"
  using assms
proof (induction ws arbitrary: a m i)
  case Nil
  then show ?case by simp
next
  case (Cons w ws)
  show ?case
  proof (cases i)
    case 0
    have "load_le 8 (store_words (a + 8) ws (store_le 8 w a m)) a = load_le 8 (store_le 8 w a m) a"
    proof (rule store_words_other)
      fix j assume "j < length ws"
      then show "region (slot (a + 8) j) 8 \<inter> region a 8 = {}"
        using region_slot_disjoint [of "Suc j" 0 a] Cons.prems(1) by (simp add: slot_Suc)
    qed
    with 0 show ?thesis by (simp add: le.load_store_word)
  next
    case (Suc j)
    with Cons.IH [of j "a + 8" "store_le 8 w a m"] Cons.prems show ?thesis by (simp add: slot_Suc)
  qed
qed

lemma slot_numerals:
  "g + of_nat offset_pc = slot g 32" "g + of_nat offset_shadowMemory = slot g 33"
  "g + of_nat offset_shadowMemorySize = slot g 34" "g + of_nat offset_guestMemoryBase = slot g 35"
  by (simp_all add: slot_def offset_pc_def offset_shadowMemory_def offset_shadowMemorySize_def offset_guestMemoryBase_def)

end
