(* ===== verification/Arm64Semantics.thy ===== *)
theory Arm64Semantics
  imports Arm64 Memory
begin

text \<open>
  The effect of the ARM64 instructions, as the Arm Architecture Reference Manual describes them. It
  is a specification, not a model of code under \<open>src/\<close>. One function serves the code before and
  after register allocation: a register file gives a value to every register operand, physical or
  virtual. An operation below 64 bits works on the low 32 bits and clears the others; the memory
  accesses also exist for bytes and halfwords. \<open>arm_exec1\<close> is \<open>None\<close> on an access that \<open>ok\<close> does not
  allow, on SP as an operand, and on instructions outside what the program selects (branches,
  division, malformed operands).
\<close>

record flags =
  flag_n :: bool
  flag_z :: bool
  flag_c :: bool
  flag_v :: bool

record arm_state =
  arm_rf :: "arm_operand \<Rightarrow> u64"
  arm_flags :: flags
  arm_mem :: mem

definition op_width :: "data_size \<Rightarrow> nat" where
  "op_width sz = (if sz = SizeX then 64 else 32)"

fun access_bytes :: "data_size \<Rightarrow> nat" where
  "access_bytes SizeB = 1"
| "access_bytes SizeH = 2"
| "access_bytes SizeW = 4"
| "access_bytes SizeX = 8"

subsection \<open>Operands\<close>

fun is_register :: "arm_operand \<Rightarrow> bool" where
  "is_register (ArmReg r) \<longleftrightarrow> r \<noteq> XSP"
| "is_register (ArmVReg v) \<longleftrightarrow> True"
| "is_register (ArmImm i) \<longleftrightarrow> False"

fun arm_value :: "arm_operand \<Rightarrow> arm_state \<Rightarrow> u64 option" where
  "arm_value (ArmImm i) s = Some i"
| "arm_value op s = (if is_register op then Some (arm_rf s op) else None)"

definition arm_set :: "arm_operand \<Rightarrow> u64 \<Rightarrow> arm_state \<Rightarrow> arm_state option" where
  "arm_set op v s = (if is_register op then Some (s\<lparr>arm_rf := (arm_rf s)(op := v)\<rparr>) else None)"

subsection \<open>Operations\<close>

definition arm_alu :: "arm_opcode \<Rightarrow> nat \<Rightarrow> u64 \<Rightarrow> u64 \<Rightarrow> u64 option" where
  "arm_alu opc w a b =
     (let sh = unat b mod w
      in map_option (take_bit w)
        (case opc of
           armADD \<Rightarrow> Some (a + b)
         | armSUB \<Rightarrow> Some (a - b)
         | armMUL \<Rightarrow> Some (a * b)
         | armAND \<Rightarrow> Some (a AND b)
         | armORR \<Rightarrow> Some (a OR b)
         | armEOR \<Rightarrow> Some (a XOR b)
         | armLSL \<Rightarrow> Some (push_bit sh a)
         | armLSR \<Rightarrow> Some (drop_bit sh (take_bit w a))
         | armASR \<Rightarrow> Some (signed_drop_bit sh (signed_take_bit (w - 1) a))
         | _ \<Rightarrow> None))"

definition arm_move :: "arm_opcode \<Rightarrow> nat \<Rightarrow> u64 \<Rightarrow> u64 option" where
  "arm_move opc w a =
     map_option (take_bit w)
       (case opc of
          armMOV \<Rightarrow> Some a
        | armMOVN \<Rightarrow> Some (NOT a)
        | armSXTB \<Rightarrow> Some (signed_take_bit 7 a)
        | armSXTH \<Rightarrow> Some (signed_take_bit 15 a)
        | armSXTW \<Rightarrow> Some (signed_take_bit 31 a)
        | armUXTB \<Rightarrow> Some (take_bit 8 a)
        | armUXTH \<Rightarrow> Some (take_bit 16 a)
        | _ \<Rightarrow> None)"

definition signed_at :: "nat \<Rightarrow> u64 \<Rightarrow> int" where
  "signed_at w a = sint (signed_take_bit (w - 1) a)"

text \<open>The flags of \<open>a - b\<close>: the carry is the absence of a borrow, the overflow flag says that the
  signed result does not fit.\<close>

definition compare_flags :: "nat \<Rightarrow> u64 \<Rightarrow> u64 \<Rightarrow> flags" where
  "compare_flags w a b =
     \<lparr> flag_n = signed_at w (a - b) < 0,
       flag_z = take_bit w (a - b) = 0,
       flag_c = take_bit w b \<le> take_bit w a,
       flag_v = signed_at w (a - b) \<noteq> signed_at w a - signed_at w b \<rparr>"

fun condition_holds :: "condition \<Rightarrow> flags \<Rightarrow> bool" where
  "condition_holds condEQ f \<longleftrightarrow> flag_z f"
| "condition_holds condNE f \<longleftrightarrow> \<not> flag_z f"
| "condition_holds condCS f \<longleftrightarrow> flag_c f"
| "condition_holds condCC f \<longleftrightarrow> \<not> flag_c f"
| "condition_holds condMI f \<longleftrightarrow> flag_n f"
| "condition_holds condPL f \<longleftrightarrow> \<not> flag_n f"
| "condition_holds condVS f \<longleftrightarrow> flag_v f"
| "condition_holds condVC f \<longleftrightarrow> \<not> flag_v f"
| "condition_holds condHI f \<longleftrightarrow> flag_c f \<and> \<not> flag_z f"
| "condition_holds condLS f \<longleftrightarrow> \<not> (flag_c f \<and> \<not> flag_z f)"
| "condition_holds condGE f \<longleftrightarrow> flag_n f = flag_v f"
| "condition_holds condLT f \<longleftrightarrow> flag_n f \<noteq> flag_v f"
| "condition_holds condGT f \<longleftrightarrow> \<not> flag_z f \<and> flag_n f = flag_v f"
| "condition_holds condLE f \<longleftrightarrow> \<not> (\<not> flag_z f \<and> flag_n f = flag_v f)"
| "condition_holds condAL f \<longleftrightarrow> True"
| "condition_holds condNV f \<longleftrightarrow> True"

definition wide_shift :: "data_size \<Rightarrow> u8 \<Rightarrow> bool" where
  "wide_shift sz sh \<longleftrightarrow> sh \<in> {0, 16} \<or> sz = SizeX \<and> sh \<in> {32, 48}"

definition keep_chunk :: "u64 \<Rightarrow> u16 \<Rightarrow> nat \<Rightarrow> u64" where
  "keep_chunk old imm k = (old AND NOT (push_bit k (mask 16))) OR push_bit k (ucast imm)"

subsection \<open>One instruction\<close>

fun arm_exec1 :: "(u64 \<Rightarrow> nat \<Rightarrow> bool) \<Rightarrow> arm_instruction \<Rightarrow> arm_state \<Rightarrow> arm_state option" where
  "arm_exec1 ok (ThreeOperandInst opc sz d s1 s2) s =
     Option.bind (arm_value s1 s) (\<lambda>a. Option.bind (arm_value s2 s) (\<lambda>b.
       if opc = armCMP then Some (s\<lparr>arm_flags := compare_flags (op_width sz) a b\<rparr>)
       else Option.bind (arm_alu opc (op_width sz) a b) (\<lambda>v. arm_set d v s)))"
| "arm_exec1 ok (TwoOperandInst opc sz d s2) s =
     Option.bind (arm_value s2 s) (\<lambda>b.
       if opc = armCMP then
         Option.bind (arm_value d s) (\<lambda>a. Some (s\<lparr>arm_flags := compare_flags (op_width sz) a b\<rparr>))
       else Option.bind (arm_move opc (if opc = armSXTW then 64 else op_width sz) b) (\<lambda>v. arm_set d v s))"
| "arm_exec1 ok (MemoryInst opc sz r b off) s =
     Option.bind (arm_value b s) (\<lambda>base.
       let addr = base + scast off; n = access_bytes sz
       in if \<not> ok addr n then None
          else if opc = armLDR then arm_set r (load_le n (arm_mem s) addr) s
          else if opc = armSTR then
            Option.bind (arm_value r s) (\<lambda>v. Some (s\<lparr>arm_mem := store_le n v addr (arm_mem s)\<rparr>))
          else None)"
| "arm_exec1 ok (MoveWideInst opc sz d imm16 sh) s =
     (if \<not> wide_shift sz sh then None
      else if opc = armMOVZ then arm_set d (push_bit (unat sh) (ucast imm16)) s
      else if opc = armMOVK then
        Option.bind (arm_value d s) (\<lambda>old. arm_set d (take_bit (op_width sz) (keep_chunk old imm16 (unat sh))) s)
      else None)"
| "arm_exec1 ok (ConditionalInst opc sz d c) s =
     (if opc = armCSET then arm_set d (of_bool (condition_holds c (arm_flags s))) s else None)"
| "arm_exec1 ok (ConditionalSelectInst opc sz d s1 s2 c) s =
     (if opc = armCSEL then
        Option.bind (arm_value s1 s) (\<lambda>a. Option.bind (arm_value s2 s) (\<lambda>b.
          arm_set d (take_bit (op_width sz) (if condition_holds c (arm_flags s) then a else b)) s))
      else None)"
| "arm_exec1 ok (BranchInst opc target) s = None"

declare arm_exec1.simps [simp del]

fun arm_exec :: "(u64 \<Rightarrow> nat \<Rightarrow> bool) \<Rightarrow> arm_instruction list \<Rightarrow> arm_state \<Rightarrow> arm_state option" where
  "arm_exec ok [] s = Some s"
| "arm_exec ok (inst # rest) s = Option.bind (arm_exec1 ok inst s) (arm_exec ok rest)"

text \<open>
  A call: run until the return through the link register, which must still hold the return address
  \<open>lr\<close>; the result is X0 and the memory.
\<close>

fun is_return :: "arm_instruction \<Rightarrow> bool" where
  "is_return (TwoOperandInst opc sz d s) \<longleftrightarrow> opc = armRET \<and> s = ArmReg X30"
| "is_return _ \<longleftrightarrow> False"

fun arm_run :: "(u64 \<Rightarrow> nat \<Rightarrow> bool) \<Rightarrow> u64 \<Rightarrow> arm_instruction list \<Rightarrow> arm_state \<Rightarrow> (u64 \<times> mem) option" where
  "arm_run ok lr [] s = None"
| "arm_run ok lr (inst # rest) s =
     (if is_return inst
      then (if arm_rf s (ArmReg X30) = lr then Some (arm_rf s (ArmReg X0), arm_mem s) else None)
      else Option.bind (arm_exec1 ok inst s) (arm_run ok lr rest))"

subsection \<open>Facts\<close>

lemma arm_exec_append: "arm_exec ok (xs @ ys) s = Option.bind (arm_exec ok xs s) (arm_exec ok ys)"
  by (induction xs arbitrary: s) (auto split: bind_splits)

lemma arm_exec1_return: "is_return inst \<Longrightarrow> arm_exec1 ok inst s = None"
  by (cases inst) (auto simp: arm_exec1.simps arm_move_def)

lemma arm_run_append:
  "arm_exec ok xs s = Some s' \<Longrightarrow> arm_run ok lr (xs @ ys) s = arm_run ok lr ys s'"
proof (induction xs arbitrary: s)
  case Nil
  then show ?case by simp
next
  case (Cons inst xs)
  then obtain s1 where "arm_exec1 ok inst s = Some s1" and "arm_exec ok xs s1 = Some s'"
    by (auto simp: bind_eq_Some_conv)
  moreover from this have "\<not> is_return inst" using arm_exec1_return [of inst ok s] by auto
  ultimately show ?case using Cons.IH by simp
qed

lemma arm_set_eq_Some: "arm_set op v s = Some s' \<longleftrightarrow> is_register op \<and> s' = s\<lparr>arm_rf := (arm_rf s)(op := v)\<rparr>"
  by (auto simp: arm_set_def)

lemma arm_set_mem: "arm_set op v s = Some s' \<Longrightarrow> arm_mem s' = arm_mem s"
  by (auto simp: arm_set_eq_Some)

text \<open>Memory outside the accesses that are allowed does not change.\<close>

lemma arm_exec1_frame:
  assumes "arm_exec1 ok inst s = Some s'" and "\<And>a n. ok a n \<Longrightarrow> x \<notin> region a n"
  shows "arm_mem s' x = arm_mem s x"
  using assms
  by (cases inst) (auto simp: arm_exec1.simps Let_def bind_eq_Some_conv store_le_other split: if_splits dest: arm_set_mem)

lemma arm_run_frame:
  assumes "arm_run ok lr insts s = Some (v, m)" and "\<And>a n. ok a n \<Longrightarrow> x \<notin> region a n"
  shows "m x = arm_mem s x"
  using assms(1)
proof (induction insts arbitrary: s)
  case Nil
  then show ?case by simp
next
  case (Cons inst insts)
  show ?case
  proof (cases "is_return inst")
    case True
    with Cons.prems show ?thesis by (auto split: if_splits)
  next
    case False
    with Cons.prems obtain s1 where "arm_exec1 ok inst s = Some s1" and "arm_run ok lr insts s1 = Some (v, m)"
      by (auto simp: bind_eq_Some_conv)
    with Cons.IH arm_exec1_frame [OF _ assms(2)] show ?thesis by simp
  qed
qed

subsection \<open>Comparisons\<close>

lemma signed_at_64 [simp]: "signed_at 64 a = sint a"
  by (simp add: signed_at_def)

text \<open>The signed conditions decide the signed order although the subtraction may overflow.\<close>

lemma sint_diff_cases:
  "sint (a - b :: u64) = sint a - sint b \<or>
   sint a - sint b < 0 \<and> sint (a - b) \<ge> 0 \<and> sint (a - b) \<noteq> sint a - sint b \<or>
   sint a - sint b \<ge> 0 \<and> sint (a - b) < 0 \<and> sint (a - b) \<noteq> sint a - sint b"
proof -
  have r: "- (2 ^ 63) \<le> sint a" "sint a < 2 ^ 63" "- (2 ^ 63) \<le> sint b" "sint b < 2 ^ 63"
    using sint_ge [of a] sint_lt [of a] sint_ge [of b] sint_lt [of b] by simp_all
  have "sint (a - b) = signed_take_bit 63 (sint a - sint b)"
    by (simp add: sint_word_ariths(2) signed_take_bit_eq_if_positive)
  also have "\<dots> = (sint a - sint b + 2 ^ 63) mod 2 ^ 64 - 2 ^ 63"
    by (simp add: signed_take_bit_eq_take_bit_shift take_bit_eq_mod)
  finally have e: "sint (a - b) = (sint a - sint b + 2 ^ 63) mod 2 ^ 64 - 2 ^ 63" .
  define d where "d = sint a - sint b"
  have d: "- (2 ^ 64) < d" "d < 2 ^ 64" using r by (simp_all add: d_def)
  from e have e': "sint (a - b) = (d + 2 ^ 63) mod 2 ^ 64 - 2 ^ 63" by (simp add: d_def)
  consider "- (2 ^ 63) \<le> d" "d < 2 ^ 63" | "2 ^ 63 \<le> d" | "d < - (2 ^ 63)" by linarith
  then have "sint (a - b) = d \<or> d < 0 \<and> sint (a - b) = d + 2 ^ 64 \<or> d \<ge> 0 \<and> sint (a - b) = d - 2 ^ 64"
  proof cases
    case 1
    then show ?thesis unfolding e' by simp
  next
    case 2
    with d show ?thesis unfolding e' using minus_mod_self2 [of "d + 2 ^ 63" "2 ^ 64"] by simp
  next
    case 3
    with d show ?thesis unfolding e' using mod_add_self2 [of "d + 2 ^ 63" "2 ^ 64"] by simp
  qed
  with d sint_ge [of "a - b"] sint_lt [of "a - b"] show ?thesis
    unfolding d_def [symmetric] by auto
qed

lemma condition_holds_compare:
  "condition_holds condEQ (compare_flags 64 a b) \<longleftrightarrow> a = b"
  "condition_holds condNE (compare_flags 64 a b) \<longleftrightarrow> a \<noteq> b"
  "condition_holds condLT (compare_flags 64 a b) \<longleftrightarrow> sint a < sint b"
  "condition_holds condLE (compare_flags 64 a b) \<longleftrightarrow> sint a \<le> sint b"
  "condition_holds condGT (compare_flags 64 a b) \<longleftrightarrow> sint b < sint a"
  "condition_holds condGE (compare_flags 64 a b) \<longleftrightarrow> sint b \<le> sint a"
  "condition_holds condCC (compare_flags 64 a b) \<longleftrightarrow> a < b"
  "condition_holds condLS (compare_flags 64 a b) \<longleftrightarrow> a \<le> b"
  "condition_holds condHI (compare_flags 64 a b) \<longleftrightarrow> b < a"
  "condition_holds condCS (compare_flags 64 a b) \<longleftrightarrow> b \<le> a"
proof -
  have t: "take_bit 64 x = x" for x :: u64 by (simp add: take_bit_word_eq_self)
  have eq: "a = b \<longleftrightarrow> sint a = sint b" by (simp add: word_eq_iff_signed)
  show "condition_holds condEQ (compare_flags 64 a b) \<longleftrightarrow> a = b"
    "condition_holds condNE (compare_flags 64 a b) \<longleftrightarrow> a \<noteq> b"
    "condition_holds condCC (compare_flags 64 a b) \<longleftrightarrow> a < b"
    "condition_holds condLS (compare_flags 64 a b) \<longleftrightarrow> a \<le> b"
    "condition_holds condHI (compare_flags 64 a b) \<longleftrightarrow> b < a"
    "condition_holds condCS (compare_flags 64 a b) \<longleftrightarrow> b \<le> a"
    by (auto simp: compare_flags_def t)
  show "condition_holds condLT (compare_flags 64 a b) \<longleftrightarrow> sint a < sint b"
    "condition_holds condLE (compare_flags 64 a b) \<longleftrightarrow> sint a \<le> sint b"
    "condition_holds condGT (compare_flags 64 a b) \<longleftrightarrow> sint b < sint a"
    "condition_holds condGE (compare_flags 64 a b) \<longleftrightarrow> sint b \<le> sint a"
    using sint_diff_cases [of a b] eq by (auto simp: compare_flags_def t)
qed

end
