(* ===== verification/GuestWindow.thy ===== *)
theory GuestWindow
  imports ExecutionEngine Arm64Semantics
begin

text \<open>
  What translated code may touch in host memory: the \<open>GuestState\<close> object at \<open>g\<close> and the shadow
  memory, which holds the guest's bytes. \<open>guest_rel\<close> relates the members of the object and the guest
  memory to the host memory. The locale \<open>guest_window\<close> is what a client of that memory relies on:
  which host accesses the guest's accesses turn into, and that the two areas are apart. It is
  interpreted on the layout the translator sets up.
\<close>

definition guest_rel :: "u64 \<Rightarrow> u64 set \<Rightarrow> u64 list \<Rightarrow> mem \<Rightarrow> mem \<Rightarrow> bool" where
  "guest_rel g W ms gm hm \<longleftrightarrow>
     length ms = 36 \<and> (\<forall>i < 36. load_le 8 hm (slot g i) = ms ! i) \<and>
     (\<forall>x \<in> W. hm (x - ms ! 35 + ms ! 33) = gm x)"

locale guest_window =
  fixes g :: u64 and base :: u64 and shadow :: u64 and W :: "u64 set"
    and ok :: "u64 \<Rightarrow> nat \<Rightarrow> bool" and hok :: "u64 \<Rightarrow> nat \<Rightarrow> bool"
  assumes ok_window: "ok a n \<Longrightarrow> region a n \<subseteq> W"
    and ok_host: "ok a n \<Longrightarrow> hok (a - base + shadow) n"
    and members_host: "i < 36 \<Longrightarrow> hok (slot g i) 8"
    and apart: "x \<in> W \<Longrightarrow> i < 36 \<Longrightarrow> x - base + shadow \<notin> region (slot g i) 8"
begin

lemma load_member: "guest_rel g W ms gm hm \<Longrightarrow> i < 36 \<Longrightarrow> load_le 8 hm (slot g i) = ms ! i"
  by (simp add: guest_rel_def)

lemma store_member:
  assumes "guest_rel g W ms gm hm" and "i < 33" and "ms ! 33 = shadow" and "ms ! 35 = base"
  shows "guest_rel g W (ms[i := v]) gm (store_le 8 v (slot g i) hm)"
proof -
  have "load_le 8 (store_le 8 v (slot g i) hm) (slot g j) = (if i = j then v else load_le 8 hm (slot g j))" if "j < 36" for j
    using region_slot_disjoint [of i j g] that assms(2) by (intro le.load_slot) auto
  moreover have "store_le 8 v (slot g i) hm (x - base + shadow) = hm (x - base + shadow)" if "x \<in> W" for x
    using apart [OF that, of i] assms(2) by (simp add: store_le_other)
  ultimately show ?thesis
    using assms by (auto simp: guest_rel_def nth_list_update)
qed

lemma load_window:
  assumes "guest_rel g W ms gm hm" and "ok a n" and "ms ! 33 = shadow" and "ms ! 35 = base"
  shows "load_le n hm (a - base + shadow) = load_le n gm a"
proof -
  have "load_le n hm (a + (shadow - base)) = load_le n gm a"
    by (rule load_le_agree) (use assms ok_window [OF assms(2)] in \<open>auto simp: guest_rel_def algebra_simps\<close>)
  then show ?thesis by (simp add: algebra_simps)
qed

lemma region_window: "ok a n \<Longrightarrow> i < 36 \<Longrightarrow> region (a - base + shadow) n \<inter> region (slot g i) 8 = {}"
proof -
  assume a: "ok a n" "i < 36"
  have "y \<notin> region (slot g i) 8" if y: "y \<in> region (a - base + shadow) n" for y
  proof -
    from y obtain k where "k < n" and k: "y = a - base + shadow + of_nat k" by (auto simp: region_iff)
    then have "a + of_nat k \<in> region a n" by (auto simp: region_iff)
    with ok_window [OF a(1)] have "a + of_nat k \<in> W" by blast
    moreover have "y = a + of_nat k - base + shadow" unfolding k by (simp add: algebra_simps)
    ultimately show ?thesis using apart a(2) by simp
  qed
  then show ?thesis by auto
qed

lemma store_window:
  assumes "guest_rel g W ms gm hm" and "ok a n" and "ms ! 33 = shadow" and "ms ! 35 = base"
  shows "guest_rel g W ms (store_le n v a gm) (store_le n v (a - base + shadow) hm)"
proof -
  have "store_le n v (a - base + shadow) hm (x - base + shadow) = store_le n v a gm x" if "x \<in> W" for x
    using store_le_agree [of W hm "shadow - base" gm x n v a] assms that
    by (auto simp: guest_rel_def algebra_simps)
  moreover have "load_le 8 (store_le n v (a - base + shadow) hm) (slot g i) = ms ! i" if "i < 36" for i
    using le.load_frame [OF region_window [OF assms(2) that]] assms(1) that by (simp add: guest_rel_def)
  ultimately show ?thesis using assms by (simp add: guest_rel_def)
qed

end

subsection \<open>The window of a translator\<close>

text \<open>
  The bytes of the guest's address space from \<open>base\<close> on are those of the \<open>size\<close> bytes at \<open>shadow\<close>; the
  guest may access what lies there and outside the \<open>GuestState\<close> object.
\<close>

definition window :: "u64 \<Rightarrow> u64 \<Rightarrow> u64 \<Rightarrow> nat \<Rightarrow> u64 set" where
  "window g base shadow sz = {x. unat (x - base) < sz \<and> x - base + shadow \<notin> region g sizeof_GuestState}"

definition guest_ok :: "u64 \<Rightarrow> u64 \<Rightarrow> u64 \<Rightarrow> nat \<Rightarrow> u64 \<Rightarrow> nat \<Rightarrow> bool" where
  "guest_ok g base shadow sz a n \<longleftrightarrow> region a n \<subseteq> window g base shadow sz"

definition host_ok :: "u64 \<Rightarrow> u64 \<Rightarrow> nat \<Rightarrow> u64 \<Rightarrow> nat \<Rightarrow> bool" where
  "host_ok g shadow sz a n \<longleftrightarrow> region a n \<subseteq> region g sizeof_GuestState \<union> {x. unat (x - shadow) < sz}"

lemma slot_in_GuestState: "i < 36 \<Longrightarrow> region (slot g i) 8 \<subseteq> region g sizeof_GuestState"
  using region_slot [of g i] region_mono [of "8 * Suc i" sizeof_GuestState g]
  by (auto simp: sizeof_GuestState_def)

interpretation gw: guest_window g base shadow "window g base shadow sz" "guest_ok g base shadow sz" "host_ok g shadow sz"
  for g base shadow sz
proof
  show "guest_ok g base shadow sz a n \<Longrightarrow> region a n \<subseteq> window g base shadow sz" for a n
    by (simp add: guest_ok_def)
  show "guest_ok g base shadow sz a n \<Longrightarrow> host_ok g shadow sz (a - base + shadow) n" for a n
    unfolding guest_ok_def host_ok_def window_def
  proof
    fix y
    assume a: "region a n \<subseteq> {x. unat (x - base) < sz \<and> x - base + shadow \<notin> region g sizeof_GuestState}"
      and "y \<in> region (a - base + shadow) n"
    then have "y + (base - shadow) \<in> region a n"
      using region_shift [of y "a - base + shadow" n "base - shadow"] by (simp add: algebra_simps)
    with a have "unat (y + (base - shadow) - base) < sz" by blast
    then show "y \<in> region g sizeof_GuestState \<union> {x. unat (x - shadow) < sz}" by (simp add: algebra_simps)
  qed
  show "i < 36 \<Longrightarrow> host_ok g shadow sz (slot g i) 8" for i
    using slot_in_GuestState [of i g] by (auto simp: host_ok_def)
  show "x \<in> window g base shadow sz \<Longrightarrow> i < 36 \<Longrightarrow> x - base + shadow \<notin> region (slot g i) 8" for x i
    using slot_in_GuestState [of i g] by (auto simp: window_def)
qed

end
