(* ===== verification/IR.thy ===== *)
theory IR
  imports Errors
begin

text \<open>
  \<open>lib/IR/IR.h\<close> and \<open>lib/IR/IR.cpp\<close>: the block-local SSA intermediate representation and its
  textual form. An SSA value number (\<open>ValueId\<close>, \<open>uint64_t\<close>) is a \<open>nat\<close> whose wrap-around is written
  out where it is incremented. The enumerators of \<open>BinaryOpcode\<close> carry the prefix \<open>ir\<close>.
\<close>

datatype ir_type = i1 | i8 | i16 | i32 | i64

type_synonym valueId = nat

datatype binary_opcode =
    irAdd | irSub | irMul | irDiv | irDivU | irRem | irRemU
  | irAnd | irOr | irXor | irShl | irShr | irSar
  | irEq | irNe | irLt | irLe | irGt | irGe | irLtU | irLeU | irGtU | irGeU

datatype ir_kind =
    Const ir_type Prelude.i64
  | BinaryOp binary_opcode ir_type valueId valueId
  | Sext ir_type valueId
  | Zext ir_type valueId
  | Trunc ir_type valueId
  | Load ir_type valueId
  | Store valueId valueId
  | RegRead u32
  | RegWrite u32 valueId

record ir_instruction =
  ir_valueId :: valueId
  ir_kind :: ir_kind

datatype terminator_kind =
    Branch u64
  | CondBranch valueId u64 u64
  | Return "valueId option"

record basic_block =
  instructions :: "ir_instruction list"
  terminator :: terminator_kind

subsection \<open>Textual form\<close>

fun binaryOpcodeToString :: "binary_opcode \<Rightarrow> string" where
  "binaryOpcodeToString irAdd = ''add''"
| "binaryOpcodeToString irSub = ''sub''"
| "binaryOpcodeToString irMul = ''mul''"
| "binaryOpcodeToString irDiv = ''div''"
| "binaryOpcodeToString irDivU = ''divu''"
| "binaryOpcodeToString irRem = ''rem''"
| "binaryOpcodeToString irRemU = ''remu''"
| "binaryOpcodeToString irAnd = ''and''"
| "binaryOpcodeToString irOr = ''or''"
| "binaryOpcodeToString irXor = ''xor''"
| "binaryOpcodeToString irShl = ''shl''"
| "binaryOpcodeToString irShr = ''shr''"
| "binaryOpcodeToString irSar = ''sar''"
| "binaryOpcodeToString irEq = ''eq''"
| "binaryOpcodeToString irNe = ''ne''"
| "binaryOpcodeToString irLt = ''lt''"
| "binaryOpcodeToString irLe = ''le''"
| "binaryOpcodeToString irGt = ''gt''"
| "binaryOpcodeToString irGe = ''ge''"
| "binaryOpcodeToString irLtU = ''ltu''"
| "binaryOpcodeToString irLeU = ''leu''"
| "binaryOpcodeToString irGtU = ''gtu''"
| "binaryOpcodeToString irGeU = ''geu''"

fun typeToString :: "ir_type \<Rightarrow> string" where
  "typeToString i1 = ''i1''"
| "typeToString i8 = ''i8''"
| "typeToString i16 = ''i16''"
| "typeToString i32 = ''i32''"
| "typeToString i64 = ''i64''"

fun irKindToString :: "ir_kind \<Rightarrow> string" where
  "irKindToString (Const t v) = typeToString t @ '' '' @ int_string (sint v)"
| "irKindToString (BinaryOp opc t l r) =
     binaryOpcodeToString opc @ '' '' @ typeToString t @ '' %'' @ dec_string l @ '', %'' @ dec_string r"
| "irKindToString (Sext t v) = ''sext to '' @ typeToString t @ '' %'' @ dec_string v"
| "irKindToString (Zext t v) = ''zext to '' @ typeToString t @ '' %'' @ dec_string v"
| "irKindToString (Trunc t v) = ''trunc to '' @ typeToString t @ '' %'' @ dec_string v"
| "irKindToString (Load t a) = ''load '' @ typeToString t @ '' %'' @ dec_string a"
| "irKindToString (Store v a) = ''store %'' @ dec_string v @ '', %'' @ dec_string a"
| "irKindToString (RegRead r) = ''regread x'' @ dec_string (unat r)"
| "irKindToString (RegWrite r v) = ''regwrite x'' @ dec_string (unat r) @ '', %'' @ dec_string v"

text \<open>Whether the instruction produces a value, the test of \<open>Instruction::toString\<close>.\<close>

fun produces_value :: "ir_kind \<Rightarrow> bool" where
  "produces_value (Store _ _) = False"
| "produces_value (RegWrite _ _) = False"
| "produces_value _ = True"

definition irInstructionToString :: "ir_instruction \<Rightarrow> string" where
  "irInstructionToString inst =
     (if produces_value (ir_kind inst) then ''%'' @ dec_string (ir_valueId inst) @ '' = '' else []) @
     irKindToString (ir_kind inst)"

fun terminatorToString :: "terminator_kind \<Rightarrow> string" where
  "terminatorToString (Branch t) = ''br bb'' @ dec_string (unat t)"
| "terminatorToString (CondBranch c t f) =
     ''condbr %'' @ dec_string c @ '', bb'' @ dec_string (unat t) @ '', bb'' @ dec_string (unat f)"
| "terminatorToString (Return (Some v)) = ''ret %'' @ dec_string v"
| "terminatorToString (Return None) = ''ret''"

definition basicBlockToString :: "basic_block \<Rightarrow> string" where
  "basicBlockToString block =
     ''BasicBlock:'' @ [CHR 0x0A] @
     concat (map (\<lambda>inst. ''  '' @ irInstructionToString inst @ [CHR 0x0A]) (instructions block)) @
     ''  '' @ terminatorToString (terminator block) @ [CHR 0x0A]"

end
