(* ===== verification/InstructionSelector.thy ===== *)
theory InstructionSelector
  imports Arm64 IR GuestState
begin

text \<open>
  \<open>lib/Lowering/InstructionSelector.cpp\<close>: the selection of ARM64 instructions over virtual registers
  for an IR block. The members of the class are the record \<open>selector\<close>; every method takes it and
  returns it updated, an exception is an \<open>Inl\<close>. The counter \<open>nextVirtualReg\<close> is a \<open>uint32_t\<close>.
\<close>

record selector =
  nextVirtualReg :: virtual_register
  irToVReg :: "valueId \<rightharpoonup> virtual_register"
  valueTypes :: "valueId \<rightharpoonup> ir_type"

definition InstructionSelector_init :: selector where
  "InstructionSelector_init = \<lparr> nextVirtualReg = 0, irToVReg = Map.empty, valueTypes = Map.empty \<rparr>"

definition REGISTER_SIZE_BYTES :: nat where "REGISTER_SIZE_BYTES = 8"

subsection \<open>Virtual registers and value types\<close>

text \<open>\<open>nextVirtualReg++\<close>\<close>

definition freshVirtualRegister :: "selector \<Rightarrow> virtual_register \<times> selector" where
  "freshVirtualRegister st =
     (nextVirtualReg st, st\<lparr> nextVirtualReg := (nextVirtualReg st + 1) mod 2 ^ 32 \<rparr>)"

definition getVirtualRegister :: "valueId \<Rightarrow> selector \<Rightarrow> virtual_register option" where
  "getVirtualRegister v st = irToVReg st v"

definition getVirtualRegisterOrThrow :: "valueId \<Rightarrow> selector \<Rightarrow> virtual_register result" where
  "getVirtualRegisterOrThrow v st =
     (case getVirtualRegister v st of
        Some vreg \<Rightarrow> Inr vreg
      | None \<Rightarrow> Inl (LoweringError (''No virtual register assigned to IR value '' @ dec_string v)))"

definition assignVirtualRegister :: "valueId \<Rightarrow> selector \<Rightarrow> virtual_register \<times> selector" where
  "assignVirtualRegister v st =
     (case getVirtualRegister v st of
        Some vreg \<Rightarrow> (vreg, st)
      | None \<Rightarrow>
          (let (vreg, st) = freshVirtualRegister st
           in (vreg, st\<lparr> irToVReg := (irToVReg st)(v \<mapsto> vreg) \<rparr>)))"

definition recordValueType :: "valueId \<Rightarrow> ir_type \<Rightarrow> selector \<Rightarrow> selector" where
  "recordValueType v t st = st\<lparr> valueTypes := (valueTypes st)(v \<mapsto> t) \<rparr>"

definition getValueType :: "valueId \<Rightarrow> selector \<Rightarrow> ir_type" where
  "getValueType v st = (case valueTypes st v of Some t \<Rightarrow> t | None \<Rightarrow> i64)"

subsection \<open>Conversions\<close>

fun irTypeToDataSize :: "ir_type \<Rightarrow> data_size" where
  "irTypeToDataSize i1 = SizeB"
| "irTypeToDataSize i8 = SizeB"
| "irTypeToDataSize i16 = SizeH"
| "irTypeToDataSize i32 = SizeW"
| "irTypeToDataSize i64 = SizeX"

definition comparisonCondition :: "binary_opcode \<Rightarrow> condition option" where
  "comparisonCondition opc =
     (case opc of
        irEq \<Rightarrow> Some condEQ
      | irNe \<Rightarrow> Some condNE
      | irLt \<Rightarrow> Some condLT
      | irLe \<Rightarrow> Some condLE
      | irGt \<Rightarrow> Some condGT
      | irGe \<Rightarrow> Some condGE
      | irLtU \<Rightarrow> Some condCC
      | irLeU \<Rightarrow> Some condLS
      | irGtU \<Rightarrow> Some condHI
      | irGeU \<Rightarrow> Some condCS
      | _ \<Rightarrow> None)"

definition irBinaryOpToARM64 :: "binary_opcode \<Rightarrow> arm_opcode result" where
  "irBinaryOpToARM64 opc =
     (case opc of
        irAdd \<Rightarrow> Inr armADD
      | irSub \<Rightarrow> Inr armSUB
      | irMul \<Rightarrow> Inr armMUL
      | irDivU \<Rightarrow> Inr armUDIV
      | irDiv \<Rightarrow> Inr armSDIV
      | irAnd \<Rightarrow> Inr armAND
      | irOr \<Rightarrow> Inr armORR
      | irXor \<Rightarrow> Inr armEOR
      | irShl \<Rightarrow> Inr armLSL
      | irShr \<Rightarrow> Inr armLSR
      | irSar \<Rightarrow> Inr armASR
      | _ \<Rightarrow> Inl (LoweringError ''Unexpected opcode in irBinaryOpToARM64''))"

subsection \<open>Constants\<close>

text \<open>The body of the loop over the four 16-bit chunks; the flag is \<open>firstChunk\<close>.\<close>

fun selectChunks :: "nat list \<Rightarrow> bool \<Rightarrow> data_size \<Rightarrow> arm_operand \<Rightarrow> u64 \<Rightarrow> arm_instruction list \<times> bool" where
  "selectChunks [] firstChunk sz target v = ([], firstChunk)"
| "selectChunks (shift # shifts) firstChunk sz target v =
     (let chunk = ucast (drop_bit shift v AND 0xFFFF) :: u16
      in if chunk = 0 then selectChunks shifts firstChunk sz target v
         else let (rest, f) = selectChunks shifts False sz target v
              in (MoveWideInst (if firstChunk then armMOVZ else armMOVK) sz target chunk (of_nat shift) # rest, f))"

definition selectConstIntoRegister :: "ir_type \<Rightarrow> Prelude.i64 \<Rightarrow> arm_operand \<Rightarrow> arm_instruction list" where
  "selectConstIntoRegister t v target =
     (let dataSize = irTypeToDataSize t
      in if sint v < 0 \<and> sint v \<ge> - 65536 then [TwoOperandInst armMOVN dataSize target (ArmImm (NOT v))]
         else if sint v \<ge> 0 \<and> sint v \<le> 0xFFFF then [TwoOperandInst armMOV dataSize target (ArmImm v)]
         else
           (let (insts, firstChunk) = selectChunks [0, 16, 32, 48] True dataSize target v
            in if firstChunk then insts @ [MoveWideInst armMOVZ dataSize target 0 0] else insts))"

definition selectConst :: "ir_type \<Rightarrow> Prelude.i64 \<Rightarrow> valueId \<Rightarrow> selector \<Rightarrow> arm_instruction list \<times> selector" where
  "selectConst t v resultId st =
     (let (destReg, st) = assignVirtualRegister resultId st
      in (selectConstIntoRegister t v (ArmVReg destReg), st))"

subsection \<open>Operations\<close>

definition selectBinaryOp ::
  "binary_opcode \<Rightarrow> ir_type \<Rightarrow> valueId \<Rightarrow> valueId \<Rightarrow> valueId \<Rightarrow> selector \<Rightarrow> (arm_instruction list \<times> selector) result" where
  "selectBinaryOp opc t lhs rhs resultId st =
     (let (destReg, st) = assignVirtualRegister resultId st in
      bindR (getVirtualRegisterOrThrow lhs st) (\<lambda>lhsReg.
      bindR (getVirtualRegisterOrThrow rhs st) (\<lambda>rhsReg.
      (case comparisonCondition opc of
         Some cnd \<Rightarrow>
           Inr ([TwoOperandInst armCMP SizeX (ArmVReg lhsReg) (ArmVReg rhsReg),
                 ConditionalInst armCSET SizeX (ArmVReg destReg) cnd], st)
       | None \<Rightarrow>
           bindR (irBinaryOpToARM64 opc) (\<lambda>armOpc.
             Inr ([ThreeOperandInst armOpc (irTypeToDataSize t) (ArmVReg destReg) (ArmVReg lhsReg) (ArmVReg rhsReg)], st))))))"

definition generateAddressTranslation ::
  "virtual_register \<Rightarrow> selector \<Rightarrow> arm_instruction list \<times> virtual_register \<times> selector" where
  "generateAddressTranslation guestAddrReg st =
     (let (hostAddrReg, st) = freshVirtualRegister st;
          (guestBaseReg, st) = freshVirtualRegister st;
          (shadowBaseReg, st) = freshVirtualRegister st
      in ([MemoryInst armLDR SizeX (ArmVReg guestBaseReg) (ArmReg X0) (of_nat offset_guestMemoryBase),
           MemoryInst armLDR SizeX (ArmVReg shadowBaseReg) (ArmReg X0) (of_nat offset_shadowMemory),
           ThreeOperandInst armSUB SizeX (ArmVReg hostAddrReg) (ArmVReg guestAddrReg) (ArmVReg guestBaseReg),
           ThreeOperandInst armADD SizeX (ArmVReg hostAddrReg) (ArmVReg hostAddrReg) (ArmVReg shadowBaseReg)],
          hostAddrReg, st))"

definition selectLoad :: "ir_type \<Rightarrow> valueId \<Rightarrow> valueId \<Rightarrow> selector \<Rightarrow> (arm_instruction list \<times> selector) result" where
  "selectLoad t addr resultId st =
     (let (destReg, st) = assignVirtualRegister resultId st in
      bindR (getVirtualRegisterOrThrow addr st) (\<lambda>guestAddrReg.
      let (addrTranslation, hostAddrReg, st) = generateAddressTranslation guestAddrReg st
      in Inr (addrTranslation @ [MemoryInst armLDR (irTypeToDataSize t) (ArmVReg destReg) (ArmVReg hostAddrReg) 0], st)))"

definition selectStore :: "valueId \<Rightarrow> valueId \<Rightarrow> selector \<Rightarrow> (arm_instruction list \<times> selector) result" where
  "selectStore v addr st =
     bindR (getVirtualRegisterOrThrow v st) (\<lambda>valueReg.
     bindR (getVirtualRegisterOrThrow addr st) (\<lambda>guestAddrReg.
     let valueType = getValueType v st;
         (addrTranslation, hostAddrReg, st) = generateAddressTranslation guestAddrReg st
     in Inr (addrTranslation @
             [MemoryInst armSTR (irTypeToDataSize valueType) (ArmVReg valueReg) (ArmVReg hostAddrReg) 0], st)))"

definition selectSext :: "ir_type \<Rightarrow> valueId \<Rightarrow> valueId \<Rightarrow> selector \<Rightarrow> (arm_instruction \<times> selector) result" where
  "selectSext toType operand resultId st =
     (let (destReg, st) = assignVirtualRegister resultId st in
      bindR (getVirtualRegisterOrThrow operand st) (\<lambda>srcReg.
      let opc = (case getValueType operand st of i8 \<Rightarrow> armSXTB | i16 \<Rightarrow> armSXTH | i32 \<Rightarrow> armSXTW | _ \<Rightarrow> armMOV)
      in Inr (TwoOperandInst opc (irTypeToDataSize toType) (ArmVReg destReg) (ArmVReg srcReg), st)))"

definition selectZext :: "ir_type \<Rightarrow> valueId \<Rightarrow> valueId \<Rightarrow> selector \<Rightarrow> (arm_instruction \<times> selector) result" where
  "selectZext toType operand resultId st =
     (let (destReg, st) = assignVirtualRegister resultId st in
      bindR (getVirtualRegisterOrThrow operand st) (\<lambda>srcReg.
      let opc = (case getValueType operand st of i8 \<Rightarrow> armUXTB | i16 \<Rightarrow> armUXTH | i32 \<Rightarrow> armMOV | _ \<Rightarrow> armMOV)
      in Inr (TwoOperandInst opc (irTypeToDataSize toType) (ArmVReg destReg) (ArmVReg srcReg), st)))"

definition selectTrunc :: "ir_type \<Rightarrow> valueId \<Rightarrow> valueId \<Rightarrow> selector \<Rightarrow> (arm_instruction \<times> selector) result" where
  "selectTrunc toType operand resultId st =
     (let (destReg, st) = assignVirtualRegister resultId st in
      bindR (getVirtualRegisterOrThrow operand st) (\<lambda>srcReg.
      Inr (TwoOperandInst armMOV (irTypeToDataSize toType) (ArmVReg destReg) (ArmVReg srcReg), st)))"

text \<open>\<open>regNumber * REGISTER_SIZE_BYTES\<close> is a \<open>size_t\<close>, cast to \<open>int32_t\<close>.\<close>

definition registerOffset :: "u32 \<Rightarrow> i32" where
  "registerOffset regNumber = ucast ((ucast regNumber :: u64) * of_nat REGISTER_SIZE_BYTES)"

definition selectRegRead :: "u32 \<Rightarrow> valueId \<Rightarrow> selector \<Rightarrow> arm_instruction \<times> selector" where
  "selectRegRead regNumber resultId st =
     (let (destReg, st) = assignVirtualRegister resultId st
      in (MemoryInst armLDR SizeX (ArmVReg destReg) (ArmReg X0) (registerOffset regNumber), st))"

definition selectRegWrite :: "u32 \<Rightarrow> valueId \<Rightarrow> selector \<Rightarrow> (arm_instruction \<times> selector) result" where
  "selectRegWrite regNumber v st =
     bindR (getVirtualRegisterOrThrow v st) (\<lambda>valueReg.
       Inr (MemoryInst armSTR SizeX (ArmVReg valueReg) (ArmReg X0) (registerOffset regNumber), st))"

subsection \<open>Instructions and terminators\<close>

text \<open>\<open>result.push_back(\<dots>)\<close> of a single instruction\<close>

definition single :: "(arm_instruction \<times> selector) result \<Rightarrow> (arm_instruction list \<times> selector) result" where
  "single m = bindR m (\<lambda>(inst, st). Inr ([inst], st))"

definition selectInstruction :: "ir_instruction \<Rightarrow> selector \<Rightarrow> (arm_instruction list \<times> selector) result" where
  "selectInstruction inst st =
     (let n = ir_valueId inst in
      case ir_kind inst of
        BinaryOp opc t l r \<Rightarrow> selectBinaryOp opc t l r n (recordValueType n t st)
      | Load t a \<Rightarrow> selectLoad t a n (recordValueType n t st)
      | Store v a \<Rightarrow> selectStore v a st
      | Const t v \<Rightarrow> Inr (selectConst t v n (recordValueType n t st))
      | Sext t v \<Rightarrow> single (selectSext t v n (recordValueType n t st))
      | Zext t v \<Rightarrow> single (selectZext t v n (recordValueType n t st))
      | Trunc t v \<Rightarrow> single (selectTrunc t v n (recordValueType n t st))
      | RegRead r \<Rightarrow> single (Inr (selectRegRead r n (recordValueType n i64 st)))
      | RegWrite r v \<Rightarrow> single (selectRegWrite r v st))"

definition retInst :: arm_instruction where
  "retInst = TwoOperandInst armRET SizeX (ArmReg X30) (ArmReg X30)"

definition selectCondBranch :: "valueId \<Rightarrow> u64 \<Rightarrow> u64 \<Rightarrow> selector \<Rightarrow> (arm_instruction list \<times> selector) result" where
  "selectCondBranch condition trueBlock falseBlock st =
     bindR (getVirtualRegisterOrThrow condition st) (\<lambda>condReg.
     let cmp = TwoOperandInst armCMP SizeX (ArmVReg condReg) (ArmImm 0);
         (trueValueId, st) = freshVirtualRegister st;
         (trueTempReg, st) = assignVirtualRegister trueValueId st;
         (trueInsts, st) = selectConst i64 trueBlock trueValueId st;
         (falseValueId, st) = freshVirtualRegister st;
         (falseTempReg, st) = assignVirtualRegister falseValueId st;
         (falseInsts, st) = selectConst i64 falseBlock falseValueId st;
         (targetReg, st) = freshVirtualRegister st;
         csel = ConditionalSelectInst armCSEL SizeX (ArmVReg targetReg) (ArmVReg trueTempReg) (ArmVReg falseTempReg) condNE;
         movTarget = TwoOperandInst armMOV SizeX (ArmReg X0) (ArmVReg targetReg)
     in Inr ([cmp] @ trueInsts @ falseInsts @ [csel, movTarget, retInst], st))"

definition selectTerminator :: "terminator_kind \<Rightarrow> selector \<Rightarrow> (arm_instruction list \<times> selector) result" where
  "selectTerminator trm st =
     (case trm of
        Branch target \<Rightarrow> Inr (selectConstIntoRegister i64 target (ArmReg X0) @ [retInst], st)
      | CondBranch c t f \<Rightarrow> selectCondBranch c t f st
      | Return (Some v) \<Rightarrow>
          bindR (getVirtualRegisterOrThrow v st) (\<lambda>srcReg.
            Inr ([TwoOperandInst armMOV SizeX (ArmReg X0) (ArmVReg srcReg), retInst], st))
      | Return None \<Rightarrow> Inr (selectConstIntoRegister i64 0 (ArmReg X0) @ [retInst], st))"

text \<open>The loop of \<open>selectInstructions\<close> over the instructions of the block.\<close>

fun selectLoop :: "ir_instruction list \<Rightarrow> selector \<Rightarrow> (arm_instruction list \<times> selector) result" where
  "selectLoop [] st = Inr ([], st)"
| "selectLoop (inst # rest) st =
     bindR (selectInstruction inst st) (\<lambda>(selected, st).
     bindR (selectLoop rest st) (\<lambda>(more_insts, st). Inr (selected @ more_insts, st)))"

definition selectInstructions :: "basic_block \<Rightarrow> selector \<Rightarrow> (arm_instruction list \<times> selector) result" where
  "selectInstructions block st =
     bindR (selectLoop (instructions block) st) (\<lambda>(selected, st).
     bindR (selectTerminator (terminator block) st) (\<lambda>(termSelected, st).
       Inr (selected @ termSelected, st)))"

end
