(* ===== verification/IRSemantics.thy ===== *)
theory IRSemantics
  imports IR Memory
begin

text \<open>
  The meaning of the IR, a specification shared by the lifter (which must produce IR that means
  what the guest code means) and the lowering (which must keep that meaning). A value is its type
  and its bits, zero-extended to 64 bits. \<open>ir_exec1\<close> is \<open>None\<close> on an undefined or ill-typed operand,
  on an access that \<open>ok\<close> does not allow, and on the operations no stage produces (division,
  remainder, comparisons below 64 bits, the sign extension of a condition, a truncation to more bits).
\<close>

fun ir_width :: "ir_type \<Rightarrow> nat" where
  "ir_width i1 = 1"
| "ir_width i8 = 8"
| "ir_width i16 = 16"
| "ir_width i32 = 32"
| "ir_width i64 = 64"

fun ir_bytes :: "ir_type \<Rightarrow> nat" where
  "ir_bytes i1 = 1"
| "ir_bytes i8 = 1"
| "ir_bytes i16 = 2"
| "ir_bytes i32 = 4"
| "ir_bytes i64 = 8"

type_synonym ir_env = "valueId \<rightharpoonup> (ir_type \<times> u64)"

record ir_state =
  ir_env :: ir_env
  ir_regs :: "u32 \<Rightarrow> u64"
  ir_mem :: mem

definition ir_signed :: "ir_type \<Rightarrow> u64 \<Rightarrow> int" where
  "ir_signed t a = sint (signed_take_bit (ir_width t - 1) a)"

text \<open>Arithmetic at the width of the type; a shift amount is taken modulo the width.\<close>

definition ir_arith :: "binary_opcode \<Rightarrow> ir_type \<Rightarrow> u64 \<Rightarrow> u64 \<Rightarrow> u64 option" where
  "ir_arith opc t a b =
     (let sh = unat b mod ir_width t
      in map_option (take_bit (ir_width t))
        (case opc of
           irAdd \<Rightarrow> Some (a + b)
         | irSub \<Rightarrow> Some (a - b)
         | irMul \<Rightarrow> Some (a * b)
         | irAnd \<Rightarrow> Some (a AND b)
         | irOr \<Rightarrow> Some (a OR b)
         | irXor \<Rightarrow> Some (a XOR b)
         | irShl \<Rightarrow> Some (push_bit sh a)
         | irShr \<Rightarrow> Some (drop_bit sh a)
         | irSar \<Rightarrow> Some (signed_drop_bit sh (signed_take_bit (ir_width t - 1) a))
         | _ \<Rightarrow> None))"

definition ir_compare :: "binary_opcode \<Rightarrow> ir_type \<Rightarrow> u64 \<Rightarrow> u64 \<Rightarrow> bool option" where
  "ir_compare opc t a b =
     (case opc of
        irEq \<Rightarrow> Some (a = b)
      | irNe \<Rightarrow> Some (a \<noteq> b)
      | irLt \<Rightarrow> Some (ir_signed t a < ir_signed t b)
      | irLe \<Rightarrow> Some (ir_signed t a \<le> ir_signed t b)
      | irGt \<Rightarrow> Some (ir_signed t b < ir_signed t a)
      | irGe \<Rightarrow> Some (ir_signed t b \<le> ir_signed t a)
      | irLtU \<Rightarrow> Some (a < b)
      | irLeU \<Rightarrow> Some (a \<le> b)
      | irGtU \<Rightarrow> Some (b < a)
      | irGeU \<Rightarrow> Some (b \<le> a)
      | _ \<Rightarrow> None)"

definition ir_binop :: "binary_opcode \<Rightarrow> ir_type \<Rightarrow> ir_type \<times> u64 \<Rightarrow> ir_type \<times> u64 \<Rightarrow> u64 option" where
  "ir_binop opc t l r =
     (case ir_compare opc (fst l) (snd l) (snd r) of
        Some c \<Rightarrow> if fst l = i64 \<and> fst r = i64 then Some (of_bool c) else None
      | None \<Rightarrow> if fst l = t \<and> fst r = t then ir_arith opc t (snd l) (snd r) else None)"

text \<open>The value an instruction produces, for the kinds that only compute.\<close>

fun ir_value :: "(u64 \<Rightarrow> nat \<Rightarrow> bool) \<Rightarrow> ir_kind \<Rightarrow> ir_state \<Rightarrow> (ir_type \<times> u64) option" where
  "ir_value ok (Const t v) s = Some (t, take_bit (ir_width t) v)"
| "ir_value ok (BinaryOp opc t l r) s =
     Option.bind (ir_env s l) (\<lambda>a. Option.bind (ir_env s r) (\<lambda>b. map_option (Pair t) (ir_binop opc t a b)))"
| "ir_value ok (Sext t v) s =
     Option.bind (ir_env s v) (\<lambda>(tv, a).
       if tv = i1 then None else Some (t, take_bit (ir_width t) (signed_take_bit (ir_width tv - 1) a)))"
| "ir_value ok (Zext t v) s = map_option (\<lambda>(tv, a). (t, take_bit (ir_width t) a)) (ir_env s v)"
| "ir_value ok (Trunc t v) s =
     Option.bind (ir_env s v) (\<lambda>(tv, a). if ir_width t \<le> ir_width tv then Some (t, take_bit (ir_width t) a) else None)"
| "ir_value ok (Load t a) s =
     Option.bind (ir_env s a) (\<lambda>(ta, addr).
       if ta = i64 \<and> ok addr (ir_bytes t) then Some (t, load_le (ir_bytes t) (ir_mem s) addr) else None)"
| "ir_value ok (RegRead r) s = Some (i64, ir_regs s r)"
| "ir_value ok _ s = None"

fun ir_exec1 :: "(u64 \<Rightarrow> nat \<Rightarrow> bool) \<Rightarrow> ir_instruction \<Rightarrow> ir_state \<Rightarrow> ir_state option" where
  "ir_exec1 ok inst s =
     (case ir_kind inst of
        Store v a \<Rightarrow>
          Option.bind (ir_env s v) (\<lambda>(tv, b). Option.bind (ir_env s a) (\<lambda>(ta, addr).
            if ta = i64 \<and> ok addr (ir_bytes tv) then Some (s\<lparr>ir_mem := store_le (ir_bytes tv) b addr (ir_mem s)\<rparr>)
            else None))
      | RegWrite r v \<Rightarrow>
          Option.bind (ir_env s v) (\<lambda>(tv, b).
            if tv = i64 then Some (s\<lparr>ir_regs := (ir_regs s)(r := b)\<rparr>) else None)
      | k \<Rightarrow> map_option (\<lambda>v. s\<lparr>ir_env := (ir_env s)(ir_valueId inst \<mapsto> v)\<rparr>) (ir_value ok k s))"

fun ir_exec :: "(u64 \<Rightarrow> nat \<Rightarrow> bool) \<Rightarrow> ir_instruction list \<Rightarrow> ir_state \<Rightarrow> ir_state option" where
  "ir_exec ok [] s = Some s"
| "ir_exec ok (inst # rest) s = Option.bind (ir_exec1 ok inst s) (ir_exec ok rest)"

text \<open>The program counter a terminator continues at; 0 stops the dispatcher.\<close>

fun ir_next :: "terminator_kind \<Rightarrow> ir_state \<Rightarrow> u64 option" where
  "ir_next (Branch t) s = Some t"
| "ir_next (CondBranch c t f) s =
     Option.bind (ir_env s c) (\<lambda>(tc, a). if tc = i1 then Some (if a \<noteq> 0 then t else f) else None)"
| "ir_next (Return None) s = Some 0"
| "ir_next (Return (Some v)) s = Option.bind (ir_env s v) (\<lambda>(tv, a). if tv = i64 then Some a else None)"

definition ir_run ::
  "(u64 \<Rightarrow> nat \<Rightarrow> bool) \<Rightarrow> basic_block \<Rightarrow> (u32 \<Rightarrow> u64) \<Rightarrow> mem \<Rightarrow> (u64 \<times> (u32 \<Rightarrow> u64) \<times> mem) option" where
  "ir_run ok block regs m =
     Option.bind (ir_exec ok (instructions block) \<lparr> ir_env = Map.empty, ir_regs = regs, ir_mem = m \<rparr>) (\<lambda>s.
       map_option (\<lambda>pc. (pc, ir_regs s, ir_mem s)) (ir_next (terminator block) s))"

subsection \<open>Facts\<close>

declare ir_exec1.simps [simp del]

lemma ir_width_le [simp]: "ir_width t \<le> 64"
  by (cases t) simp_all

lemma ir_exec_append: "ir_exec ok (xs @ ys) s = Option.bind (ir_exec ok xs s) (ir_exec ok ys)"
  by (induction xs arbitrary: s) (auto split: bind_splits)

text \<open>An instruction that computes a value extends the environment at its own number.\<close>

lemma ir_exec1_value:
  "ir_value ok k s = Some v \<Longrightarrow>
   ir_exec1 ok \<lparr>ir_valueId = n, ir_kind = k\<rparr> s = Some (s\<lparr>ir_env := (ir_env s)(n \<mapsto> v)\<rparr>)"
  by (cases k) (auto simp: ir_exec1.simps)

end
