(* ===== verification/SelectorCorrect.thy ===== *)
theory SelectorCorrect
  imports GuestWindow InstructionSelector IRSemantics
begin

text \<open>
  The instruction selector keeps the meaning of the IR: running the selected code, still over virtual
  registers, on a host state that represents the guest state returns the next program counter in X0
  and leaves a host state that represents the guest state after the block. The simulation is proved
  instruction by instruction inside the locale \<open>guest_window\<close>: \<open>sel_rel\<close> relates the three states,
  \<open>sel_sim\<close> says that selected code keeps them related. It holds for every block: the virtual
  register numbers that \<open>selectCondBranch\<close> uses as value numbers are harmless at this stage.
\<close>

subsection \<open>Constants\<close>

text \<open>Constants the chunk loop can load at the width of the type.\<close>

definition const_fits :: "ir_type \<Rightarrow> u64 \<Rightarrow> bool" where
  "const_fits t v \<longleftrightarrow> t = i64 \<or> - 65536 \<le> sint v \<and> sint v < 2 ^ 32"

lemma op_width_type: "op_width (irTypeToDataSize t) = (if t = i64 then 64 else 32)"
  by (cases t) (simp_all add: op_width_def)

lemma chunk_bits: "ucast (ucast (drop_bit k v AND 0xFFFF) :: u16) = take_bit 16 (drop_bit k (v :: u64))"
  unfolding mask_simps by (rule bit_word_eqI) (auto simp: bit_simps)

lemma chunk_zero: "(ucast (drop_bit k v AND 0xFFFF) :: u16) = 0 \<longleftrightarrow> take_bit 16 (drop_bit k (v :: u64)) = 0"
proof
  assume "(ucast (drop_bit k v AND 0xFFFF) :: u16) = 0"
  then show "take_bit 16 (drop_bit k v) = 0" using chunk_bits [of k v] by simp
next
  assume "take_bit 16 (drop_bit k v) = 0"
  then show "(ucast (drop_bit k v AND 0xFFFF) :: u16) = 0"
    unfolding mask_simps by (simp add: take_bit_eq_mask)
qed

lemma take_bit_chunk: "take_bit (k + 16) v = take_bit k v OR push_bit k (take_bit 16 (drop_bit k (v :: u64)))"
  by (rule bit_word_eqI) (auto simp: bit_simps)

lemma keep_chunk_chunk:
  "keep_chunk (take_bit k v) (ucast (drop_bit k v AND 0xFFFF)) k = take_bit (k + 16) (v :: u64)"
  unfolding keep_chunk_def chunk_bits take_bit_chunk
  by (rule bit_word_eqI) (auto simp: bit_simps)

lemma wide_shift_chunk:
  assumes "j < 4" and "sz = SizeX \<or> take_bit 32 v = v" and "take_bit 16 (drop_bit (16 * j) (v :: u64)) \<noteq> 0"
  shows "wide_shift sz (of_nat (16 * j))"
proof -
  have "j < 2" if t: "take_bit 32 v = v"
  proof (rule ccontr)
    assume "\<not> j < 2"
    then have "drop_bit (16 * j) (take_bit 32 v) = 0" by (auto intro: bit_word_eqI simp: bit_simps)
    with t assms(3) show False by simp
  qed
  moreover have "j = 0 \<or> j = 1 \<or> j = 2 \<or> j = 3" using assms(1) by auto
  ultimately show ?thesis using assms(2) by (auto simp: wide_shift_def)
qed

lemma take_bit_width_chunk:
  assumes "sz = SizeX \<or> take_bit 32 v = v"
  shows "take_bit (op_width sz) (take_bit k v) = take_bit k (v :: u64)"
proof (cases "sz = SizeX")
  case True
  then show ?thesis by (simp add: op_width_def take_bit_word_eq_self del: take_bit_take_bit)
next
  case False
  with assms have "take_bit 32 (take_bit k v) = take_bit k v" by (metis take_bit_take_bit min.commute)
  with False show ?thesis by (simp add: op_width_def)
qed

text \<open>One instruction of the sequence: the low \<open>16 * j\<close> bits of the constant become the low \<open>16 * j + 16\<close>.\<close>

lemma chunk_exec1:
  assumes reg: "is_register op" and sz: "sz = SizeX \<or> take_bit 32 v = v" and j: "j < 4"
    and c: "ucast (drop_bit (16 * j) v AND 0xFFFF) \<noteq> (0 :: u16)"
    and f: "f \<longrightarrow> take_bit (16 * j) v = 0" "\<not> f \<longrightarrow> arm_rf s op = take_bit (16 * j) v"
  shows "arm_exec1 ok (MoveWideInst (if f then armMOVZ else armMOVK) sz op (ucast (drop_bit (16 * j) v AND 0xFFFF)) (of_nat (16 * j))) s =
    Some (s\<lparr>arm_rf := (arm_rf s)(op := take_bit (16 * Suc j) v)\<rparr>)"
proof -
  have k: "16 * Suc j = 16 * j + 16" by simp
  have w: "wide_shift sz (of_nat (16 * j))" using wide_shift_chunk [OF j sz] c by (simp add: chunk_zero)
  have u: "unat (of_nat (16 * j) :: u8) = 16 * j" using j by (intro unat_of_nat_small) simp
  show ?thesis
  proof (cases f)
    case True
    with f(1) have "take_bit (16 * Suc j) v = push_bit (16 * j) (take_bit 16 (drop_bit (16 * j) v))"
      unfolding k take_bit_chunk by simp
    then show ?thesis using True w by (simp only: arm_exec1.simps u) (simp add: arm_set_def reg chunk_bits)
  next
    case False
    have v: "arm_value op s = Some (take_bit (16 * j) v)"
      using False reg f(2) by (cases op) auto
    show ?thesis
      using False w
      by (simp only: arm_exec1.simps u v bind.bind_lunit keep_chunk_chunk take_bit_width_chunk [OF sz] k)
         (simp add: arm_set_def reg)
  qed
qed

lemma selectChunks_exec:
  assumes "is_register op" and "sz = SizeX \<or> take_bit 32 v = v" and "j \<le> 4"
    and "selectChunks (map (\<lambda>i. 16 * i) [j..<4]) f sz op v = (insts, f')"
    and "f \<longrightarrow> take_bit (16 * j) v = 0" and "\<not> f \<longrightarrow> arm_rf s op = take_bit (16 * j) v"
  shows "if f' then f \<and> insts = [] \<and> v = 0
    else arm_exec ok insts s = Some (s\<lparr>arm_rf := (arm_rf s)(op := v)\<rparr>)"
  using assms(3-)
proof (induction "4 - j" arbitrary: j f insts s)
  case 0
  then have "j = 4" by simp
  with 0 show ?case by (auto simp: take_bit_word_eq_self intro!: arm_state.equality)
next
  case (Suc n)
  then have j: "j < 4" by simp
  let ?c = "ucast (drop_bit (16 * j) v AND 0xFFFF) :: u16"
  have c: "[j..<4] = j # [Suc j..<4]" using j by (simp add: upt_conv_Cons)
  have k: "16 * Suc j = 16 * j + 16" by simp
  have n: "n = 4 - Suc j" using Suc.hyps(2) by simp
  show ?case
  proof (cases "?c = 0")
    case True
    then have "take_bit (16 * Suc j) v = take_bit (16 * j) v"
      unfolding k take_bit_chunk by (simp add: chunk_zero)
    moreover have "selectChunks (map (\<lambda>i. 16 * i) [Suc j..<4]) f sz op v = (insts, f')"
      using Suc.prems(2) True by (simp add: c)
    ultimately show ?thesis using Suc.hyps(1) [of "Suc j" f insts s] Suc.hyps(2) Suc.prems by simp
  next
    case False
    then obtain rest where r: "selectChunks (map (\<lambda>i. 16 * i) [Suc j..<4]) False sz op v = (rest, f')"
      and i: "insts = MoveWideInst (if f then armMOVZ else armMOVK) sz op ?c (of_nat (16 * j)) # rest"
      using Suc.prems(2) by (auto simp: c Let_def split: prod.splits)
    let ?s = "s\<lparr>arm_rf := (arm_rf s)(op := take_bit (16 * Suc j) v)\<rparr>"
    have "arm_exec1 ok (MoveWideInst (if f then armMOVZ else armMOVK) sz op ?c (of_nat (16 * j))) s = Some ?s"
      by (rule chunk_exec1 [OF assms(1,2) j False]) (use Suc.prems in auto)
    moreover have "\<not> f'" and "arm_exec ok rest ?s = Some (?s\<lparr>arm_rf := (arm_rf ?s)(op := v)\<rparr>)"
      using Suc.hyps(1) [OF n _ r, of ?s] j by (simp_all split: if_splits)
    ultimately show ?thesis by (simp add: i)
  qed
qed


lemma sint_nonneg_uint: "0 \<le> sint (w :: u64) \<Longrightarrow> sint w = uint w"
proof -
  assume "0 \<le> sint w"
  then have "\<not> bit w 63" using bit_last_iff [of w] by simp
  then have "bit (sint w) n = bit (uint w) n" for n
    using bit_word_lt [of w n] by (cases "n = 63") (auto simp: bit_simps min_def)
  then show ?thesis by (rule bit_eqI)
qed

lemma sint_small_take_bit: "0 \<le> sint v \<Longrightarrow> sint v < 2 ^ 32 \<Longrightarrow> take_bit 32 v = (v :: u64)"
  using sint_nonneg_uint [of v] by (simp add: word_uint_eq_iff unsigned_take_bit_eq take_bit_int_eq_self)

lemma selectConstIntoRegister_exec:
  assumes "is_register op" and "const_fits t v"
  shows "arm_exec ok (selectConstIntoRegister t v op) s =
    Some (s\<lparr>arm_rf := (arm_rf s)(op := take_bit (if t = i64 then 64 else 32) v)\<rparr>)"
proof -
  let ?sz = "irTypeToDataSize t"
  consider "sint v < 0 \<and> sint v \<ge> - 65536" | "sint v \<ge> 0 \<and> sint v \<le> 0xFFFF"
    | "\<not> (sint v < 0 \<and> sint v \<ge> - 65536)" "\<not> (sint v \<ge> 0 \<and> sint v \<le> 0xFFFF)" by blast
  then show ?thesis
  proof cases
    case 1
    then show ?thesis by (simp add: selectConstIntoRegister_def arm_exec1.simps arm_move_def op_width_type arm_set_def assms(1))
  next
    case 2
    then show ?thesis by (simp add: selectConstIntoRegister_def arm_exec1.simps arm_move_def op_width_type arm_set_def assms(1))
  next
    case 3
    have sz: "?sz = SizeX \<or> take_bit 32 v = v" and w: "take_bit (if t = i64 then 64 else 32) v = v"
      using assms(2) 3 sint_small_take_bit [of v] by (auto simp: const_fits_def take_bit_word_eq_self)
    obtain insts f where c: "selectChunks (map (\<lambda>i. 16 * i) [0..<4]) True ?sz op v = (insts, f)" by fastforce
    from 3 have "v \<noteq> 0" by auto
    with selectChunks_exec [OF assms(1) sz _ c, of s ok]
    have "\<not> f" "arm_exec ok insts s = Some (s\<lparr>arm_rf := (arm_rf s)(op := v)\<rparr>)" by (auto split: if_splits)
    moreover from this c have "selectChunks [0, 16, 32, 48] True ?sz op v = (insts, False)"
      by (simp add: upt_conv_Cons del: selectChunks.simps)
    ultimately show ?thesis
      using w by (simp add: selectConstIntoRegister_def Let_def if_not_P [OF 3(1)] if_not_P [OF 3(2)] del: selectChunks.simps)
  qed
qed


subsection \<open>Values and registers\<close>

text \<open>
  The register of a value holds its bits; the bits above an 8- or 16-bit value are not specified.
\<close>

definition rep :: "ir_type \<Rightarrow> u64 \<Rightarrow> u64 \<Rightarrow> bool" where
  "rep t a w \<longleftrightarrow> take_bit (ir_width t) w = a \<and> (t \<notin> {i8, i16} \<longrightarrow> w = a)"

text \<open>The IR the selector handles at the widths it selects instructions for.\<close>

fun selectable :: "ir_kind \<Rightarrow> bool" where
  "selectable (Const t v) \<longleftrightarrow> t \<noteq> i1 \<and> const_fits t v"
| "selectable (BinaryOp opc t l r) \<longleftrightarrow> comparisonCondition opc \<noteq> None \<or> t \<in> {i32, i64}"
| "selectable (Sext t v) \<longleftrightarrow> t = i64"
| "selectable (Zext t v) \<longleftrightarrow> t = i64"
| "selectable (Trunc t v) \<longleftrightarrow> t \<noteq> i1"
| "selectable (Load t a) \<longleftrightarrow> t \<noteq> i1"
| "selectable (Store v a) \<longleftrightarrow> True"
| "selectable (RegRead r) \<longleftrightarrow> r < 32"
| "selectable (RegWrite r v) \<longleftrightarrow> r < 32"

lemma rep_i64 [simp]: "rep i64 a w \<longleftrightarrow> w = a"
  by (auto simp: rep_def take_bit_word_eq_self)

lemma rep_take_bit: "t \<noteq> i1 \<Longrightarrow> rep t (take_bit (ir_width t) v) (take_bit (if t = i64 then 64 else 32) v)"
  by (cases t) (auto simp: rep_def take_bit_word_eq_self)

lemma arith_exec:
  assumes "ir_arith opc t a b = Some c" and "t \<in> {i32, i64}" and "take_bit (ir_width t) a = a"
  shows "\<exists>aopc. irBinaryOpToARM64 opc = Inr aopc \<and> aopc \<noteq> armCMP \<and> arm_alu aopc (ir_width t) a b = Some c"
  using assms
  by (cases opc) (auto simp: ir_arith_def irBinaryOpToARM64_def arm_alu_def Let_def)

lemma compare_exec:
  assumes "ir_compare opc i64 a b = Some c"
  shows "\<exists>cnd. comparisonCondition opc = Some cnd \<and> condition_holds cnd (compare_flags 64 a b) = c"
  using assms
  by (cases opc) (auto simp: ir_compare_def comparisonCondition_def condition_holds_compare ir_signed_def simp del: condition_holds.simps)

lemma ir_compare_iff: "ir_compare opc t a b = None \<longleftrightarrow> comparisonCondition opc = None"
  by (cases opc) (simp_all add: ir_compare_def comparisonCondition_def)

subsection \<open>The simulation relation\<close>

text \<open>
  The selector state, the IR state and the host state: X0 is the guest state pointer, X30 the
  return address; every value has its own virtual register, below the counter, which holds it, and
  the recorded type is the value's; the guest registers are the first members of the object, \<open>cs\<close>
  the others.
\<close>

definition members_of :: "(u32 \<Rightarrow> u64) \<Rightarrow> u64 list \<Rightarrow> u64 list" where
  "members_of regs cs = map (\<lambda>i. regs (of_nat i)) [0..<32] @ cs"

definition sel_rel ::
  "u64 \<Rightarrow> u64 \<Rightarrow> u64 set \<Rightarrow> u64 list \<Rightarrow> selector \<Rightarrow> ir_state \<Rightarrow> arm_state \<Rightarrow> bool" where
  "sel_rel g lr W cs st s t \<longleftrightarrow>
     arm_rf t (ArmReg X0) = g \<and> arm_rf t (ArmReg X30) = lr \<and>
     (\<forall>v w. irToVReg st v = Some w \<longrightarrow> w < nextVirtualReg st) \<and>
     (\<forall>u v w. irToVReg st u = Some w \<longrightarrow> irToVReg st v = Some w \<longrightarrow> u = v) \<and>
     (\<forall>v ty a. ir_env s v = Some (ty, a) \<longrightarrow>
        valueTypes st v = Some ty \<and> (\<exists>w. irToVReg st v = Some w \<and> rep ty a (arm_rf t (ArmVReg w)))) \<and>
     guest_rel g W (members_of (ir_regs s) cs) (ir_mem s) (arm_mem t)"

lemma members_of_nth:
  "r < 32 \<Longrightarrow> members_of regs cs ! unat r = regs r"
  "32 \<le> i \<Longrightarrow> members_of regs cs ! i = cs ! (i - 32)"
  by (auto simp: members_of_def nth_append word_less_nat_alt)

lemma members_of_update:
  assumes "r < 32"
  shows "members_of (regs(r := v)) cs = (members_of regs cs)[unat r := v]"
proof -
  have r: "unat r < 32" using assms by (simp add: word_less_nat_alt)
  have "map (\<lambda>i. (regs(r := v)) (of_nat i)) [0..<32] = (map (\<lambda>i. regs (of_nat i)) [0..<32])[unat r := v]"
  proof (rule nth_equalityI)
    fix i assume "i < length (map (\<lambda>i. (regs(r := v)) (of_nat i)) [0..<32])"
    then have i: "i < 32" by simp
    then have "(of_nat i :: u32) = r \<longleftrightarrow> i = unat r" by (auto simp: unat_of_nat_small)
    with i r show "map (\<lambda>i. (regs(r := v)) (of_nat i)) [0..<32] ! i = (map (\<lambda>i. regs (of_nat i)) [0..<32])[unat r := v] ! i"
      by (auto simp: nth_list_update)
  qed simp
  then show ?thesis using r by (simp add: members_of_def list_update_append1)
qed

lemma sel_rel_flags [simp]: "sel_rel g lr W cs st s (t\<lparr>arm_flags := f\<rparr>) = sel_rel g lr W cs st s t"
  by (simp add: sel_rel_def)

lemma sel_rel_type: "sel_rel g lr W cs st s t \<Longrightarrow> ir_env s n = None \<Longrightarrow> sel_rel g lr W cs (recordValueType n ty st) s t"
  by (auto simp: sel_rel_def recordValueType_def)

lemma sel_relD:
  assumes "sel_rel g lr W cs st s t"
  shows "arm_rf t (ArmReg X0) = g" and "arm_rf t (ArmReg X30) = lr"
    and "irToVReg st v = Some w \<Longrightarrow> w < nextVirtualReg st"
    and "irToVReg st u = Some w \<Longrightarrow> irToVReg st v = Some w \<Longrightarrow> u = v"
    and "ir_env s v = Some (ty, a) \<Longrightarrow> valueTypes st v = Some ty"
    and "ir_env s v = Some (ty, a) \<Longrightarrow> \<exists>w. irToVReg st v = Some w \<and> rep ty a (arm_rf t (ArmVReg w))"
    and "guest_rel g W (members_of (ir_regs s) cs) (ir_mem s) (arm_mem t)"
  using assms unfolding sel_rel_def by (blast+)

lemma sel_rel_lookup:
  assumes "sel_rel g lr W cs st s t" and "ir_env s v = Some (ty, a)"
  obtains w where "irToVReg st v = Some w" and "getVirtualRegisterOrThrow v st = Inr w"
    and "rep ty a (arm_rf t (ArmVReg w))" and "getValueType v st = ty" and "w < nextVirtualReg st"
proof -
  from sel_relD(6) [OF assms] obtain w where w: "irToVReg st v = Some w" "rep ty a (arm_rf t (ArmVReg w))" by blast
  from that [OF w(1) _ w(2)] sel_relD(3) [OF assms(1) w(1)] sel_relD(5) [OF assms] w(1) show ?thesis
    by (simp add: getVirtualRegisterOrThrow_def getVirtualRegister_def getValueType_def)
qed

lemma assign_cases:
  assumes "assignVirtualRegister n st = (d, st')" and "Suc (nextVirtualReg st) < 2 ^ 32"
  shows "irToVReg st n = Some d \<and> st' = st \<or>
    irToVReg st n = None \<and> d = nextVirtualReg st \<and>
    st' = st\<lparr>nextVirtualReg := Suc (nextVirtualReg st), irToVReg := (irToVReg st)(n \<mapsto> nextVirtualReg st)\<rparr>"
  using assms
  by (auto simp: assignVirtualRegister_def getVirtualRegister_def freshVirtualRegister_def split: option.splits)

lemma sel_rel_assign:
  assumes "sel_rel g lr W cs st s t" and "assignVirtualRegister n st = (d, st')" and "Suc (nextVirtualReg st) < 2 ^ 32"
  shows "sel_rel g lr W cs st' s t" and "irToVReg st' n = Some d" and "valueTypes st' = valueTypes st"
    and "nextVirtualReg st' \<le> Suc (nextVirtualReg st)"
    and "irToVReg st v = Some w \<Longrightarrow> irToVReg st' v = Some w"
    and "nextVirtualReg st \<le> nextVirtualReg st'"
proof -
  note r = sel_relD [OF assms(1)]
  show "sel_rel g lr W cs st' s t"
    using assign_cases [OF assms(2,3)] assms(1) r(3)
    unfolding sel_rel_def by (auto simp: less_Suc_eq dest: r(3,4)) (metis option.inject option.distinct(1) less_irrefl)+
  show "irToVReg st' n = Some d" "valueTypes st' = valueTypes st" "nextVirtualReg st' \<le> Suc (nextVirtualReg st)"
    "irToVReg st v = Some w \<Longrightarrow> irToVReg st' v = Some w" "nextVirtualReg st \<le> nextVirtualReg st'"
    using assign_cases [OF assms(2,3)] by auto
qed

lemma sel_rel_define:
  assumes "sel_rel g lr W cs st s t" and "irToVReg st n = Some d" and "valueTypes st n = Some ty" and "rep ty a w"
  shows "sel_rel g lr W cs st (s\<lparr>ir_env := (ir_env s)(n \<mapsto> (ty, a))\<rparr>) (t\<lparr>arm_rf := (arm_rf t)(ArmVReg d := w)\<rparr>)"
  using assms by (auto simp: sel_rel_def) (metis)+

lemma sel_rel_scratch:
  assumes "sel_rel g lr W cs st s t" and "nextVirtualReg st \<le> r"
  shows "sel_rel g lr W cs st s (t\<lparr>arm_rf := (arm_rf t)(ArmVReg r := w)\<rparr>)"
  using assms by (fastforce simp: sel_rel_def)

lemma sel_rel_fresh:
  assumes "sel_rel g lr W cs st s t" and "freshVirtualRegister st = (r, st')" and "Suc (nextVirtualReg st) < 2 ^ 32"
  shows "sel_rel g lr W cs st' s t" and "r = nextVirtualReg st" and "nextVirtualReg st' = Suc (nextVirtualReg st)"
    and "irToVReg st' = irToVReg st" and "valueTypes st' = valueTypes st"
  using assms by (auto simp: sel_rel_def freshVirtualRegister_def less_Suc_eq)

lemmas arm_step_simps = arm_exec1.simps arm_set_def arm_move_def op_width_def op_width_type Let_def

lemma member_offsets:
  "g + scast (of_nat offset_guestMemoryBase :: i32) = slot g 35"
  "g + scast (of_nat offset_shadowMemory :: i32) = slot g 33"
  by (simp_all add: slot_def offset_guestMemoryBase_def offset_shadowMemory_def)

lemma registerOffset_all: "list_all (\<lambda>i. scast (registerOffset (of_nat i)) = (8 * of_nat i :: u64)) [0..<32]"
  by code_simp

lemma registerOffset_slot:
  assumes "r < 32"
  shows "g + scast (registerOffset r) = slot g (unat r)"
proof -
  have "unat r < 32" using assms by (simp add: word_less_nat_alt)
  then have "unat r \<in> set [0..<32]" by simp
  with registerOffset_all have "scast (registerOffset (of_nat (unat r))) = (8 * of_nat (unat r) :: u64)"
    unfolding list_all_iff by blast
  then show ?thesis by (simp add: slot_def)
qed

definition sel_sim ::
  "(u64 \<Rightarrow> nat \<Rightarrow> bool) \<Rightarrow> u64 \<Rightarrow> u64 \<Rightarrow> u64 set \<Rightarrow> u64 list \<Rightarrow> selector \<Rightarrow> ir_state \<Rightarrow> arm_state \<Rightarrow>
   (arm_instruction list \<times> selector) result \<Rightarrow> bool" where
  "sel_sim hok g lr W cs st s' t r \<longleftrightarrow>
     (\<exists>insts st' t'. r = Inr (insts, st') \<and> arm_exec hok insts t = Some t' \<and> sel_rel g lr W cs st' s' t' \<and>
        nextVirtualReg st' \<le> nextVirtualReg st + 4)"

text \<open>An instruction that writes the register of a new value.\<close>

lemma sel_sim_define:
  assumes "sel_rel g lr W cs st1 s t1" and "irToVReg st1 n = Some d" and "valueTypes st1 n = Some ty" and "rep ty a w"
    and "arm_exec hok insts t = Some (t1\<lparr>arm_rf := (arm_rf t1)(ArmVReg d := w)\<rparr>)"
    and "nextVirtualReg st1 \<le> nextVirtualReg st + 4"
  shows "sel_sim hok g lr W cs st (s\<lparr>ir_env := (ir_env s)(n \<mapsto> (ty, a))\<rparr>) t (Inr (insts, st1))"
  unfolding sel_sim_def using sel_rel_define [OF assms(1-4)] assms(5,6) by blast

context guest_window
begin

lemma translate_exec:
  assumes r: "sel_rel g lr W cs st s t" and c: "cs ! 1 = shadow" "cs ! 3 = base"
    and gen: "generateAddressTranslation ga st = (insts, h, st')"
    and ga: "ga < nextVirtualReg st" and room: "nextVirtualReg st + 3 < 2 ^ 32"
  shows "\<exists>t'. arm_exec hok insts t = Some t' \<and> sel_rel g lr W cs st' s t' \<and>
    arm_rf t' (ArmVReg h) = arm_rf t (ArmVReg ga) - base + shadow \<and>
    (\<forall>q < nextVirtualReg st. arm_rf t' (ArmVReg q) = arm_rf t (ArmVReg q))"
    and "nextVirtualReg st' = nextVirtualReg st + 3" and "irToVReg st' = irToVReg st" and "valueTypes st' = valueTypes st"
proof -
  let ?n = "nextVirtualReg st"
  from gen room have st': "st' = st\<lparr>nextVirtualReg := ?n + 3\<rparr>" and h: "h = ?n"
    and insts: "insts = [MemoryInst armLDR SizeX (ArmVReg (?n + 1)) (ArmReg X0) (of_nat offset_guestMemoryBase),
           MemoryInst armLDR SizeX (ArmVReg (?n + 2)) (ArmReg X0) (of_nat offset_shadowMemory),
           ThreeOperandInst armSUB SizeX (ArmVReg ?n) (ArmVReg ga) (ArmVReg (?n + 1)),
           ThreeOperandInst armADD SizeX (ArmVReg ?n) (ArmVReg ?n) (ArmVReg (?n + 2))]"
    by (auto simp: generateAddressTranslation_def freshVirtualRegister_def Let_def)
  let ?t = "t\<lparr>arm_rf := (arm_rf t)(ArmVReg (?n + 1) := base, ArmVReg (?n + 2) := shadow,
    ArmVReg ?n := arm_rf t (ArmVReg ga) - base, ArmVReg ?n := arm_rf t (ArmVReg ga) - base + shadow)\<rparr>"
  note gr = sel_relD(7) [OF r]
  have l: "load_le 8 (arm_mem t) (slot g 35) = base" "load_le 8 (arm_mem t) (slot g 33) = shadow"
    using load_member [OF gr, of 35] load_member [OF gr, of 33] c by (simp_all add: members_of_nth)
  have "arm_exec hok insts t = Some ?t"
    unfolding insts using sel_relD(1) [OF r] ga
    by (simp add: arm_step_simps member_offsets members_host l arm_alu_def take_bit_word_eq_self)
  moreover have "sel_rel g lr W cs st' s ?t"
  proof -
    note a = sel_rel_scratch [OF r, of "?n + 1" base]
    note b = sel_rel_scratch [OF a, of "?n + 2" shadow]
    note c = sel_rel_scratch [OF b, of ?n "arm_rf t (ArmVReg ga) - base + shadow"]
    have "sel_rel g lr W cs st s ?t" using c by simp
    then show ?thesis by (auto simp: sel_rel_def st' intro: trans_less_add1)
  qed
  ultimately show "\<exists>t'. arm_exec hok insts t = Some t' \<and> sel_rel g lr W cs st' s t' \<and>
    arm_rf t' (ArmVReg h) = arm_rf t (ArmVReg ga) - base + shadow \<and>
    (\<forall>q < nextVirtualReg st. arm_rf t' (ArmVReg q) = arm_rf t (ArmVReg q))"
    using ga by (intro exI [of _ ?t]) (simp add: h)
  show "nextVirtualReg st' = nextVirtualReg st + 3" "irToVReg st' = irToVReg st" "valueTypes st' = valueTypes st"
    by (simp_all add: st')
qed


lemma sel_assigned:
  assumes "sel_rel g lr W cs st s t" and "ir_env s n = None" and "nextVirtualReg st + 4 < 2 ^ 32"
  obtains d st1 where "assignVirtualRegister n (recordValueType n ty st) = (d, st1)"
    and "sel_rel g lr W cs st1 s t" and "irToVReg st1 n = Some d" and "valueTypes st1 n = Some ty"
    and "nextVirtualReg st1 \<le> nextVirtualReg st + 1"
proof -
  obtain d st1 where a: "assignVirtualRegister n (recordValueType n ty st) = (d, st1)" by fastforce
  have "Suc (nextVirtualReg (recordValueType n ty st)) < 2 ^ 32" using assms(3) by (simp add: recordValueType_def)
  note b = sel_rel_assign [OF sel_rel_type [OF assms(1,2), of ty] a this]
  from that [OF a b(1,2)] b(3,4) show ?thesis by (simp add: recordValueType_def)
qed

lemma select_Const:
  assumes r: "sel_rel g lr W cs st s t" and n: "ir_env s n = None" and room: "nextVirtualReg st + 4 < 2 ^ 32"
    and "selectable (Const ty v)"
  shows "sel_sim hok g lr W cs st (s\<lparr>ir_env := (ir_env s)(n \<mapsto> (ty, take_bit (ir_width ty) v))\<rparr>) t
    (Inr (selectConst ty v n (recordValueType n ty st)))"
proof -
  from sel_assigned [OF r n room, of ty] obtain d st1 where
    d: "assignVirtualRegister n (recordValueType n ty st) = (d, st1)" and
    a: "sel_rel g lr W cs st1 s t" "irToVReg st1 n = Some d" "valueTypes st1 n = Some ty"
      "nextVirtualReg st1 \<le> nextVirtualReg st + 1" by blast
  have "rep ty (take_bit (ir_width ty) v) (take_bit (if ty = i64 then 64 else 32) v)"
    using assms(4) rep_take_bit by simp
  from sel_sim_define [OF a(1-3) this] selectConstIntoRegister_exec [of "ArmVReg d" ty v hok t] assms(4) a(4)
  show ?thesis by (simp add: selectConst_def d)
qed

lemma select_RegRead:
  assumes r: "sel_rel g lr W cs st s t" and n: "ir_env s n = None" and room: "nextVirtualReg st + 4 < 2 ^ 32"
    and "q < 32"
  shows "sel_sim hok g lr W cs st (s\<lparr>ir_env := (ir_env s)(n \<mapsto> (i64, ir_regs s q))\<rparr>) t
    (single (Inr (selectRegRead q n (recordValueType n i64 st))))"
proof -
  from sel_assigned [OF r n room, of i64] obtain d st1 where
    d: "assignVirtualRegister n (recordValueType n i64 st) = (d, st1)" and
    a: "sel_rel g lr W cs st1 s t" "irToVReg st1 n = Some d" "valueTypes st1 n = Some i64"
      "nextVirtualReg st1 \<le> nextVirtualReg st + 1" by blast
  have u: "unat q < 36" using assms(4) by (simp add: word_less_nat_alt)
  have "arm_exec hok [MemoryInst armLDR SizeX (ArmVReg d) (ArmReg X0) (registerOffset q)] t =
      Some (t\<lparr>arm_rf := (arm_rf t)(ArmVReg d := ir_regs s q)\<rparr>)"
    using sel_relD(1) [OF r] load_member [OF sel_relD(7) [OF r] u] members_host [OF u] assms(4)
    by (simp add: arm_step_simps registerOffset_slot members_of_nth)
  from sel_sim_define [OF a(1-3) _ this] a(4) show ?thesis
    by (simp add: selectRegRead_def single_def d)
qed

lemma select_RegWrite:
  assumes r: "sel_rel g lr W cs st s t" and c: "cs ! 1 = shadow" "cs ! 3 = base"
    and "q < 32" and v: "ir_env s v = Some (i64, b)"
  shows "sel_sim hok g lr W cs st (s\<lparr>ir_regs := (ir_regs s)(q := b)\<rparr>) t (single (selectRegWrite q v st))"
proof -
  from sel_rel_lookup [OF r v] obtain w where
    w: "getVirtualRegisterOrThrow v st = Inr w" "rep i64 b (arm_rf t (ArmVReg w))" by blast
  have u: "unat q < 32" using assms(4) by (simp add: word_less_nat_alt)
  let ?m = "store_le 8 b (slot g (unat q)) (arm_mem t)"
  have "arm_exec hok [MemoryInst armSTR SizeX (ArmVReg w) (ArmReg X0) (registerOffset q)] t = Some (t\<lparr>arm_mem := ?m\<rparr>)"
    using sel_relD(1) [OF r] w(2) members_host [of "unat q"] u assms(4)
    by (simp add: arm_step_simps registerOffset_slot)
  moreover have "guest_rel g W (members_of ((ir_regs s)(q := b)) cs) (ir_mem s) ?m"
    unfolding members_of_update [OF assms(4)]
    by (rule store_member [OF sel_relD(7) [OF r]]) (use u c in \<open>simp_all add: members_of_nth\<close>)
  then have "sel_rel g lr W cs st (s\<lparr>ir_regs := (ir_regs s)(q := b)\<rparr>) (t\<lparr>arm_mem := ?m\<rparr>)"
    using r by (simp add: sel_rel_def)
  ultimately show ?thesis by (simp add: sel_sim_def selectRegWrite_def single_def w(1))
qed

lemma select_Load:
  assumes r: "sel_rel g lr W cs st s t" and n: "ir_env s n = None" and room: "nextVirtualReg st + 4 < 2 ^ 32"
    and c: "cs ! 1 = shadow" "cs ! 3 = base"
    and "ty \<noteq> i1" and v: "ir_env s v = Some (i64, addr)" and ok: "ok addr (ir_bytes ty)"
  shows "sel_sim hok g lr W cs st (s\<lparr>ir_env := (ir_env s)(n \<mapsto> (ty, load_le (ir_bytes ty) (ir_mem s) addr))\<rparr>) t
    (selectLoad ty v n (recordValueType n ty st))"
proof -
  from sel_assigned [OF r n room, of ty] obtain d st1 where
    d: "assignVirtualRegister n (recordValueType n ty st) = (d, st1)" and
    a: "sel_rel g lr W cs st1 s t" "irToVReg st1 n = Some d" "valueTypes st1 n = Some ty"
      "nextVirtualReg st1 \<le> nextVirtualReg st + 1" by blast
  from sel_rel_lookup [OF a(1) v] obtain w where
    w: "getVirtualRegisterOrThrow v st1 = Inr w" "arm_rf t (ArmVReg w) = addr" "w < nextVirtualReg st1" by auto
  obtain insts h st2 where gen: "generateAddressTranslation w st1 = (insts, h, st2)" using prod_cases3 by blast
  have "nextVirtualReg st1 + 3 < 2 ^ 32" using a(4) room by simp
  note tr = translate_exec [OF a(1) c gen w(3) this]
  from tr(1) w(2) obtain t1 where t1: "arm_exec hok insts t = Some t1" "sel_rel g lr W cs st2 s t1"
    "arm_rf t1 (ArmVReg h) = addr - base + shadow" by blast
  let ?l = "load_le (ir_bytes ty) (ir_mem s) addr"
  have b: "access_bytes (irTypeToDataSize ty) = ir_bytes ty" by (cases ty) simp_all
  have "load_le (ir_bytes ty) (arm_mem t1) (addr - base + shadow) = ?l"
    using load_window [OF sel_relD(7) [OF t1(2)] ok] c by (simp add: members_of_nth)
  then have "arm_exec hok (insts @ [MemoryInst armLDR (irTypeToDataSize ty) (ArmVReg d) (ArmVReg h) 0]) t =
      Some (t1\<lparr>arm_rf := (arm_rf t1)(ArmVReg d := ?l)\<rparr>)"
    using ok_host [OF ok] by (simp add: arm_exec_append t1 arm_step_simps b)
  moreover have "rep ty ?l ?l"
    using load_le_canonical [of "ir_bytes ty" "ir_mem s" addr] assms(6) by (cases ty) (auto simp: rep_def)
  ultimately have "sel_sim hok g lr W cs st (s\<lparr>ir_env := (ir_env s)(n \<mapsto> (ty, ?l))\<rparr>) t
      (Inr (insts @ [MemoryInst armLDR (irTypeToDataSize ty) (ArmVReg d) (ArmVReg h) 0], st2))"
    using a tr t1 by (intro sel_sim_define [OF t1(2), of n d ty]) simp_all
  then show ?thesis by (simp add: selectLoad_def d w(1) gen)
qed

lemma select_Store:
  assumes r: "sel_rel g lr W cs st s t" and room: "nextVirtualReg st + 4 < 2 ^ 32"
    and c: "cs ! 1 = shadow" "cs ! 3 = base"
    and v: "ir_env s v = Some (ty, b)" and addr: "ir_env s p = Some (i64, addr)" and ok: "ok addr (ir_bytes ty)"
  shows "sel_sim hok g lr W cs st (s\<lparr>ir_mem := store_le (ir_bytes ty) b addr (ir_mem s)\<rparr>) t (selectStore v p st)"
proof -
  from sel_rel_lookup [OF r v] obtain x where x: "getVirtualRegisterOrThrow v st = Inr x" "rep ty b (arm_rf t (ArmVReg x))"
    "getValueType v st = ty" "x < nextVirtualReg st" by blast
  from sel_rel_lookup [OF r addr] obtain w where
    w: "getVirtualRegisterOrThrow p st = Inr w" "arm_rf t (ArmVReg w) = addr" "w < nextVirtualReg st" by auto
  obtain insts h st2 where gen: "generateAddressTranslation w st = (insts, h, st2)" using prod_cases3 by blast
  have "nextVirtualReg st + 3 < 2 ^ 32" using room by simp
  note tr = translate_exec [OF r c gen w(3) this]
  from tr(1) w(2) x(4) obtain t1 where t1: "arm_exec hok insts t = Some t1" "sel_rel g lr W cs st2 s t1"
    "arm_rf t1 (ArmVReg h) = addr - base + shadow" "arm_rf t1 (ArmVReg x) = arm_rf t (ArmVReg x)" by blast
  have n: "access_bytes (irTypeToDataSize ty) = ir_bytes ty" by (cases ty) simp_all
  let ?m = "store_le (ir_bytes ty) b (addr - base + shadow) (arm_mem t1)"
  have "store_le (ir_bytes ty) (arm_rf t (ArmVReg x)) (addr - base + shadow) (arm_mem t1) = ?m"
    using x(2) store_le_take_bit [of "ir_bytes ty" "ir_width ty" "arm_rf t (ArmVReg x)"] by (cases ty) (auto simp: rep_def)
  then have "arm_exec hok (insts @ [MemoryInst armSTR (irTypeToDataSize ty) (ArmVReg x) (ArmVReg h) 0]) t =
      Some (t1\<lparr>arm_mem := ?m\<rparr>)"
    using ok_host [OF ok] by (simp add: arm_exec_append t1 arm_step_simps n)
  moreover have "guest_rel g W (members_of (ir_regs s) cs) (store_le (ir_bytes ty) b addr (ir_mem s)) ?m"
    by (rule store_window [OF sel_relD(7) [OF t1(2)] ok]) (use c in \<open>simp_all add: members_of_nth\<close>)
  then have "sel_rel g lr W cs st2 (s\<lparr>ir_mem := store_le (ir_bytes ty) b addr (ir_mem s)\<rparr>) (t1\<lparr>arm_mem := ?m\<rparr>)"
    using t1(2) by (simp add: sel_rel_def)
  ultimately show ?thesis using tr(2) by (simp add: sel_sim_def selectStore_def x w gen)
qed


lemma select_BinaryOp:
  assumes r: "sel_rel g lr W cs st s t" and n: "ir_env s n = None" and room: "nextVirtualReg st + 4 < 2 ^ 32"
    and sel: "selectable (BinaryOp opc ty u v)"
    and u: "ir_env s u = Some (tu, a)" and v: "ir_env s v = Some (tv, b)" and e: "ir_binop opc ty (tu, a) (tv, b) = Some c"
  shows "sel_sim hok g lr W cs st (s\<lparr>ir_env := (ir_env s)(n \<mapsto> (ty, c))\<rparr>) t
    (selectBinaryOp opc ty u v n (recordValueType n ty st))"
proof -
  from sel_assigned [OF r n room, of ty] obtain d st1 where
    d: "assignVirtualRegister n (recordValueType n ty st) = (d, st1)" and
    as: "sel_rel g lr W cs st1 s t" "irToVReg st1 n = Some d" "valueTypes st1 n = Some ty"
      "nextVirtualReg st1 \<le> nextVirtualReg st + 1" by blast
  from sel_rel_lookup [OF as(1) u] obtain x where
    x: "getVirtualRegisterOrThrow u st1 = Inr x" "rep tu a (arm_rf t (ArmVReg x))" by blast
  from sel_rel_lookup [OF as(1) v] obtain y where
    y: "getVirtualRegisterOrThrow v st1 = Inr y" "rep tv b (arm_rf t (ArmVReg y))" by blast
  show ?thesis
  proof (cases "comparisonCondition opc")
    case (Some cnd)
    then obtain q where q: "ir_compare opc tu a b = Some q" using ir_compare_iff [of opc tu a b] by auto
    with e have ty: "tu = i64" "tv = i64" "c = of_bool q" by (auto simp: ir_binop_def split: if_splits)
    from compare_exec [of opc a b q] q ty Some have h: "condition_holds cnd (compare_flags 64 a b) = q" by simp
    let ?i = "[TwoOperandInst armCMP SizeX (ArmVReg x) (ArmVReg y), ConditionalInst armCSET SizeX (ArmVReg d) cnd]"
    let ?t = "t\<lparr>arm_flags := compare_flags 64 a b\<rparr>"
    have "arm_exec hok ?i t = Some (?t\<lparr>arm_rf := (arm_rf ?t)(ArmVReg d := c)\<rparr>)"
      using x(2) y(2) ty h by (simp add: arm_step_simps)
    moreover have "rep ty c c" using ty(3) by (cases ty; cases q) (simp_all add: rep_def)
    ultimately have "sel_sim hok g lr W cs st (s\<lparr>ir_env := (ir_env s)(n \<mapsto> (ty, c))\<rparr>) t (Inr (?i, st1))"
      using as by (intro sel_sim_define [OF _ as(2,3), of g lr W cs s ?t]) simp_all
    then show ?thesis by (simp add: selectBinaryOp_def d x(1) y(1) Some)
  next
    case None
    then have "ir_compare opc tu a b = None" by (simp add: ir_compare_iff)
    with e have ty: "tu = ty" "tv = ty" "ir_arith opc ty a b = Some c" by (auto simp: ir_binop_def split: if_splits)
    from sel None have ty': "ty \<in> {i32, i64}" by simp
    have w: "op_width (irTypeToDataSize ty) = ir_width ty" using ty' by (auto simp: op_width_def)
    have xy: "arm_rf t (ArmVReg x) = a" "arm_rf t (ArmVReg y) = b" "take_bit (ir_width ty) a = a"
      using x(2) y(2) ty ty' by (auto simp: rep_def)
    from arith_exec [OF ty(3) ty' xy(3)] obtain aopc where
      o: "irBinaryOpToARM64 opc = Inr aopc" "aopc \<noteq> armCMP" "arm_alu aopc (ir_width ty) a b = Some c" by blast
    let ?i = "[ThreeOperandInst aopc (irTypeToDataSize ty) (ArmVReg d) (ArmVReg x) (ArmVReg y)]"
    have "arm_exec hok ?i t = Some (t\<lparr>arm_rf := (arm_rf t)(ArmVReg d := c)\<rparr>)"
      using xy o by (simp add: arm_exec1.simps arm_set_def w)
    moreover have "take_bit (ir_width ty) c = c" using ty(3) by (auto simp: ir_arith_def Let_def)
    then have "rep ty c c" using ty' by (auto simp: rep_def)
    ultimately have "sel_sim hok g lr W cs st (s\<lparr>ir_env := (ir_env s)(n \<mapsto> (ty, c))\<rparr>) t (Inr (?i, st1))"
      using as by (intro sel_sim_define [OF as(1-3)]) simp_all
    then show ?thesis by (simp add: selectBinaryOp_def d x(1) y(1) None o(1))
  qed
qed

lemma select_move:
  assumes r: "sel_rel g lr W cs st s t" and n: "ir_env s n = None" and room: "nextVirtualReg st + 4 < 2 ^ 32"
    and v: "ir_env s v = Some (tv, a)" and opc: "opc \<noteq> armCMP"
    and m: "\<And>w. rep tv a w \<Longrightarrow>
      \<exists>x. arm_move opc (if opc = armSXTW then 64 else op_width (irTypeToDataSize ty)) w = Some x \<and> rep ty c x"
  shows "\<exists>d st1 x. assignVirtualRegister n (recordValueType n ty st) = (d, st1) \<and>
    getVirtualRegisterOrThrow v st1 = Inr x \<and> getValueType v st1 = tv \<and>
    sel_sim hok g lr W cs st (s\<lparr>ir_env := (ir_env s)(n \<mapsto> (ty, c))\<rparr>) t
      (Inr ([TwoOperandInst opc (irTypeToDataSize ty) (ArmVReg d) (ArmVReg x)], st1))"
proof -
  from sel_assigned [OF r n room, of ty] obtain d st1 where
    d: "assignVirtualRegister n (recordValueType n ty st) = (d, st1)" and
    as: "sel_rel g lr W cs st1 s t" "irToVReg st1 n = Some d" "valueTypes st1 n = Some ty"
      "nextVirtualReg st1 \<le> nextVirtualReg st + 1" by blast
  from sel_rel_lookup [OF as(1) v] obtain x where
    x: "getVirtualRegisterOrThrow v st1 = Inr x" "rep tv a (arm_rf t (ArmVReg x))" "getValueType v st1 = tv" by blast
  from m [OF x(2)] obtain y where
    y: "arm_move opc (if opc = armSXTW then 64 else op_width (irTypeToDataSize ty)) (arm_rf t (ArmVReg x)) = Some y" "rep ty c y"
    by blast
  have "sel_sim hok g lr W cs st (s\<lparr>ir_env := (ir_env s)(n \<mapsto> (ty, c))\<rparr>) t
      (Inr ([TwoOperandInst opc (irTypeToDataSize ty) (ArmVReg d) (ArmVReg x)], st1))"
    by (rule sel_sim_define [OF as(1-3) y(2)])
       (use y(1) opc as(4) in \<open>simp_all add: arm_exec1.simps arm_set_def\<close>)
  with d x show ?thesis by blast
qed

lemma select_Sext:
  assumes r: "sel_rel g lr W cs st s t" and n: "ir_env s n = None" and room: "nextVirtualReg st + 4 < 2 ^ 32"
    and v: "ir_env s v = Some (tv, a)" and "tv \<noteq> i1"
  shows "sel_sim hok g lr W cs st (s\<lparr>ir_env := (ir_env s)(n \<mapsto> (i64, signed_take_bit (ir_width tv - 1) a))\<rparr>) t
    (single (selectSext i64 v n (recordValueType n i64 st)))"
proof -
  let ?opc = "case tv of i8 \<Rightarrow> armSXTB | i16 \<Rightarrow> armSXTH | i32 \<Rightarrow> armSXTW | _ \<Rightarrow> armMOV"
  have "\<exists>x. arm_move ?opc (if ?opc = armSXTW then 64 else op_width (irTypeToDataSize i64)) w = Some x \<and>
      rep i64 (signed_take_bit (ir_width tv - 1) a) x" if "rep tv a w" for w
    using that assms(5)
    by (cases tv) (auto simp: arm_move_def op_width_def rep_def take_bit_word_eq_self signed_take_bit_take_bit)
  from select_move [OF r n room v _ this] show ?thesis
    by (cases tv) (auto simp: selectSext_def single_def Let_def)
qed

lemma select_Zext:
  assumes r: "sel_rel g lr W cs st s t" and n: "ir_env s n = None" and room: "nextVirtualReg st + 4 < 2 ^ 32"
    and v: "ir_env s v = Some (tv, a)"
  shows "sel_sim hok g lr W cs st (s\<lparr>ir_env := (ir_env s)(n \<mapsto> (i64, a))\<rparr>) t
    (single (selectZext i64 v n (recordValueType n i64 st)))"
proof -
  let ?opc = "case tv of i8 \<Rightarrow> armUXTB | i16 \<Rightarrow> armUXTH | _ \<Rightarrow> armMOV"
  have "\<exists>x. arm_move ?opc (if ?opc = armSXTW then 64 else op_width (irTypeToDataSize i64)) w = Some x \<and> rep i64 a x"
    if "rep tv a w" for w
    using that by (cases tv) (auto simp: arm_move_def op_width_def rep_def take_bit_word_eq_self)
  from select_move [OF r n room v _ this] show ?thesis
    by (cases tv) (auto simp: selectZext_def single_def Let_def)
qed

lemma select_Trunc:
  assumes r: "sel_rel g lr W cs st s t" and n: "ir_env s n = None" and room: "nextVirtualReg st + 4 < 2 ^ 32"
    and v: "ir_env s v = Some (tv, a)" and ty: "ty \<noteq> i1" and w: "ir_width ty \<le> ir_width tv"
  shows "sel_sim hok g lr W cs st (s\<lparr>ir_env := (ir_env s)(n \<mapsto> (ty, take_bit (ir_width ty) a))\<rparr>) t
    (single (selectTrunc ty v n (recordValueType n ty st)))"
proof -
  have "\<exists>x. arm_move armMOV (if armMOV = armSXTW then 64 else op_width (irTypeToDataSize ty)) w = Some x \<and>
      rep ty (take_bit (ir_width ty) a) x" if "rep tv a w" for w
    using that ty w by (cases ty; cases tv) (auto simp: arm_move_def op_width_def rep_def take_bit_word_eq_self)
  from select_move [OF r n room v _ this] show ?thesis
    by (auto simp: selectTrunc_def single_def)
qed

end

lemma ir_exec1_dom: "ir_exec1 ok inst s = Some s' \<Longrightarrow> dom (ir_env s') \<subseteq> insert (ir_valueId inst) (dom (ir_env s))"
  by (cases "ir_kind inst") (auto simp: ir_exec1.simps bind_eq_Some_conv split: if_splits)

lemma disjoint_step: "A \<subseteq> insert x B \<Longrightarrow> x \<notin> I \<Longrightarrow> B \<inter> I = {} \<Longrightarrow> A \<inter> I = {}"
  by blast

context guest_window
begin

lemma selectInstruction_sim:
  assumes r: "sel_rel g lr W cs st s t" and room: "nextVirtualReg st + 4 < 2 ^ 32" and c: "cs ! 1 = shadow" "cs ! 3 = base"
    and sel: "selectable (ir_kind inst)" and n: "ir_env s (ir_valueId inst) = None" and e: "ir_exec1 ok inst s = Some s'"
  shows "sel_sim hok g lr W cs st s' t (selectInstruction inst st)"
proof -
  note sims = select_Const [OF r n room] select_RegRead [OF r n room] select_RegWrite [OF r c]
    select_Load [OF r n room c] select_Store [OF r room c] select_BinaryOp [OF r n room]
    select_Sext [OF r n room] select_Trunc [OF r n room]
  show ?thesis
    using e sel
    by (cases "ir_kind inst")
       (auto simp: ir_exec1.simps selectInstruction_def bind_eq_Some_conv take_bit_word_eq_self Let_def
         simp del: One_nat_def split: if_splits intro!: sims intro: select_Zext [OF r n room])
qed

lemma selectLoop_sim:
  assumes "sel_rel g lr W cs st s t" and "nextVirtualReg st + 4 * length insts < 2 ^ 32"
    and c: "cs ! 1 = shadow" "cs ! 3 = base"
    and "list_all (\<lambda>i. selectable (ir_kind i)) insts" and "distinct (map ir_valueId insts)"
    and "dom (ir_env s) \<inter> ir_valueId ` set insts = {}" and "ir_exec ok insts s = Some s'"
  shows "\<exists>code st' t'. selectLoop insts st = Inr (code, st') \<and> arm_exec hok code t = Some t' \<and>
    sel_rel g lr W cs st' s' t' \<and> nextVirtualReg st' \<le> nextVirtualReg st + 4 * length insts"
  using assms(1,2,5-)
proof (induction insts arbitrary: st s t)
  case Nil
  then show ?case by simp
next
  case (Cons inst insts)
  from Cons.prems(6) obtain s1 where s1: "ir_exec1 ok inst s = Some s1" "ir_exec ok insts s1 = Some s'"
    by (auto simp: bind_eq_Some_conv)
  have "sel_sim hok g lr W cs st s1 t (selectInstruction inst st)"
    by (rule selectInstruction_sim [OF Cons.prems(1) _ c _ _ s1(1)]) (use Cons.prems in auto)
  then obtain code st1 t1 where 1: "selectInstruction inst st = Inr (code, st1)" "arm_exec hok code t = Some t1"
    "sel_rel g lr W cs st1 s1 t1" "nextVirtualReg st1 \<le> nextVirtualReg st + 4"
    by (auto simp: sel_sim_def)
  have "dom (ir_env s1) \<inter> ir_valueId ` set insts = {}"
    by (rule disjoint_step [OF ir_exec1_dom [OF s1(1)]]) (use Cons.prems(4,5) in simp_all)
  moreover have "nextVirtualReg st1 + 4 * length insts < 2 ^ 32" using 1(4) Cons.prems(2) by simp
  moreover have "list_all (\<lambda>i. selectable (ir_kind i)) insts" "distinct (map ir_valueId insts)"
    using Cons.prems(3,4) by simp_all
  ultimately obtain code2 st2 t2 where
    2: "selectLoop insts st1 = Inr (code2, st2)" "arm_exec hok code2 t1 = Some t2"
      "sel_rel g lr W cs st2 s' t2" "nextVirtualReg st2 \<le> nextVirtualReg st1 + 4 * length insts"
    using Cons.IH [OF 1(3) _ _ _ _ s1(2)] by blast
  from 1 2 have "selectLoop (inst # insts) st = Inr (code @ code2, st2)" "arm_exec hok (code @ code2) t = Some t2"
    by (simp_all add: arm_exec_append)
  moreover have "nextVirtualReg st2 \<le> nextVirtualReg st + 4 * length (inst # insts)" using 1(4) 2(4) by simp
  ultimately show ?case using 2(3) by blast
qed

end

text \<open>The code of a terminator leaves the next program counter in X0.\<close>

definition term_sim ::
  "(u64 \<Rightarrow> nat \<Rightarrow> bool) \<Rightarrow> u64 \<Rightarrow> arm_state \<Rightarrow> (arm_instruction list \<times> selector) result \<Rightarrow> bool" where
  "term_sim hok pc t r \<longleftrightarrow>
     (\<exists>code st' t'. r = Inr (code @ [retInst], st') \<and> arm_exec hok code t = Some t' \<and> arm_rf t' (ArmReg X0) = pc \<and>
        arm_rf t' (ArmReg X30) = arm_rf t (ArmReg X30) \<and> arm_mem t' = arm_mem t)"

lemma selectConst_X0:
  "term_sim hok pc t (Inr (selectConstIntoRegister i64 pc (ArmReg X0) @ [retInst], st))"
proof -
  have "arm_exec hok (selectConstIntoRegister i64 pc (ArmReg X0)) t =
      Some (t\<lparr>arm_rf := (arm_rf t)(ArmReg X0 := take_bit (if i64 = i64 then 64 else 32) pc)\<rparr>)"
    by (rule selectConstIntoRegister_exec) (simp_all add: const_fits_def)
  then show ?thesis unfolding term_sim_def by (auto simp: take_bit_word_eq_self)
qed

lemma selectCondBranch_sim:
  assumes r: "sel_rel g lr W cs st s t" and room: "nextVirtualReg st + 5 < 2 ^ 32" and v: "ir_env s v = Some (i1, a)"
  shows "term_sim hok (if a \<noteq> 0 then x else y) t (selectCondBranch v x y st)"
proof -
  from sel_rel_lookup [OF r v] obtain w where
    w: "getVirtualRegisterOrThrow v st = Inr w" "arm_rf t (ArmVReg w) = a" by (auto simp: rep_def)
  obtain p st1 where 1: "freshVirtualRegister st = (p, st1)" by fastforce
  note f1 = sel_rel_fresh [OF r 1]
  obtain d st2 where 2: "assignVirtualRegister p st1 = (d, st2)" by fastforce
  note a1 = sel_rel_assign [OF f1(1) 2]
  obtain q st3 where 3: "freshVirtualRegister st2 = (q, st3)" by fastforce
  note f2 = sel_rel_fresh [OF a1(1) 3]
  obtain e st4 where 4: "assignVirtualRegister q st3 = (e, st4)" by fastforce
  note a2 = sel_rel_assign [OF f2(1) 4]
  obtain z st5 where 5: "freshVirtualRegister st4 = (z, st5)" by fastforce
  have n: "Suc (nextVirtualReg st) < 2 ^ 32" "Suc (nextVirtualReg st1) < 2 ^ 32" "Suc (nextVirtualReg st2) < 2 ^ 32"
    "Suc (nextVirtualReg st3) < 2 ^ 32"
    using f1(3) a1(4) f2(3) room by auto
  have "p \<noteq> q" using f1(2,3) f2(2) a1(6) n by simp
  moreover have "irToVReg st4 p = Some d" using a2(5) [of p d] a1(2) f2(4) n by simp
  ultimately have "d \<noteq> e" using sel_relD(4) [OF a2(1), of p e q] a2(2) n by auto
  have again: "assignVirtualRegister p st2 = (d, st2)" "assignVirtualRegister q st4 = (e, st4)"
    using a1(2) a2(2) n by (simp_all add: assignVirtualRegister_def getVirtualRegister_def)
  have k: "arm_exec hok (selectConstIntoRegister i64 c (ArmVReg u)) t' =
      Some (t'\<lparr>arm_rf := (arm_rf t')(ArmVReg u := c)\<rparr>)" for c u t'
    using selectConstIntoRegister_exec [of "ArmVReg u" i64 c hok t'] by (simp add: const_fits_def take_bit_word_eq_self)
  let ?code = "[TwoOperandInst armCMP SizeX (ArmVReg w) (ArmImm 0)] @ selectConstIntoRegister i64 x (ArmVReg d) @
    selectConstIntoRegister i64 y (ArmVReg e) @
    [ConditionalSelectInst armCSEL SizeX (ArmVReg z) (ArmVReg d) (ArmVReg e) condNE,
     TwoOperandInst armMOV SizeX (ArmReg X0) (ArmVReg z)]"
  have "selectCondBranch v x y st = Inr (?code @ [retInst], st5)"
    unfolding selectCondBranch_def by (simp add: w(1) 1 2 3 4 5 again selectConst_def Let_def)
  moreover have "\<exists>t'. arm_exec hok ?code t = Some t' \<and> arm_rf t' (ArmReg X0) = (if a \<noteq> 0 then x else y) \<and>
      arm_rf t' (ArmReg X30) = arm_rf t (ArmReg X30) \<and> arm_mem t' = arm_mem t"
    using \<open>d \<noteq> e\<close> condition_holds_compare(2) [of a 0]
    by (simp add: arm_exec_append k arm_step_simps w(2) take_bit_word_eq_self)
  ultimately show ?thesis unfolding term_sim_def by blast
qed

lemma selectTerminator_sim:
  assumes r: "sel_rel g lr W cs st s t" and room: "nextVirtualReg st + 5 < 2 ^ 32" and e: "ir_next trm s = Some pc"
  shows "term_sim hok pc t (selectTerminator trm st)"
proof (cases trm)
  case (Branch x)
  with e selectConst_X0 show ?thesis by (simp add: selectTerminator_def)
next
  case (CondBranch v x y)
  with e obtain a where "ir_env s v = Some (i1, a)" and "pc = (if a \<noteq> 0 then x else y)"
    by (auto simp: bind_eq_Some_conv split: if_splits)
  with CondBranch selectCondBranch_sim [OF r room] show ?thesis by (simp add: selectTerminator_def)
next
  case (Return w)
  show ?thesis
  proof (cases w)
    case None
    with Return e selectConst_X0 show ?thesis by (simp add: selectTerminator_def)
  next
    case (Some v)
    with Return e have v: "ir_env s v = Some (i64, pc)" by (auto simp: bind_eq_Some_conv split: if_splits)
    from sel_rel_lookup [OF r v] obtain w where "getVirtualRegisterOrThrow v st = Inr w" "arm_rf t (ArmVReg w) = pc" by auto
    then show ?thesis
      using Return Some
      by (auto simp: selectTerminator_def term_sim_def arm_step_simps take_bit_word_eq_self
          intro!: exI [of _ "[TwoOperandInst armMOV SizeX (ArmReg X0) (ArmVReg w)]"])
  qed
qed

context guest_window
begin

text \<open>Selected code returns the next program counter and leaves the guest state of the IR block.\<close>

lemma selectInstructions_run:
  assumes "guest_rel g W (members_of regs cs) gm (arm_mem t)" and c: "cs ! 1 = shadow" "cs ! 3 = base"
    and x: "arm_rf t (ArmReg X0) = g" "arm_rf t (ArmReg X30) = lr"
    and "list_all (\<lambda>i. selectable (ir_kind i)) (instructions blk)" and "distinct (map ir_valueId (instructions blk))"
    and room: "4 * length (instructions blk) + 5 < 2 ^ 32"
    and run: "ir_run ok blk regs gm = Some (pc, regs', gm')"
  shows "\<exists>code st hm. selectInstructions blk InstructionSelector_init = Inr (code, st) \<and>
    arm_run hok lr code t = Some (pc, hm) \<and> guest_rel g W (members_of regs' cs) gm' hm"
proof -
  let ?s = "\<lparr> ir_env = Map.empty, ir_regs = regs, ir_mem = gm \<rparr>"
  from run obtain s' where s': "ir_exec ok (instructions blk) ?s = Some s'" "ir_next (terminator blk) s' = Some pc"
    "regs' = ir_regs s'" "gm' = ir_mem s'"
    by (auto simp: ir_run_def bind_eq_Some_conv)
  have "sel_rel g lr W cs InstructionSelector_init ?s t"
    using assms(1) x by (simp add: sel_rel_def InstructionSelector_init_def)
  from selectLoop_sim [OF this _ c assms(6,7) _ s'(1)] room obtain code st1 t1 where
    1: "selectLoop (instructions blk) InstructionSelector_init = Inr (code, st1)" "arm_exec hok code t = Some t1"
      "sel_rel g lr W cs st1 s' t1" "nextVirtualReg st1 \<le> 4 * length (instructions blk)"
    by (auto simp: InstructionSelector_init_def)
  have "nextVirtualReg st1 + 5 < 2 ^ 32" using 1(4) room by simp
  from selectTerminator_sim [OF 1(3) this s'(2), of hok] obtain code2 st2 t2 where
    2: "selectTerminator (terminator blk) st1 = Inr (code2 @ [retInst], st2)" "arm_exec hok code2 t1 = Some t2"
      "arm_rf t2 (ArmReg X0) = pc" "arm_rf t2 (ArmReg X30) = lr" "arm_mem t2 = arm_mem t1"
    using sel_relD(2) [OF 1(3)] by (auto simp: term_sim_def)
  have "arm_run hok lr (code @ code2 @ [retInst]) t = Some (pc, arm_mem t1)"
    using 2(3-) by (simp add: arm_run_append [OF 1(2)] arm_run_append [OF 2(2)] retInst_def)
  moreover have "selectInstructions blk InstructionSelector_init = Inr (code @ code2 @ [retInst], st2)"
    by (simp add: selectInstructions_def 1(1) 2(1))
  ultimately show ?thesis using sel_relD(7) [OF 1(3)] s'(3,4) by blast
qed

end

subsection \<open>The selector theorems\<close>

text \<open>
  C6: the code selected for an IR block returns, from every host state whose memory holds the guest
  state and the guest's memory, the program counter the IR block continues at, and leaves the guest
  registers and the guest memory of the IR block there; the other members of the guest state and
  all host memory outside it and the shadow memory are unchanged.
\<close>

theorem selectInstructions_correct:
  assumes "guest_rel g (window g base shadow sz) (members_of regs [pc0, shadow, msize, base]) gm (arm_mem t)"
    and "arm_rf t (ArmReg X0) = g"
    and "list_all (\<lambda>i. selectable (ir_kind i)) (instructions blk)" and "distinct (map ir_valueId (instructions blk))"
    and "4 * length (instructions blk) + 5 < 2 ^ 32"
    and "ir_run (guest_ok g base shadow sz) blk regs gm = Some (pc, regs', gm')"
  shows "\<exists>code st hm. selectInstructions blk InstructionSelector_init = Inr (code, st) \<and>
    arm_run (host_ok g shadow sz) (arm_rf t (ArmReg X30)) code t = Some (pc, hm) \<and>
    guest_rel g (window g base shadow sz) (members_of regs' [pc0, shadow, msize, base]) gm' hm \<and>
    (\<forall>x. x \<notin> region g sizeof_GuestState \<longrightarrow> \<not> unat (x - shadow) < sz \<longrightarrow> hm x = arm_mem t x)"
proof -
  from gw.selectInstructions_run [OF assms(1) _ _ assms(2) refl assms(3-6)] obtain code st hm where
    "selectInstructions blk InstructionSelector_init = Inr (code, st)"
    "arm_run (host_ok g shadow sz) (arm_rf t (ArmReg X30)) code t = Some (pc, hm)"
    "guest_rel g (window g base shadow sz) (members_of regs' [pc0, shadow, msize, base]) gm' hm"
    by auto
  moreover from arm_run_frame [OF this(2)] have "hm x = arm_mem t x"
    if "x \<notin> region g sizeof_GuestState" "\<not> unat (x - shadow) < sz" for x
    using that by (auto simp: host_ok_def)
  ultimately show ?thesis by blast
qed

lemma load_le_zero [simp]: "load_le n (\<lambda>_. 0) a = 0"
  by (induction n arbitrary: a) simp_all

lemma guest_rel_zero: "guest_rel g W (members_of (\<lambda>_. 0) [0, 0, c, 0]) (\<lambda>_. 0) (\<lambda>_. 0) \<longleftrightarrow> c = 0"
proof -
  have "members_of (\<lambda>_. 0) [0, 0, c, 0] ! i = (if i = 34 then c else 0)" if "i < 36" for i
    using that by (auto simp: members_of_def nth_append nth_Cons' )
  then show ?thesis by (auto simp: guest_rel_def members_of_def)
qed

theorem selectInstructions_correct_witness:
  "\<exists>code st hm. selectInstructions
       \<lparr> instructions = [\<lparr>ir_valueId = 1, ir_kind = Const i64 7\<rparr>, \<lparr>ir_valueId = 2, ir_kind = RegWrite 5 1\<rparr>],
         terminator = Branch 0x1040 \<rparr> InstructionSelector_init = Inr (code, st) \<and>
     arm_run (host_ok 0x8000 0 4096) 0 code
       \<lparr> arm_rf = (\<lambda>_. 0)(ArmReg X0 := 0x8000), arm_flags = \<lparr>flag_n = False, flag_z = False, flag_c = False, flag_v = False\<rparr>,
         arm_mem = \<lambda>_. 0 \<rparr> = Some (0x1040, hm) \<and>
     guest_rel 0x8000 (window 0x8000 0 0 4096) (members_of ((\<lambda>_. 0)(5 := 7)) [0, 0, 0, 0]) (\<lambda>_. 0) hm"
proof -
  let ?b = "\<lparr> instructions = [\<lparr>ir_valueId = 1, ir_kind = Const i64 7\<rparr>, \<lparr>ir_valueId = 2, ir_kind = RegWrite 5 1\<rparr>],
    terminator = Branch 0x1040 \<rparr>"
  let ?t = "\<lparr> arm_rf = (\<lambda>_. 0)(ArmReg X0 := 0x8000), arm_flags = \<lparr>flag_n = False, flag_z = False, flag_c = False, flag_v = False\<rparr>,
    arm_mem = \<lambda>_. 0 \<rparr>"
  have "guest_rel 0x8000 (window 0x8000 0 0 4096) (members_of (\<lambda>_. 0) [0, 0, 0, 0]) (\<lambda>_. 0) (arm_mem ?t)"
    by (simp add: guest_rel_zero)
  moreover have "arm_rf ?t (ArmReg X0) = 0x8000" by simp
  moreover have "list_all (\<lambda>i. selectable (ir_kind i)) (instructions ?b)" by (simp add: const_fits_def)
  moreover have "distinct (map ir_valueId (instructions ?b))" by simp
  moreover have "4 * length (instructions ?b) + 5 < 2 ^ 32" by simp
  moreover have "ir_run (guest_ok 0x8000 0 0 4096) ?b (\<lambda>_. 0) (\<lambda>_. 0) = Some (0x1040, (\<lambda>_. 0)(5 := 7), \<lambda>_. 0)"
    by (simp add: ir_run_def ir_exec1.simps)
  ultimately show ?thesis using selectInstructions_correct [of "0x8000" 0 0 4096 "\<lambda>_. 0" 0 0 "\<lambda>_. 0" ?t ?b] by auto
qed

end
