(* ===== verification/LivenessAnalysis.thy ===== *)
theory LivenessAnalysis
  imports Arm64
begin

text \<open>
  \<open>lib/Lowering/LivenessAnalysis.cpp\<close>: use and definition sites of the virtual registers of an
  instruction sequence and their live intervals. A \<open>std::set\<close> is the sorted list of its members.
  The iteration over the hash table \<open>defSites\<close> has an unspecified order: the keys are kept in
  insertion order and the order of the iteration is the parameter \<open>order\<close>. \<open>LinearScan\<close> shows
  that the intervals returned do not depend on it.
\<close>

record live_interval =
  li_vreg :: virtual_register
  li_start :: nat
  li_end :: nat

definition overlaps :: "live_interval \<Rightarrow> live_interval \<Rightarrow> bool" where
  "overlaps a b = (\<not> (li_end a < li_start b \<or> li_start a > li_end b))"

record liveness =
  defKeys :: "virtual_register list"
  defSites :: "virtual_register \<rightharpoonup> nat"
  useSites :: "virtual_register \<rightharpoonup> nat list"

definition std_set :: "nat list \<Rightarrow> nat list" where
  "std_set xs = sort (remdups xs)"

fun getVirtualRegisterFromOperand :: "arm_operand \<Rightarrow> virtual_register option" where
  "getVirtualRegisterFromOperand (ArmVReg v) = Some v"
| "getVirtualRegisterFromOperand _ = None"

text \<open>\<open>if (auto vreg = getVirtualRegisterFromOperand(op)) set.insert(*vreg)\<close>\<close>

definition vreg_list :: "arm_operand \<Rightarrow> virtual_register list" where
  "vreg_list op = (case getVirtualRegisterFromOperand op of Some v \<Rightarrow> [v] | None \<Rightarrow> [])"

fun getUsedVirtualRegisters :: "arm_instruction \<Rightarrow> virtual_register list" where
  "getUsedVirtualRegisters (ThreeOperandInst opc sz d s1 s2) = std_set (vreg_list s1 @ vreg_list s2)"
| "getUsedVirtualRegisters (TwoOperandInst opc sz d s) =
     std_set (vreg_list s @ (if opc = armCMP then vreg_list d else []))"
| "getUsedVirtualRegisters (MemoryInst opc sz r b off) =
     std_set (vreg_list b @ (if opc = armSTR then vreg_list r else []))"
| "getUsedVirtualRegisters (ConditionalSelectInst opc sz d s1 s2 c) = std_set (vreg_list s1 @ vreg_list s2)"
| "getUsedVirtualRegisters (MoveWideInst opc sz d imm16 sh) = std_set []"
| "getUsedVirtualRegisters (BranchInst opc target) = std_set []"
| "getUsedVirtualRegisters (ConditionalInst opc sz d c) = std_set []"

fun getDefinedVirtualRegisters :: "arm_instruction \<Rightarrow> virtual_register list" where
  "getDefinedVirtualRegisters (ThreeOperandInst opc sz d s1 s2) = std_set (vreg_list d)"
| "getDefinedVirtualRegisters (TwoOperandInst opc sz d s) = std_set (if opc \<noteq> armCMP then vreg_list d else [])"
| "getDefinedVirtualRegisters (MemoryInst opc sz r b off) = std_set (if opc = armLDR then vreg_list r else [])"
| "getDefinedVirtualRegisters (MoveWideInst opc sz d imm16 sh) = std_set (vreg_list d)"
| "getDefinedVirtualRegisters (ConditionalInst opc sz d c) = std_set (vreg_list d)"
| "getDefinedVirtualRegisters (ConditionalSelectInst opc sz d s1 s2 c) = std_set (vreg_list d)"
| "getDefinedVirtualRegisters (BranchInst opc target) = std_set []"

subsection \<open>Use and definition sites\<close>

definition addDef :: "nat \<Rightarrow> virtual_register \<Rightarrow> liveness \<Rightarrow> liveness" where
  "addDef i v st =
     st\<lparr> defKeys := (if defSites st v = None then defKeys st @ [v] else defKeys st),
         defSites := (defSites st)(v \<mapsto> i) \<rparr>"

definition addUse :: "nat \<Rightarrow> virtual_register \<Rightarrow> liveness \<Rightarrow> liveness" where
  "addUse i v st =
     st\<lparr> useSites := (useSites st)(v \<mapsto> (case useSites st v of Some us \<Rightarrow> us | None \<Rightarrow> []) @ [i]) \<rparr>"

fun computeUseDefLoop :: "nat \<Rightarrow> arm_instruction list \<Rightarrow> liveness \<Rightarrow> liveness" where
  "computeUseDefLoop i [] st = st"
| "computeUseDefLoop i (inst # rest) st =
     (let st = fold (addDef i) (getDefinedVirtualRegisters inst) st;
          st = fold (addUse i) (getUsedVirtualRegisters inst) st
      in computeUseDefLoop (Suc i) rest st)"

definition computeUseDef :: "arm_instruction list \<Rightarrow> liveness" where
  "computeUseDef insts = computeUseDefLoop 0 insts \<lparr> defKeys = [], defSites = Map.empty, useSites = Map.empty \<rparr>"

subsection \<open>Live intervals\<close>

text \<open>The interval of one entry of \<open>defSites\<close>; \<open>*std::max_element\<close> of a non-empty vector.\<close>

definition makeInterval :: "liveness \<Rightarrow> virtual_register \<Rightarrow> live_interval" where
  "makeInterval st v =
     (let defSite = (case defSites st v of Some i \<Rightarrow> i | None \<Rightarrow> 0)
      in \<lparr> li_vreg = v, li_start = defSite,
           li_end = (case useSites st v of Some us \<Rightarrow> fold max us 0 | None \<Rightarrow> defSite) \<rparr>)"

definition computeLiveIntervals :: "(nat list \<Rightarrow> nat list) \<Rightarrow> arm_instruction list \<Rightarrow> live_interval list" where
  "computeLiveIntervals order insts =
     (let st = computeUseDef insts
      in sort_key li_start (map (makeInterval st) (order (defKeys st))))"

end
