(* ===== verification/RegisterAllocator.thy ===== *)
theory RegisterAllocator
  imports LivenessAnalysis
begin

text \<open>
  \<open>lib/Lowering/RegisterAllocator.cpp\<close>: linear-scan register allocation without spilling. The
  members of the class are the record \<open>allocator\<close>. \<open>allocateRegisters\<close> updates the instructions in
  place and returns a flag; here it returns the flag, the instructions and the state. When no
  register is free it returns \<open>False\<close> with the instructions unchanged.
\<close>

record allocator =
  allocation :: "virtual_register \<rightharpoonup> arm_register"
  activeIntervals :: "(live_interval \<times> arm_register) list"

definition RegisterAllocator_init :: allocator where
  "RegisterAllocator_init = \<lparr> allocation = Map.empty, activeIntervals = [] \<rparr>"

definition availableRegisters :: "arm_register list" where
  "availableRegisters =
     [X1, X2, X3, X4, X5, X6, X7, X8, X9, X10, X11, X12, X13, X14, X15, X16, X17, X18,
      X19, X20, X21, X22, X23, X24, X25, X26, X27, X28]"

subsection \<open>The scan\<close>

definition getNextAvailableRegister :: "allocator \<Rightarrow> arm_register option" where
  "getNextAvailableRegister st =
     find (\<lambda>reg. \<not> list_ex (\<lambda>active. snd active = reg) (activeIntervals st)) availableRegisters"

definition expireOldIntervals :: "nat \<Rightarrow> allocator \<Rightarrow> allocator" where
  "expireOldIntervals currentPoint st =
     st\<lparr> activeIntervals := filter (\<lambda>active. \<not> li_end (fst active) < currentPoint) (activeIntervals st) \<rparr>"

text \<open>The \<open>for\<close> loop over the intervals; the flag is false when it returns early.\<close>

fun scanIntervals :: "live_interval list \<Rightarrow> allocator \<Rightarrow> bool \<times> allocator" where
  "scanIntervals [] st = (True, st)"
| "scanIntervals (interval # rest) st =
     (let st = expireOldIntervals (li_start interval) st
      in case getNextAvailableRegister st of
           None \<Rightarrow> (False, st)
         | Some physReg \<Rightarrow>
             scanIntervals rest
               (st\<lparr> allocation := (allocation st)(li_vreg interval \<mapsto> physReg),
                    activeIntervals := activeIntervals st @ [(interval, physReg)] \<rparr>))"

subsection \<open>Rewriting the instructions\<close>

definition getPhysicalRegister :: "virtual_register \<Rightarrow> allocator \<Rightarrow> arm_register option" where
  "getPhysicalRegister vreg st = allocation st vreg"

definition getPhysicalRegisterOrThrow :: "virtual_register \<Rightarrow> allocator \<Rightarrow> arm_register result" where
  "getPhysicalRegisterOrThrow vreg st =
     (case getPhysicalRegister vreg st of
        Some reg \<Rightarrow> Inr reg
      | None \<Rightarrow> Inl (LoweringError (''No physical register assigned to virtual register '' @ dec_string vreg)))"

fun replaceOperandRegister :: "arm_operand \<Rightarrow> allocator \<Rightarrow> arm_operand result" where
  "replaceOperandRegister (ArmReg r) st = Inr (ArmReg r)"
| "replaceOperandRegister (ArmVReg v) st = bindR (getPhysicalRegisterOrThrow v st) (\<lambda>r. Inr (ArmReg r))"
| "replaceOperandRegister (ArmImm i) st = Inr (ArmImm i)"

fun replaceVirtualRegisters :: "arm_instruction \<Rightarrow> allocator \<Rightarrow> arm_instruction result" where
  "replaceVirtualRegisters (ThreeOperandInst opc sz d s1 s2) st =
     bindR (replaceOperandRegister d st) (\<lambda>d. bindR (replaceOperandRegister s1 st) (\<lambda>s1.
     bindR (replaceOperandRegister s2 st) (\<lambda>s2. Inr (ThreeOperandInst opc sz d s1 s2))))"
| "replaceVirtualRegisters (TwoOperandInst opc sz d s) st =
     bindR (replaceOperandRegister d st) (\<lambda>d. bindR (replaceOperandRegister s st) (\<lambda>s.
     Inr (TwoOperandInst opc sz d s)))"
| "replaceVirtualRegisters (MemoryInst opc sz r b off) st =
     bindR (replaceOperandRegister r st) (\<lambda>r. bindR (replaceOperandRegister b st) (\<lambda>b.
     Inr (MemoryInst opc sz r b off)))"
| "replaceVirtualRegisters (MoveWideInst opc sz d imm16 sh) st =
     bindR (replaceOperandRegister d st) (\<lambda>d. Inr (MoveWideInst opc sz d imm16 sh))"
| "replaceVirtualRegisters (BranchInst opc target) st = Inr (BranchInst opc target)"
| "replaceVirtualRegisters (ConditionalInst opc sz d c) st =
     bindR (replaceOperandRegister d st) (\<lambda>d. Inr (ConditionalInst opc sz d c))"
| "replaceVirtualRegisters (ConditionalSelectInst opc sz d s1 s2 c) st =
     bindR (replaceOperandRegister d st) (\<lambda>d. bindR (replaceOperandRegister s1 st) (\<lambda>s1.
     bindR (replaceOperandRegister s2 st) (\<lambda>s2. Inr (ConditionalSelectInst opc sz d s1 s2 c))))"

definition allocateRegisters ::
  "arm_instruction list \<Rightarrow> live_interval list \<Rightarrow> (bool \<times> arm_instruction list \<times> allocator) result" where
  "allocateRegisters insts liveIntervals =
     (let (success, st) = scanIntervals liveIntervals RegisterAllocator_init
      in if success then bindR (mapR (\<lambda>inst. replaceVirtualRegisters inst st) insts) (\<lambda>insts. Inr (True, insts, st))
         else Inr (False, insts, st))"

end
