(* ===== verification/Colouring.thy ===== *)
theory Colouring
  imports RegisterAllocator Arm64Semantics
begin

text \<open>
  What an assignment of registers must satisfy for allocated code to behave as the code over virtual
  registers. \<open>live\<close> is the exact backward liveness of straight-line code (MOVK reads the register it
  writes, which \<open>getUsedVirtualRegisters\<close> does not say); an assignment is a \<open>colouring\<close> when no
  instruction overwrites the register of a value that is still live. The locale \<open>register_allocation\<close> is the
  contract of an allocator; the simulation is proved from it.
\<close>

definition writes :: "arm_instruction \<Rightarrow> nat set" where
  "writes inst = set (getDefinedVirtualRegisters inst)"

fun kept_operand :: "arm_instruction \<Rightarrow> nat list" where
  "kept_operand (MoveWideInst opc sz d imm16 sh) = (if opc = armMOVK then vreg_list d else [])"
| "kept_operand _ = []"

definition reads :: "arm_instruction \<Rightarrow> nat set" where
  "reads inst = set (getUsedVirtualRegisters inst) \<union> set (kept_operand inst)"

fun live :: "arm_instruction list \<Rightarrow> nat set" where
  "live [] = {}"
| "live (inst # rest) = (live rest - writes inst) \<union> reads inst"

fun colouring :: "(nat \<rightharpoonup> arm_register) \<Rightarrow> arm_instruction list \<Rightarrow> bool" where
  "colouring al [] \<longleftrightarrow> True"
| "colouring al (inst # rest) \<longleftrightarrow>
     (\<forall>d \<in> writes inst. \<forall>v \<in> live rest. v \<noteq> d \<longrightarrow> al v \<noteq> al d) \<and> colouring al rest"

text \<open>The code the lowering produces names X0 and X30 and no other physical register.\<close>

fun plain_operand :: "arm_operand \<Rightarrow> bool" where
  "plain_operand (ArmReg r) \<longleftrightarrow> r \<in> {X0, X30}"
| "plain_operand _ \<longleftrightarrow> True"

fun plain :: "arm_instruction \<Rightarrow> bool" where
  "plain (ThreeOperandInst opc sz d s1 s2) \<longleftrightarrow> opc \<noteq> armCMP \<and> plain_operand d \<and> plain_operand s1 \<and> plain_operand s2"
| "plain (TwoOperandInst opc sz d s) \<longleftrightarrow> plain_operand d \<and> plain_operand s"
| "plain (MemoryInst opc sz r b off) \<longleftrightarrow> opc \<in> {armLDR, armSTR} \<and> plain_operand r \<and> plain_operand b"
| "plain (MoveWideInst opc sz d imm16 sh) \<longleftrightarrow> plain_operand d"
| "plain (BranchInst opc target) \<longleftrightarrow> True"
| "plain (ConditionalInst opc sz d c) \<longleftrightarrow> plain_operand d"
| "plain (ConditionalSelectInst opc sz d s1 s2 c) \<longleftrightarrow> plain_operand d \<and> plain_operand s1 \<and> plain_operand s2"

subsection \<open>Renaming\<close>

fun rename :: "(nat \<rightharpoonup> arm_register) \<Rightarrow> arm_operand \<Rightarrow> arm_operand" where
  "rename al (ArmVReg v) = (case al v of Some r \<Rightarrow> ArmReg r | None \<Rightarrow> ArmVReg v)"
| "rename al op = op"

fun rename_inst :: "(nat \<rightharpoonup> arm_register) \<Rightarrow> arm_instruction \<Rightarrow> arm_instruction" where
  "rename_inst al (ThreeOperandInst opc sz d s1 s2) = ThreeOperandInst opc sz (rename al d) (rename al s1) (rename al s2)"
| "rename_inst al (TwoOperandInst opc sz d s) = TwoOperandInst opc sz (rename al d) (rename al s)"
| "rename_inst al (MemoryInst opc sz r b off) = MemoryInst opc sz (rename al r) (rename al b) off"
| "rename_inst al (MoveWideInst opc sz d imm16 sh) = MoveWideInst opc sz (rename al d) imm16 sh"
| "rename_inst al (BranchInst opc target) = BranchInst opc target"
| "rename_inst al (ConditionalInst opc sz d c) = ConditionalInst opc sz (rename al d) c"
| "rename_inst al (ConditionalSelectInst opc sz d s1 s2 c) =
     ConditionalSelectInst opc sz (rename al d) (rename al s1) (rename al s2) c"

lemma set_vreg_list [simp]: "set (vreg_list op) = (case op of ArmVReg v \<Rightarrow> {v} | _ \<Rightarrow> {})"
  by (cases op) (simp_all add: vreg_list_def)

lemma set_std_set [simp]: "set (std_set xs) = set xs"
  by (simp add: std_set_def)

text \<open>The virtual registers an instruction names.\<close>

fun vregs :: "arm_instruction \<Rightarrow> nat list" where
  "vregs (ThreeOperandInst opc sz d s1 s2) = vreg_list d @ vreg_list s1 @ vreg_list s2"
| "vregs (TwoOperandInst opc sz d s) = vreg_list d @ vreg_list s"
| "vregs (MemoryInst opc sz r b off) = vreg_list r @ vreg_list b"
| "vregs (MoveWideInst opc sz d imm16 sh) = vreg_list d"
| "vregs (BranchInst opc target) = []"
| "vregs (ConditionalInst opc sz d c) = vreg_list d"
| "vregs (ConditionalSelectInst opc sz d s1 s2 c) = vreg_list d @ vreg_list s1 @ vreg_list s2"

lemma replaceOperandRegister_Inr:
  "replaceOperandRegister op st = Inr op' \<longleftrightarrow> op' = rename (allocation st) op \<and> set (vreg_list op) \<subseteq> dom (allocation st)"
  by (cases op) (auto simp: getPhysicalRegisterOrThrow_def getPhysicalRegister_def split: option.splits)

lemma replaceVirtualRegisters_Inr:
  "replaceVirtualRegisters inst st = Inr inst' \<longleftrightarrow>
     inst' = rename_inst (allocation st) inst \<and> set (vregs inst) \<subseteq> dom (allocation st)"
  by (cases inst) (auto simp: bindR_Inr_iff replaceOperandRegister_Inr simp del: set_vreg_list)

lemma vregs_plain: "plain inst \<Longrightarrow> set (vregs inst) = reads inst \<union> writes inst"
  by (cases inst) (auto simp: reads_def writes_def simp del: set_vreg_list split: if_splits)

lemma vregs_rename:
  assumes "set (vregs inst) \<subseteq> dom al"
  shows "vregs (rename_inst al inst) = []"
proof -
  have "vreg_list (rename al op) = []" if "set (vreg_list op) \<subseteq> dom al" for op
    using that by (cases op) (auto simp: vreg_list_def)
  then show ?thesis using assms by (cases inst) (simp_all del: set_vreg_list)
qed

subsection \<open>Simulation\<close>

text \<open>The allocated code runs on a state that agrees on the live values, X0, X30, flags and memory.\<close>

definition agree :: "(nat \<rightharpoonup> arm_register) \<Rightarrow> nat set \<Rightarrow> arm_state \<Rightarrow> arm_state \<Rightarrow> bool" where
  "agree al L t t' \<longleftrightarrow>
     (\<forall>v \<in> L. \<exists>r. al v = Some r \<and> arm_rf t' (ArmReg r) = arm_rf t (ArmVReg v)) \<and>
     arm_rf t' (ArmReg X0) = arm_rf t (ArmReg X0) \<and> arm_rf t' (ArmReg X30) = arm_rf t (ArmReg X30) \<and>
     arm_flags t' = arm_flags t \<and> arm_mem t' = arm_mem t"

definition usable :: "(nat \<rightharpoonup> arm_register) \<Rightarrow> bool" where
  "usable al \<longleftrightarrow> ran al \<inter> {X0, X30, XSP} = {}"

lemma agree_mono: "agree al L t t' \<Longrightarrow> M \<subseteq> L \<Longrightarrow> agree al M t t'"
  by (auto simp: agree_def)

lemma agree_flags: "agree al L t t' \<Longrightarrow> agree al L (t\<lparr>arm_flags := f\<rparr>) (t'\<lparr>arm_flags := f\<rparr>)"
  by (simp add: agree_def)

lemma agree_mem: "agree al L t t' \<Longrightarrow> agree al L (t\<lparr>arm_mem := m\<rparr>) (t'\<lparr>arm_mem := m\<rparr>)"
  by (simp add: agree_def)

lemma agree_value:
  assumes "agree al L t t'" and "usable al" and "plain_operand op" and "set (vreg_list op) \<subseteq> L" and "arm_value op t = Some x"
  shows "arm_value (rename al op) t' = Some x"
proof (cases op)
  case (ArmVReg v)
  with assms obtain r where "al v = Some r" "arm_rf t' (ArmReg r) = x" by (auto simp: agree_def)
  moreover from this assms(2) have "r \<noteq> XSP" by (auto simp: usable_def ran_def)
  ultimately show ?thesis using ArmVReg by simp
qed (use assms in \<open>auto simp: agree_def\<close>)

lemma agree_set:
  assumes "agree al (L - set (vreg_list d)) t t'" and "usable al" and "plain_operand d"
    and "set (vreg_list d) \<subseteq> dom al" and "\<And>v w. w \<in> set (vreg_list d) \<Longrightarrow> v \<in> L \<Longrightarrow> v \<noteq> w \<Longrightarrow> al v \<noteq> al w"
    and "arm_set d x t = Some u"
  shows "\<exists>u'. arm_set (rename al d) x t' = Some u' \<and> agree al L u u'"
proof (cases d)
  case (ArmVReg w)
  with assms(4) obtain r where r: "al w = Some r" by auto
  with assms(2) have n: "r \<noteq> X0" "r \<noteq> X30" "r \<noteq> XSP" by (auto simp: usable_def ran_def)
  have o: "\<exists>q. al v = Some q \<and> q \<noteq> r \<and> arm_rf t' (ArmReg q) = arm_rf t (ArmVReg v)" if "v \<in> L" "v \<noteq> w" for v
    using assms(1,5) that r ArmVReg by (fastforce simp: agree_def)
  show ?thesis
    using assms(1,6) ArmVReg r n o by (fastforce simp: agree_def arm_set_def)
next
  case (ArmReg r)
  then have r: "r = X0 \<or> r = X30" using assms(3) by auto
  have "q \<noteq> r" if "al v = Some q" for v q using that assms(2) r by (auto simp: usable_def ran_def)
  with ArmReg assms(1,6) r show ?thesis by (fastforce simp: agree_def arm_set_def)
next
  case (ArmImm i)
  with assms(6) show ?thesis by (simp add: arm_set_def)
qed

text \<open>What the step of one instruction needs of the two states and of the colouring, and what that gives for the operands.\<close>

definition renamable :: "(nat \<rightharpoonup> arm_register) \<Rightarrow> nat set \<Rightarrow> arm_instruction \<Rightarrow> arm_state \<Rightarrow> arm_state \<Rightarrow> bool" where
  "renamable al L inst t t' \<longleftrightarrow> agree al ((L - writes inst) \<union> reads inst) t t' \<and> usable al \<and> plain inst \<and>
     set (vregs inst) \<subseteq> dom al \<and> (\<forall>w \<in> writes inst. \<forall>v \<in> L. v \<noteq> w \<longrightarrow> al v \<noteq> al w)"

lemma renamable_plain: "renamable al L inst t t' \<Longrightarrow> plain inst \<and> set (vregs inst) \<subseteq> dom al"
  by (simp add: renamable_def)

lemma renamable_same: "renamable al L inst t t' \<Longrightarrow> arm_flags t' = arm_flags t \<and> arm_mem t' = arm_mem t"
  by (simp add: renamable_def agree_def)

lemma renamable_agree: "renamable al L inst t t' \<Longrightarrow> writes inst = {} \<Longrightarrow> agree al L t t'"
  by (auto simp: renamable_def intro: agree_mono)

lemma renamable_value:
  assumes "renamable al L inst t t'" and "arm_value op t = Some x" and "plain_operand op" and "set (vreg_list op) \<subseteq> reads inst"
  shows "arm_value (rename al op) t' = Some x"
  by (rule agree_value [OF _ _ assms(3) _ assms(2)]) (use assms(1,4) in \<open>auto simp: renamable_def simp del: set_vreg_list intro: agree_mono\<close>)

lemma renamable_set:
  assumes r: "renamable al L inst t t'" and s: "arm_set op x t = Some u" and w: "writes inst = set (vreg_list op)"
    and p: "plain_operand op" and d: "set (vreg_list op) \<subseteq> dom al"
  shows "\<exists>u'. arm_set (rename al op) x t' = Some u' \<and> agree al L u u'"
  by (rule agree_set [OF agree_mono _ p d _ s]) (use r w in \<open>auto simp: renamable_def simp del: set_vreg_list\<close>)

lemma exec1_rename_ThreeOperandInst:
  assumes i: "inst = ThreeOperandInst opc sz dst s1 s2" and r: "renamable al L inst t t'" and e: "arm_exec1 ok inst t = Some u"
  shows "\<exists>u'. arm_exec1 ok (rename_inst al inst) t' = Some u' \<and> agree al L u u'"
proof -
  from e i renamable_plain [OF r] obtain x y v where v: "arm_value s1 t = Some x" "arm_value s2 t = Some y" "arm_alu opc (op_width sz) x y = Some v"
    "arm_set dst v t = Some u" by (auto simp: arm_exec1.simps bind_eq_Some_conv)
  from renamable_value [OF r v(1)] renamable_value [OF r v(2)] renamable_set [OF r v(4)] v(3) i renamable_plain [OF r]
  show ?thesis by (auto simp: arm_exec1.simps reads_def writes_def simp del: set_vreg_list)
qed

lemma exec1_rename_TwoOperandInst:
  assumes i: "inst = TwoOperandInst opc sz dst s2" and r: "renamable al L inst t t'" and e: "arm_exec1 ok inst t = Some u"
  shows "\<exists>u'. arm_exec1 ok (rename_inst al inst) t' = Some u' \<and> agree al L u u'"
proof (cases "opc = armCMP")
  case True
  with e i obtain x y where v: "arm_value s2 t = Some y" "arm_value dst t = Some x"
    "u = t\<lparr>arm_flags := compare_flags (op_width sz) x y\<rparr>" by (auto simp: arm_exec1.simps bind_eq_Some_conv)
  have "agree al L t t'" by (rule renamable_agree [OF r]) (use i True in \<open>simp add: writes_def\<close>)
  with v renamable_value [OF r v(1)] renamable_value [OF r v(2)] i True renamable_plain [OF r] show ?thesis
    by (auto simp: arm_exec1.simps reads_def simp del: set_vreg_list intro: agree_flags)
next
  case False
  with e i obtain y v where v: "arm_value s2 t = Some y"
    "arm_move opc (if opc = armSXTW then 64 else op_width sz) y = Some v" "arm_set dst v t = Some u"
    by (auto simp: arm_exec1.simps bind_eq_Some_conv)
  from v(2) renamable_value [OF r v(1)] renamable_set [OF r v(3)] i False renamable_plain [OF r] show ?thesis
    by (auto simp: arm_exec1.simps reads_def writes_def simp del: set_vreg_list)
qed

lemma exec1_rename_MemoryInst:
  assumes i: "inst = MemoryInst opc sz rg b off" and r: "renamable al L inst t t'" and e: "arm_exec1 ok inst t = Some u"
  shows "\<exists>u'. arm_exec1 ok (rename_inst al inst) t' = Some u' \<and> agree al L u u'"
proof -
  from e i obtain x where x: "arm_value b t = Some x" by (auto simp: arm_exec1.simps bind_eq_Some_conv)
  have b: "arm_value (rename al b) t' = Some x"
    by (rule renamable_value [OF r x]) (use i renamable_plain [OF r] in \<open>auto simp: reads_def simp del: set_vreg_list\<close>)
  show ?thesis
  proof (cases "opc = armLDR")
    case True
    with renamable_set [OF r, of rg] i e x b renamable_plain [OF r] renamable_same [OF r] show ?thesis
      by (auto simp: arm_exec1.simps writes_def Let_def simp del: set_vreg_list split: if_splits)
  next
    case False
    with e i x obtain v where s: "opc = armSTR" "arm_value rg t = Some v" "ok (x + scast off) (access_bytes sz)"
      "u = t\<lparr>arm_mem := store_le (access_bytes sz) v (x + scast off) (arm_mem t)\<rparr>"
      by (auto simp: arm_exec1.simps bind_eq_Some_conv Let_def split: if_splits)
    have "agree al L t t'" by (rule renamable_agree [OF r]) (use i False in \<open>simp add: writes_def\<close>)
    moreover have "arm_value (rename al rg) t' = Some v"
      by (rule renamable_value [OF r s(2)]) (use i s renamable_plain [OF r] in \<open>auto simp: reads_def simp del: set_vreg_list\<close>)
    ultimately show ?thesis using i s b by (auto simp: arm_exec1.simps agree_def)
  qed
qed

lemma exec1_rename_MoveWideInst:
  assumes i: "inst = MoveWideInst opc sz dst imm16 sh" and r: "renamable al L inst t t'" and e: "arm_exec1 ok inst t = Some u"
  shows "\<exists>u'. arm_exec1 ok (rename_inst al inst) t' = Some u' \<and> agree al L u u'"
proof (cases "opc = armMOVZ")
  case True
  with renamable_set [OF r, of dst] i e renamable_plain [OF r] show ?thesis
    by (auto simp: arm_exec1.simps writes_def simp del: set_vreg_list split: if_splits)
next
  case False
  with e i obtain x where s: "opc = armMOVK" "arm_value dst t = Some x" "wide_shift sz sh"
    "arm_set dst (take_bit (op_width sz) (keep_chunk x imm16 (unat sh))) t = Some u"
    by (auto simp: arm_exec1.simps bind_eq_Some_conv split: if_splits)
  moreover have "arm_value (rename al dst) t' = Some x"
    by (rule renamable_value [OF r s(2)]) (use i s renamable_plain [OF r] in \<open>auto simp: reads_def simp del: set_vreg_list\<close>)
  ultimately show ?thesis using renamable_set [OF r s(4)] i renamable_plain [OF r]
    by (auto simp: arm_exec1.simps writes_def simp del: set_vreg_list)
qed

lemma exec1_rename_ConditionalSelectInst:
  assumes i: "inst = ConditionalSelectInst opc sz dst s1 s2 cnd" and r: "renamable al L inst t t'" and e: "arm_exec1 ok inst t = Some u"
  shows "\<exists>u'. arm_exec1 ok (rename_inst al inst) t' = Some u' \<and> agree al L u u'"
proof -
  from e i obtain x y where v: "opc = armCSEL" "arm_value s1 t = Some x" "arm_value s2 t = Some y"
    "arm_set dst (take_bit (op_width sz) (if condition_holds cnd (arm_flags t) then x else y)) t = Some u"
    by (auto simp: arm_exec1.simps bind_eq_Some_conv split: if_splits)
  then show ?thesis
    using renamable_value [OF r v(2)] renamable_value [OF r v(3)] renamable_set [OF r v(4)] i renamable_plain [OF r]
      renamable_same [OF r]
    by (auto simp: arm_exec1.simps reads_def writes_def simp del: set_vreg_list)
qed

lemma exec1_rename:
  assumes e: "arm_exec1 ok inst t = Some u" and a: "agree al ((L - writes inst) \<union> reads inst) t t'"
    and al: "usable al" and p: "plain inst" and d: "set (vregs inst) \<subseteq> dom al"
    and c: "\<And>w v. w \<in> writes inst \<Longrightarrow> v \<in> L \<Longrightarrow> v \<noteq> w \<Longrightarrow> al v \<noteq> al w"
  shows "\<exists>u'. arm_exec1 ok (rename_inst al inst) t' = Some u' \<and> agree al L u u'"
proof -
  from assms have r: "renamable al L inst t t'" unfolding renamable_def by blast
  show ?thesis
  proof (cases inst)
    case (BranchInst opc target)
    with e show ?thesis by (simp add: arm_exec1.simps)
  next
    case (ConditionalInst opc sz dst cnd)
    with renamable_set [OF r, of dst] e p d renamable_same [OF r] show ?thesis
      by (auto simp: arm_exec1.simps writes_def simp del: set_vreg_list split: if_splits)
  qed (rule exec1_rename_ThreeOperandInst exec1_rename_TwoOperandInst exec1_rename_MemoryInst exec1_rename_MoveWideInst
        exec1_rename_ConditionalSelectInst; (rule r e | assumption))+
qed

lemma is_return_rename:
  assumes "usable al"
  shows "is_return (rename_inst al inst) \<longleftrightarrow> is_return inst"
proof (cases inst)
  case (TwoOperandInst opc sz d s)
  have "rename al s = ArmReg X30 \<longleftrightarrow> s = ArmReg X30"
    using assms by (cases s) (auto simp: usable_def ran_def split: option.splits)
  with TwoOperandInst show ?thesis by simp
qed simp_all

lemma run_rename:
  assumes "arm_run ok lr code t = Some res" and "agree al (live code) t t'" and "usable al"
    and "list_all plain code" and "\<forall>inst \<in> set code. set (vregs inst) \<subseteq> dom al" and "colouring al code"
  shows "arm_run ok lr (map (rename_inst al) code) t' = Some res"
  using assms(1,2,4-6)
proof (induction code arbitrary: t t')
  case Nil
  then show ?case by simp
next
  case (Cons inst code)
  show ?case
  proof (cases "is_return inst")
    case True
    with Cons.prems(1,2) show ?thesis by (auto simp: is_return_rename [OF assms(3)] agree_def split: if_splits)
  next
    case False
    with Cons.prems(1) obtain u where u: "arm_exec1 ok inst t = Some u" "arm_run ok lr code u = Some res"
      by (auto simp: bind_eq_Some_conv)
    have "\<exists>u'. arm_exec1 ok (rename_inst al inst) t' = Some u' \<and> agree al (live code) u u'"
      by (rule exec1_rename [OF u(1) _ assms(3)]) (use Cons.prems in auto)
    then obtain u' where u': "arm_exec1 ok (rename_inst al inst) t' = Some u'" "agree al (live code) u u'" by blast
    have "arm_run ok lr (map (rename_inst al) code) u' = Some res"
      by (rule Cons.IH [OF u(2) u'(2)]) (use Cons.prems in auto)
    with u' False show ?thesis by (simp add: is_return_rename [OF assms(3)])
  qed
qed


subsection \<open>The contract of an allocator\<close>

locale register_allocation =
  fixes assign :: "arm_instruction list \<Rightarrow> (nat \<rightharpoonup> arm_register) option"
    and suitable :: "arm_instruction list \<Rightarrow> bool"
  assumes suitable_plain: "suitable code \<Longrightarrow> list_all plain code"
    and suitable_live: "suitable code \<Longrightarrow> live code = {}"
    and assign_usable: "suitable code \<Longrightarrow> assign code = Some al \<Longrightarrow> usable al"
    and assign_dom: "suitable code \<Longrightarrow> assign code = Some al \<Longrightarrow> inst \<in> set code \<Longrightarrow> reads inst \<union> writes inst \<subseteq> dom al"
    and assign_colouring: "suitable code \<Longrightarrow> assign code = Some al \<Longrightarrow> colouring al code"
begin

lemma assign_vregs:
  assumes "suitable code" and "assign code = Some al" and "inst \<in> set code"
  shows "set (vregs inst) \<subseteq> dom al"
  using assign_dom [OF assms] suitable_plain [OF assms(1)] assms(3) vregs_plain by (auto simp: list_all_iff)

lemma allocated_run:
  assumes "suitable code" and "assign code = Some al" and "arm_run ok lr code t = Some res"
    and "arm_rf t' (ArmReg X0) = arm_rf t (ArmReg X0)" and "arm_rf t' (ArmReg X30) = arm_rf t (ArmReg X30)"
    and "arm_flags t' = arm_flags t" and "arm_mem t' = arm_mem t"
  shows "arm_run ok lr (map (rename_inst al) code) t' = Some res"
proof (rule run_rename [OF assms(3)])
  show "agree al (live code) t t'" using assms by (simp add: agree_def suitable_live)
qed (use assms suitable_plain assign_usable assign_vregs assign_colouring in blast)+

lemma allocated_rewrite:
  assumes "suitable code" and "assign code = Some (allocation st)"
  shows "mapR (\<lambda>inst. replaceVirtualRegisters inst st) code = Inr (map (rename_inst (allocation st)) code)"
  using assign_vregs [OF assms]
  by (auto simp: mapR_Inr_iff list_all2_map2 list.rel_refl_strong replaceVirtualRegisters_Inr intro!: list.rel_refl_strong)

end

end
