(* ===== verification/LinearScan.thy ===== *)
theory LinearScan
  imports Colouring
begin

text \<open>
  The linear scan of \<open>RegisterAllocator\<close> with the intervals of \<open>LivenessAnalysis\<close>. The scan never
  gives the same register to two intervals that overlap and fails only when more intervals meet
  than there are registers; the intervals do not depend on the iteration order of the hash table.
  For code whose definitions of one register follow each other (\<open>clustered\<close>) the assignment is a
  colouring, so the scan fulfils the contract \<open>register_allocation\<close> and the allocated code runs as
  the code over virtual registers. For other code it need not: see \<open>LoweringCorrect\<close>.
\<close>

subsection \<open>The scan\<close>

text \<open>
  After the intervals \<open>P\<close>: each has a register of the pool; an interval whose end is not before the
  start of a later one is still active; an interval that starts inside an earlier one has another
  register.
\<close>

definition scan_inv :: "live_interval list \<Rightarrow> allocator \<Rightarrow> bool" where
  "scan_inv P st \<longleftrightarrow>
     dom (allocation st) = li_vreg ` set P \<and> ran (allocation st) \<subseteq> set availableRegisters \<and>
     (\<forall>a \<in> set P. \<forall>c. (\<forall>b \<in> set P. li_start b \<le> c) \<longrightarrow> c \<le> li_end a \<longrightarrow>
        (\<exists>r. allocation st (li_vreg a) = Some r \<and> (a, r) \<in> set (activeIntervals st))) \<and>
     sorted_wrt (\<lambda>a b. li_start b \<le> li_end a \<longrightarrow> allocation st (li_vreg a) \<noteq> allocation st (li_vreg b)) P"

lemma scan_inv_init: "scan_inv [] RegisterAllocator_init"
  by (simp add: scan_inv_def RegisterAllocator_init_def)

lemma getNextAvailableRegister_Some:
  assumes "getNextAvailableRegister st = Some r"
  shows "r \<in> set availableRegisters" and "(a, r) \<notin> set (activeIntervals st)"
  using assms by (auto simp: getNextAvailableRegister_def find_Some_iff list_ex_iff)

lemma scan_step:
  assumes inv: "scan_inv P st" and s: "\<forall>a \<in> set P. li_start a \<le> li_start i" and n: "li_vreg i \<notin> li_vreg ` set P"
    and r: "getNextAvailableRegister (expireOldIntervals (li_start i) st) = Some r"
  shows "scan_inv (P @ [i]) (st\<lparr>allocation := (allocation st)(li_vreg i \<mapsto> r),
    activeIntervals := activeIntervals (expireOldIntervals (li_start i) st) @ [(i, r)]\<rparr>)"
    (is "scan_inv _ ?st")
proof -
  note avail = getNextAvailableRegister_Some [OF r]
  have keep: "(a, q) \<in> set (activeIntervals st) \<Longrightarrow> li_start i \<le> li_end a \<Longrightarrow>
      (a, q) \<in> set (activeIntervals (expireOldIntervals (li_start i) st))" for a q
    by (simp add: expireOldIntervals_def)
  have other: "li_vreg a \<noteq> li_vreg i" if "a \<in> set P" for a using that n by (metis image_eqI)
  have act: "\<exists>q. allocation st (li_vreg a) = Some q \<and> (a, q) \<in> set (activeIntervals (expireOldIntervals (li_start i) st))"
    if "a \<in> set P" "li_start i \<le> li_end a" for a
    using inv s that keep unfolding scan_inv_def by blast
  have "dom (allocation ?st) = li_vreg ` set (P @ [i])" using inv by (auto simp: scan_inv_def)
  moreover have "ran (allocation ?st) \<subseteq> set availableRegisters"
    using inv avail(1) by (auto simp: scan_inv_def ran_def)
  moreover have "\<exists>q. allocation ?st (li_vreg a) = Some q \<and> (a, q) \<in> set (activeIntervals ?st)"
    if "a \<in> set (P @ [i])" "\<forall>b \<in> set (P @ [i]). li_start b \<le> c" "c \<le> li_end a" for a c
    using that act [of a] other [of a] by (cases "a \<in> set P") auto
  moreover have "sorted_wrt (\<lambda>a b. li_start b \<le> li_end a \<longrightarrow> allocation ?st (li_vreg a) \<noteq> allocation ?st (li_vreg b)) (P @ [i])"
  proof -
    have "sorted_wrt (\<lambda>a b. li_start b \<le> li_end a \<longrightarrow> allocation ?st (li_vreg a) \<noteq> allocation ?st (li_vreg b)) P"
      by (rule sorted_wrt_mono_rel [of _ "\<lambda>a b. li_start b \<le> li_end a \<longrightarrow> allocation st (li_vreg a) \<noteq> allocation st (li_vreg b)"])
         (use inv other in \<open>auto simp: scan_inv_def\<close>)
    moreover have "allocation ?st (li_vreg a) \<noteq> allocation ?st (li_vreg i)" if "a \<in> set P" "li_start i \<le> li_end a" for a
      using act [OF that] avail(2) [of a] other [OF that(1)] by auto
    ultimately show ?thesis by (simp add: sorted_wrt_append)
  qed
  ultimately show ?thesis unfolding scan_inv_def by blast
qed

lemma sorted_wrt_strict:
  assumes "sorted (map f xs)" and "sorted_wrt R xs" and "a \<in> set xs" and "b \<in> set xs" and "f a < (f b :: nat)"
  shows "R a b"
proof -
  from assms(3,4) obtain i j where i: "i < length xs" "xs ! i = a" and j: "j < length xs" "xs ! j = b"
    by (auto simp: in_set_conv_nth)
  have "i < j"
  proof (rule ccontr)
    assume "\<not> i < j"
    then have "f b \<le> f a" using assms(1) i j by (auto simp: sorted_iff_nth_mono dest: spec [of _ j])
    with assms(5) show False by simp
  qed
  with assms(2) i j show ?thesis by (auto simp: sorted_wrt_iff_nth_less)
qed

lemma scanIntervals_inv:
  assumes "scanIntervals ivs st = (True, st')" and "scan_inv P st"
    and "sorted (map li_start (P @ ivs))" and "distinct (map li_vreg (P @ ivs))"
  shows "scan_inv (P @ ivs) st'"
  using assms
proof (induction ivs arbitrary: P st)
  case Nil
  then show ?case by simp
next
  case (Cons i ivs)
  let ?st = "expireOldIntervals (li_start i) st"
  from Cons.prems(1) obtain r where r: "getNextAvailableRegister ?st = Some r"
    and rec: "scanIntervals ivs (?st\<lparr>allocation := (allocation ?st)(li_vreg i \<mapsto> r),
      activeIntervals := activeIntervals ?st @ [(i, r)]\<rparr>) = (True, st')"
    by (auto simp: Let_def split: option.splits)
  have s: "\<forall>a \<in> set P. li_start a \<le> li_start i" and n: "li_vreg i \<notin> li_vreg ` set P"
    using Cons.prems(3,4) by (auto simp: sorted_append)
  from Cons.IH [of _ "P @ [i]"] scan_step [OF Cons.prems(2) s n r] rec Cons.prems(3,4) show ?case
    by (simp add: expireOldIntervals_def)
qed

subsection \<open>Definition and use sites\<close>

lemma computeUseDefLoop_append:
  "computeUseDefLoop i (xs @ ys) st = computeUseDefLoop (i + length xs) ys (computeUseDefLoop i xs st)"
  by (induction xs arbitrary: i st) (simp_all add: Let_def)

lemma fold_addDef:
  "defSites (fold (addDef i) vs st) v = (if v \<in> set vs then Some i else defSites st v)"
  "useSites (fold (addDef i) vs st) = useSites st"
  "set (defKeys st) = dom (defSites st) \<Longrightarrow> set (defKeys (fold (addDef i) vs st)) = dom (defSites (fold (addDef i) vs st))"
  "set (defKeys st) = dom (defSites st) \<Longrightarrow> distinct (defKeys st) \<Longrightarrow> distinct (defKeys (fold (addDef i) vs st))"
proof -
  show "defSites (fold (addDef i) vs st) v = (if v \<in> set vs then Some i else defSites st v)"
    by (induction vs arbitrary: st) (auto simp: addDef_def)
  show "useSites (fold (addDef i) vs st) = useSites st"
    by (induction vs arbitrary: st) (auto simp: addDef_def)
  have one: "set (defKeys (addDef i w st)) = dom (defSites (addDef i w st))"
    "distinct (defKeys st) \<Longrightarrow> distinct (defKeys (addDef i w st))"
    if "set (defKeys st) = dom (defSites st)" for st w
    using that by (auto simp: addDef_def)
  show "set (defKeys st) = dom (defSites st) \<Longrightarrow> set (defKeys (fold (addDef i) vs st)) = dom (defSites (fold (addDef i) vs st))"
    by (induction vs arbitrary: st) (simp_all add: one)
  show "set (defKeys st) = dom (defSites st) \<Longrightarrow> distinct (defKeys st) \<Longrightarrow> distinct (defKeys (fold (addDef i) vs st))"
    by (induction vs arbitrary: st) (simp_all add: one)
qed

definition sites :: "liveness \<Rightarrow> nat \<Rightarrow> nat list" where
  "sites st v = (case useSites st v of Some us \<Rightarrow> us | None \<Rightarrow> [])"

lemma fold_addUse:
  "defSites (fold (addUse i) vs st) = defSites st" "defKeys (fold (addUse i) vs st) = defKeys st"
  "set (sites (fold (addUse i) vs st) v) = set (sites st v) \<union> (if v \<in> set vs then {i} else {})"
proof -
  show "defSites (fold (addUse i) vs st) = defSites st" "defKeys (fold (addUse i) vs st) = defKeys st"
    by (induction vs arbitrary: st) (auto simp: addUse_def)
  show "set (sites (fold (addUse i) vs st) v) = set (sites st v) \<union> (if v \<in> set vs then {i} else {})"
    by (induction vs arbitrary: st) (auto simp: addUse_def sites_def split: option.splits if_splits)
qed

lemma computeUseDef_snoc:
  "computeUseDef (xs @ [x]) =
     fold (addUse (length xs)) (getUsedVirtualRegisters x) (fold (addDef (length xs)) (getDefinedVirtualRegisters x) (computeUseDef xs))"
  by (simp add: computeUseDef_def computeUseDefLoop_append Let_def)

lemma defSites_iff:
  "defSites (computeUseDef code) v = Some k \<longleftrightarrow>
     k < length code \<and> v \<in> writes (code ! k) \<and> (\<forall>m. k < m \<longrightarrow> m < length code \<longrightarrow> v \<notin> writes (code ! m))"
proof (induction code rule: rev_induct)
  case Nil
  then show ?case by (simp add: computeUseDef_def)
next
  case (snoc x xs)
  show ?case
    by (auto simp: computeUseDef_snoc fold_addUse fold_addDef snoc nth_append writes_def [symmetric] less_Suc_eq
        split: if_splits)
qed

lemma sites_iff: "set (sites (computeUseDef code) v) = {k. k < length code \<and> v \<in> set (getUsedVirtualRegisters (code ! k))}"
proof (induction code rule: rev_induct)
  case Nil
  then show ?case by (simp add: computeUseDef_def sites_def)
next
  case (snoc x xs)
  have d: "sites (fold (addDef i) vs st) v = sites st v" for i vs st by (simp add: sites_def fold_addDef)
  show ?case by (auto simp: computeUseDef_snoc fold_addUse d snoc nth_append)
qed

lemma defKeys_computeUseDef:
  "set (defKeys (computeUseDef code)) = dom (defSites (computeUseDef code)) \<and> distinct (defKeys (computeUseDef code))"
proof (induction code rule: rev_induct)
  case Nil
  then show ?case by (simp add: computeUseDef_def)
next
  case (snoc x xs)
  then show ?case
    using fold_addDef(3,4) [of "computeUseDef xs"] by (simp add: computeUseDef_snoc fold_addUse)
qed


lemma sorted_computeLiveIntervals: "sorted (map li_start (computeLiveIntervals order code))"
  by (simp add: computeLiveIntervals_def Let_def)

text \<open>The order of the iteration over the hash table: every key once.\<close>

definition visits_once :: "(nat list \<Rightarrow> nat list) \<Rightarrow> bool" where
  "visits_once order \<longleftrightarrow> (\<forall>ks. mset (order ks) = mset ks)"

lemma set_computeLiveIntervals:
  assumes "visits_once order"
  shows "set (computeLiveIntervals order code) = makeInterval (computeUseDef code) ` dom (defSites (computeUseDef code))"
    and "distinct (map li_vreg (computeLiveIntervals order code))"
proof -
  let ?st = "computeUseDef code"
  have m: "mset (order (defKeys ?st)) = mset (defKeys ?st)" using assms by (simp add: visits_once_def)
  then have k: "set (order (defKeys ?st)) = dom (defSites ?st)" "distinct (order (defKeys ?st))"
    using defKeys_computeUseDef [of code] by (metis mset_eq_setD, metis mset_eq_imp_distinct_iff)
  then show "set (computeLiveIntervals order code) = makeInterval ?st ` dom (defSites ?st)"
    by (simp add: computeLiveIntervals_def Let_def)
  have "mset (map li_vreg (computeLiveIntervals order code)) = mset (order (defKeys ?st))"
    by (simp add: computeLiveIntervals_def Let_def makeInterval_def image_mset.compositionality o_def)
  with k(2) show "distinct (map li_vreg (computeLiveIntervals order code))"
    by (metis mset_eq_imp_distinct_iff)
qed

lemma makeInterval_simps:
  assumes "defSites (computeUseDef code) v = Some k"
  shows "li_vreg (makeInterval (computeUseDef code) v) = v" and "li_start (makeInterval (computeUseDef code) v) = k"
    and "u < length code \<Longrightarrow> v \<in> set (getUsedVirtualRegisters (code ! u)) \<Longrightarrow> u \<le> li_end (makeInterval (computeUseDef code) v)"
proof -
  show "li_vreg (makeInterval (computeUseDef code) v) = v" "li_start (makeInterval (computeUseDef code) v) = k"
    using assms by (simp_all add: makeInterval_def Let_def)
  assume "u < length code" and "v \<in> set (getUsedVirtualRegisters (code ! u))"
  then have u: "u \<in> set (sites (computeUseDef code) v)" by (simp add: sites_iff)
  have "x \<le> fold max us z" if "x \<in> set us \<or> x \<le> z" for x z :: nat and us
    using that by (induction us arbitrary: z) (auto intro: max.coboundedI1 max.coboundedI2)
  with u show "u \<le> li_end (makeInterval (computeUseDef code) v)"
    by (auto simp: makeInterval_def Let_def sites_def split: option.splits)
qed

subsection \<open>Code whose intervals are exact\<close>

text \<open>
  The interval of a register starts at its last definition. That is enough for code in which the
  definitions of a register follow each other, the inner ones read no other register, and no
  register is read before it is defined.
\<close>

definition clustered :: "arm_instruction list \<Rightarrow> bool" where
  "clustered code \<longleftrightarrow>
     (\<forall>k < length code. \<forall>j < k. \<forall>i < j. \<forall>v \<in> writes (code ! i). v \<in> writes (code ! k) \<longrightarrow>
        v \<in> writes (code ! j) \<and> set (getUsedVirtualRegisters (code ! j)) \<subseteq> {v})"

definition defined_first :: "arm_instruction list \<Rightarrow> bool" where
  "defined_first code \<longleftrightarrow> (\<forall>u < length code. \<forall>v \<in> reads (code ! u). \<exists>i < u. v \<in> writes (code ! i))"

lemma writes_single: "v \<in> writes inst \<Longrightarrow> w \<in> writes inst \<Longrightarrow> v = w"
  by (cases inst) (auto simp: writes_def split: if_splits arm_operand.splits)

lemma live_iff: "v \<in> live code \<longleftrightarrow> (\<exists>u < length code. v \<in> reads (code ! u) \<and> (\<forall>j < u. v \<notin> writes (code ! j)))"
proof (induction code)
  case Nil
  then show ?case by simp
next
  case (Cons inst code)
  show ?case
  proof
    assume "v \<in> live (inst # code)"
    then consider "v \<in> reads inst" | "v \<in> live code" "v \<notin> writes inst" by auto
    then show "\<exists>u < length (inst # code). v \<in> reads ((inst # code) ! u) \<and> (\<forall>j < u. v \<notin> writes ((inst # code) ! j))"
    proof cases
      case 1
      then show ?thesis by (intro exI [of _ 0]) simp
    next
      case 2
      with Cons obtain u where "u < length code" "v \<in> reads (code ! u)" "\<forall>j < u. v \<notin> writes (code ! j)" by blast
      with 2 show ?thesis by (intro exI [of _ "Suc u"]) (auto simp: less_Suc_eq_0_disj)
    qed
  next
    assume "\<exists>u < length (inst # code). v \<in> reads ((inst # code) ! u) \<and> (\<forall>j < u. v \<notin> writes ((inst # code) ! j))"
    then obtain u where u: "u < length (inst # code)" "v \<in> reads ((inst # code) ! u)" "\<forall>j < u. v \<notin> writes ((inst # code) ! j)"
      by blast
    show "v \<in> live (inst # code)"
    proof (cases u)
      case 0
      with u show ?thesis by simp
    next
      case (Suc k)
      with u have "v \<in> live code" unfolding Cons by (intro exI [of _ k]) (auto dest: spec [of _ "Suc _"])
      with u Suc show ?thesis by auto
    qed
  qed
qed

lemma colouring_iff:
  "colouring al code \<longleftrightarrow>
     (\<forall>i < length code. \<forall>d \<in> writes (code ! i). \<forall>v \<in> live (drop (Suc i) code). v \<noteq> d \<longrightarrow> al v \<noteq> al d)"
  by (induction code) (auto simp: all_conj_distrib less_Suc_eq_0_disj)

lemma live_drop:
  assumes "v \<in> live (drop (Suc i) code)"
  obtains u where "i < u" and "u < length code" and "v \<in> reads (code ! u)" and "\<And>j. i < j \<Longrightarrow> j < u \<Longrightarrow> v \<notin> writes (code ! j)"
proof -
  from assms obtain u where u: "u < length (drop (Suc i) code)" "v \<in> reads (drop (Suc i) code ! u)"
    "\<forall>j < u. v \<notin> writes (drop (Suc i) code ! j)" by (auto simp: live_iff)
  show ?thesis
  proof (rule that [of "Suc i + u"])
    fix j assume "i < j" and "j < Suc i + u"
    then have "j - Suc i < u" and "drop (Suc i) code ! (j - Suc i) = code ! j" using u(1) by auto
    with u(3) show "v \<notin> writes (code ! j)" by metis
  qed (use u in auto)
qed


text \<open>A value live after an instruction and the register that instruction defines have overlapping intervals.\<close>

lemma live_interval_overlaps:
  assumes cl: "clustered code" and df: "defined_first code" and i: "i < length code" and d: "d \<in> writes (code ! i)"
    and v: "v \<in> live (drop (Suc i) code)" and ne: "v \<noteq> d"
    and kd: "defSites (computeUseDef code) d = Some kd" and kv: "defSites (computeUseDef code) v = Some kv"
  shows "kv < kd" and "kd \<le> li_end (makeInterval (computeUseDef code) v)"
proof -
  from v obtain u where u: "i < u" "u < length code" "v \<in> reads (code ! u)" "\<forall>j. i < j \<longrightarrow> j < u \<longrightarrow> v \<notin> writes (code ! j)"
    by (rule live_drop) blast
  from df u(2,3) obtain p where p: "p < u" "v \<in> writes (code ! p)" by (auto simp: defined_first_def)
  have notv: "v \<notin> writes (code ! i)" using writes_single d ne by blast
  have pi: "p < i" using p u(4) notv by (metis linorder_neqE_nat)
  have after: "w \<notin> writes (code ! k)" if "i < k" "k < length code" "w = v" for k w
    using cl pi p(2) that notv unfolding clustered_def by blast
  from kv have kv': "kv < length code" "v \<in> writes (code ! kv)" by (simp_all add: defSites_iff)
  from kd have kd': "kd < length code" "d \<in> writes (code ! kd)" "i \<le> kd"
    using i d by (auto simp: defSites_iff not_less [symmetric])
  have kvi: "kv < i" using kv' after notv by (metis linorder_neqE_nat)
  with kd'(3) show "kv < kd" by simp
  have used: "v \<in> set (getUsedVirtualRegisters (code ! u))"
  proof (rule ccontr)
    assume "v \<notin> set (getUsedVirtualRegisters (code ! u))"
    with u(3) have "v \<in> set (kept_operand (code ! u))" by (auto simp: reads_def)
    then have "v \<in> writes (code ! u)" by (cases "code ! u") (auto simp: writes_def split: if_splits)
    with after u(1,2) show False by blast
  qed
  have "kd \<le> u"
  proof (rule ccontr)
    assume "\<not> kd \<le> u"
    with cl kd' u(1) d have "set (getUsedVirtualRegisters (code ! u)) \<subseteq> {d}" unfolding clustered_def by auto
    with used ne show False by auto
  qed
  with makeInterval_simps(3) [OF kv u(2) used] show "kd \<le> li_end (makeInterval (computeUseDef code) v)" by simp
qed

definition linear_scan :: "(nat list \<Rightarrow> nat list) \<Rightarrow> arm_instruction list \<Rightarrow> (nat \<rightharpoonup> arm_register) option" where
  "linear_scan order code =
     (let (success, st) = scanIntervals (computeLiveIntervals order code) RegisterAllocator_init
      in if success then Some (allocation st) else None)"

lemma linear_scan_inv:
  assumes "visits_once order" and "linear_scan order code = Some al"
  obtains st where "al = allocation st" and "scan_inv (computeLiveIntervals order code) st"
proof -
  from assms(2) obtain st where st: "scanIntervals (computeLiveIntervals order code) RegisterAllocator_init = (True, st)" "al = allocation st"
    by (auto simp: linear_scan_def split: prod.splits if_splits)
  from scanIntervals_inv [OF st(1) scan_inv_init] sorted_computeLiveIntervals [of order code]
    set_computeLiveIntervals(2) [OF assms(1), of code] that [OF st(2)] show ?thesis by simp
qed

lemma dom_defSites: "dom (defSites (computeUseDef code)) = (\<Union>inst \<in> set code. writes inst)"
proof (induction code rule: rev_induct)
  case Nil
  then show ?case by (simp add: computeUseDef_def)
next
  case (snoc x xs)
  have "dom (defSites (computeUseDef (xs @ [x]))) = dom (defSites (computeUseDef xs)) \<union> writes x"
    by (auto simp: computeUseDef_snoc fold_addUse fold_addDef writes_def split: if_splits)
  with snoc show ?case by auto
qed

lemma vregs_computeLiveIntervals:
  "visits_once order \<Longrightarrow> li_vreg ` set (computeLiveIntervals order code) = (\<Union>inst \<in> set code. writes inst)"
  by (simp add: set_computeLiveIntervals(1) image_image makeInterval_def Let_def dom_defSites)

lemma linear_scan_dom:
  assumes "visits_once order" and "linear_scan order code = Some al"
  shows "dom al = (\<Union>inst \<in> set code. writes inst)"
proof -
  from assms obtain st where st: "al = allocation st" "scan_inv (computeLiveIntervals order code) st" by (rule linear_scan_inv)
  then have "dom al = li_vreg ` set (computeLiveIntervals order code)" by (simp add: scan_inv_def)
  with vregs_computeLiveIntervals [OF assms(1)] show ?thesis by simp
qed

lemma linear_scan_usable:
  assumes "visits_once order" and "linear_scan order code = Some al"
  shows "ran al \<subseteq> set availableRegisters"
  using assms by (rule linear_scan_inv) (simp add: scan_inv_def)

lemma linear_scan_colouring:
  assumes o: "visits_once order" and l: "linear_scan order code = Some al" and cl: "clustered code" and df: "defined_first code"
  shows "colouring al code"
  unfolding colouring_iff
proof (intro allI impI ballI)
  fix i d v assume a: "i < length code" "d \<in> writes (code ! i)" "v \<in> live (drop (Suc i) code)" "v \<noteq> d"
  from o l obtain st where st: "al = allocation st" "scan_inv (computeLiveIntervals order code) st" by (rule linear_scan_inv)
  have "v \<in> dom al" "d \<in> dom al"
  proof -
    show "d \<in> dom al" using a(1,2) linear_scan_dom [OF o l] by auto
    from a(3) obtain u where "u < length code" "v \<in> reads (code ! u)" by (rule live_drop)
    with df obtain p where "p < u" "u < length code" "v \<in> writes (code ! p)" by (auto simp: defined_first_def)
    then show "v \<in> dom al" unfolding linear_scan_dom [OF o l] by force
  qed
  then obtain kd kv where k: "defSites (computeUseDef code) d = Some kd" "defSites (computeUseDef code) v = Some kv"
    using st by (force simp: scan_inv_def set_computeLiveIntervals(1) [OF o] makeInterval_def Let_def)
  let ?I = "makeInterval (computeUseDef code)"
  have m: "?I v \<in> set (computeLiveIntervals order code)" "?I d \<in> set (computeLiveIntervals order code)"
    using k by (auto simp: set_computeLiveIntervals(1) [OF o])
  have "li_start (?I v) < li_start (?I d)" "li_start (?I d) \<le> li_end (?I v)"
    using live_interval_overlaps [OF cl df a k] makeInterval_simps(2) [OF k(1)] makeInterval_simps(2) [OF k(2)] by simp_all
  with st m sorted_wrt_strict [OF sorted_computeLiveIntervals]
  have "allocation st (li_vreg (?I v)) \<noteq> allocation st (li_vreg (?I d))"
    unfolding scan_inv_def by blast
  then show "al v \<noteq> al d" using st makeInterval_simps(1) [OF k(1)] makeInterval_simps(1) [OF k(2)] by simp
qed


lemma live_defined_first: "defined_first code \<Longrightarrow> live code = {}"
  by (rule equals0I) (unfold live_iff defined_first_def, blast)

definition scannable :: "(nat list \<Rightarrow> nat list) \<Rightarrow> arm_instruction list \<Rightarrow> bool" where
  "scannable order code \<longleftrightarrow> visits_once order \<and> clustered code \<and> defined_first code \<and> list_all plain code"

interpretation ls: register_allocation "linear_scan order" "scannable order" for order
proof
  fix code al inst
  show "scannable order code \<Longrightarrow> list_all plain code" "scannable order code \<Longrightarrow> live code = {}"
    by (simp_all add: scannable_def live_defined_first)
  assume a: "scannable order code" "linear_scan order code = Some al"
  then have o: "visits_once order" by (simp add: scannable_def)
  have "{X0, X30, XSP} \<inter> set availableRegisters = {}" by (simp add: availableRegisters_def)
  with linear_scan_usable [OF o a(2)] show "usable al" by (auto simp: usable_def)
  show "colouring al code" using a by (intro linear_scan_colouring) (auto simp: scannable_def)
  assume i: "inst \<in> set code"
  have "reads inst \<subseteq> (\<Union>inst \<in> set code. writes inst)"
  proof
    fix v assume v: "v \<in> reads inst"
    from i obtain u where "u < length code" "inst = code ! u" by (auto simp: in_set_conv_nth)
    with v a(1) obtain p where "p < u" "u < length code" "v \<in> writes (code ! p)"
      by (auto simp: scannable_def defined_first_def)
    then show "v \<in> (\<Union>inst \<in> set code. writes inst)" by force
  qed
  with i linear_scan_dom [OF o a(2)] show "reads inst \<union> writes inst \<subseteq> dom al" by auto
qed

lemma allocateRegisters_linear_scan:
  assumes "scannable order code"
  shows "case linear_scan order code of
      Some al \<Rightarrow> \<exists>st. allocation st = al \<and>
        allocateRegisters code (computeLiveIntervals order code) = Inr (True, map (rename_inst al) code, st)
    | None \<Rightarrow> \<exists>st. allocateRegisters code (computeLiveIntervals order code) = Inr (False, code, st)"
proof -
  obtain success st where s: "scanIntervals (computeLiveIntervals order code) RegisterAllocator_init = (success, st)" by fastforce
  show ?thesis
  proof (cases success)
    case True
    with s have l: "linear_scan order code = Some (allocation st)" by (simp add: linear_scan_def)
    with ls.allocated_rewrite [OF assms l] s True show ?thesis by (auto simp: allocateRegisters_def)
  next
    case False
    with s show ?thesis by (simp add: linear_scan_def allocateRegisters_def)
  qed
qed


subsection \<open>The order of the hash table does not matter\<close>

lemma computeLiveIntervals_order:
  assumes "visits_once order"
  shows "computeLiveIntervals order code = computeLiveIntervals (\<lambda>ks. ks) code"
proof -
  let ?st = "computeUseDef code"
  have once: "visits_once (\<lambda>ks. ks)" by (simp add: visits_once_def)
  have strict: "sorted_wrt (\<lambda>a b. li_start a < li_start b) (computeLiveIntervals f code)" if f: "visits_once f" for f
  proof -
    have "a = b" if ab: "a \<in> set (computeLiveIntervals f code)" "b \<in> set (computeLiveIntervals f code)" "li_start a = li_start b" for a b
    proof -
      from ab(1,2) obtain v w k l where v: "a = makeInterval ?st v" "defSites ?st v = Some k"
        and w: "b = makeInterval ?st w" "defSites ?st w = Some l"
        by (auto simp: set_computeLiveIntervals(1) [OF f])
      with ab(3) makeInterval_simps(2) have "k = l" by metis
      with v w have "v = w" using writes_single by (auto simp: defSites_iff)
      with v w show ?thesis by simp
    qed
    then have "inj_on li_start (set (computeLiveIntervals f code))" by (auto intro: inj_onI)
    moreover have "distinct (computeLiveIntervals f code)"
      using set_computeLiveIntervals(2) [OF f] distinct_map by blast
    ultimately have "distinct (map li_start (computeLiveIntervals f code))" by (simp add: distinct_map)
    with sorted_computeLiveIntervals [of f code] have "sorted_wrt (<) (map li_start (computeLiveIntervals f code))"
      by (simp add: strict_sorted_iff)
    then show ?thesis by (simp add: sorted_wrt_map)
  qed
  have "mset (computeLiveIntervals order code) = mset (computeLiveIntervals (\<lambda>ks. ks) code)"
    using assms by (simp add: computeLiveIntervals_def Let_def visits_once_def)
  with strict [OF assms] strict [OF once] show ?thesis by (rule sorted_wrt_unique [rotated -1, rotated 2])
qed

subsection \<open>When the registers suffice\<close>

text \<open>The intervals that contain a point.\<close>

definition pressure :: "live_interval list \<Rightarrow> nat \<Rightarrow> nat" where
  "pressure ivs c = length (filter (\<lambda>a. li_start a \<le> c \<and> (c \<le> li_start a \<or> c \<le> li_end a)) ivs)"

lemma find_append: "find P (xs @ ys) = (case find P xs of None \<Rightarrow> find P ys | Some x \<Rightarrow> Some x)"
  by (induction xs) auto

text \<open>With fewer than \<open>n\<close> active intervals, one of the first \<open>n\<close> registers is free.\<close>

lemma getNextAvailableRegister_first:
  assumes "length (activeIntervals st) < n" and "n \<le> length availableRegisters"
  shows "\<exists>r \<in> set (take n availableRegisters). getNextAvailableRegister st = Some r"
proof -
  let ?free = "\<lambda>reg. \<not> list_ex (\<lambda>active. snd active = reg) (activeIntervals st)"
  have "distinct availableRegisters" by (simp add: availableRegisters_def)
  then have "card (set (take n availableRegisters)) = n" using assms(2) by (simp add: distinct_card)
  moreover have "card (set (map snd (activeIntervals st))) < n" using card_length [of "map snd (activeIntervals st)"] assms(1) by simp
  ultimately have "\<not> set (take n availableRegisters) \<subseteq> set (map snd (activeIntervals st))"
    using card_mono [of "set (map snd (activeIntervals st))" "set (take n availableRegisters)"] by fastforce
  then have "find ?free (take n availableRegisters) \<noteq> None" by (force simp: find_None_iff list_ex_iff)
  then obtain r where r: "find ?free (take n availableRegisters) = Some r" by blast
  then have "r \<in> set (take n availableRegisters)" by (auto simp: find_Some_iff in_set_conv_nth)
  moreover have "getNextAvailableRegister st = Some r"
    using find_append [of ?free "take n availableRegisters" "drop n availableRegisters"] r
    by (simp add: getNextAvailableRegister_def)
  ultimately show ?thesis by blast
qed

text \<open>The intervals active when one starts are among those that reach its start.\<close>

lemma expired_subset:
  assumes "mset (map fst (activeIntervals st)) \<subseteq># mset P"
  shows "mset (map fst (activeIntervals (expireOldIntervals pos st))) \<subseteq># mset P"
proof -
  have "mset (activeIntervals (expireOldIntervals pos st)) \<subseteq># mset (activeIntervals st)"
    by (simp add: expireOldIntervals_def mset_filter)
  from subset_mset.order_trans [OF image_mset_subseteq_mono [OF this] assms [unfolded mset_map]] show ?thesis
    by (simp only: mset_map)
qed

lemma expired_pressure:
  assumes sub: "mset (map fst (activeIntervals st)) \<subseteq># mset P" and s: "sorted (map li_start (P @ i # ivs))"
  shows "Suc (length (activeIntervals (expireOldIntervals (li_start i) st))) \<le> pressure (P @ i # ivs) (li_start i)"
proof -
  let ?c = "\<lambda>a. li_start a \<le> li_start i \<and> (li_start i \<le> li_start a \<or> li_start i \<le> li_end a)"
  let ?active = "map fst (activeIntervals (expireOldIntervals (li_start i) st))"
  note sub = expired_subset [OF sub, of "li_start i"]
  have "?c a" if a: "a \<in> set ?active" for a
  proof -
    from a have "\<not> li_end a < li_start i" by (auto simp: expireOldIntervals_def)
    moreover have "a \<in> set P" using mset_subset_eqD [OF sub, of a] a by (simp only: set_mset_mset)
    ultimately show ?thesis using s by (auto simp: sorted_append)
  qed
  then have "filter ?c ?active = ?active" by (simp add: filter_id_conv)
  from arg_cong [OF this, of mset] have "filter_mset ?c (mset ?active) = mset ?active" by (simp only: mset_filter)
  then have "mset ?active \<subseteq># mset (filter ?c P)"
    using multiset_filter_mono [OF sub, of ?c] by (simp only: mset_filter)
  from size_mset_mono [OF this] have "length (activeIntervals (expireOldIntervals (li_start i) st)) \<le> length (filter ?c P)"
    by (simp only: size_mset length_map)
  then show ?thesis by (simp add: pressure_def)
qed

lemma scanIntervals_total:
  assumes "\<forall>i \<in> set ivs. pressure (P @ ivs) (li_start i) \<le> n" and "n \<le> length availableRegisters"
    and "sorted (map li_start (P @ ivs))" and "mset (map fst (activeIntervals st)) \<subseteq># mset P"
    and "ran (allocation st) \<subseteq> set (take n availableRegisters)"
  shows "fst (scanIntervals ivs st) \<and> ran (allocation (snd (scanIntervals ivs st))) \<subseteq> set (take n availableRegisters)"
  using assms(1,3-)
proof (induction ivs arbitrary: P st)
  case Nil
  then show ?case by simp
next
  case (Cons i ivs)
  let ?st = "expireOldIntervals (li_start i) st"
  from expired_pressure [OF Cons.prems(3,2)] Cons.prems(1)
  have "length (activeIntervals ?st) < n" by fastforce
  then obtain r where r: "getNextAvailableRegister ?st = Some r" "r \<in> set (take n availableRegisters)"
    using getNextAvailableRegister_first [of ?st n] assms(2) by auto
  let ?next = "?st\<lparr>allocation := (allocation ?st)(li_vreg i \<mapsto> r), activeIntervals := activeIntervals ?st @ [(i, r)]\<rparr>"
  have "fst (scanIntervals ivs ?next) \<and> ran (allocation (snd (scanIntervals ivs ?next))) \<subseteq> set (take n availableRegisters)"
  proof (rule Cons.IH [of "P @ [i]"])
    show "\<forall>j \<in> set ivs. pressure ((P @ [i]) @ ivs) (li_start j) \<le> n" using Cons.prems(1) by simp
    show "sorted (map li_start ((P @ [i]) @ ivs))" using Cons.prems(2) by simp
    show "mset (map fst (activeIntervals ?next)) \<subseteq># mset (P @ [i])" using expired_subset [OF Cons.prems(3)] by simp
    have "allocation ?st = allocation st" by (simp add: expireOldIntervals_def)
    with Cons.prems(4) r(2) show "ran (allocation ?next) \<subseteq> set (take n availableRegisters)"
      by (auto simp: ran_def split: if_splits)
  qed
  with r(1) show ?case by (simp add: Let_def)
qed


subsection \<open>The allocator theorems\<close>

text \<open>
  C13: after a successful scan of intervals sorted by their start, any two intervals that overlap
  have different registers, both from the pool X1 to X28.
\<close>

theorem scanIntervals_no_clash:
  assumes "sorted (map li_start ivs)" and "distinct (map li_vreg ivs)"
    and "scanIntervals ivs RegisterAllocator_init = (True, st)"
    and "i < j" and "j < length ivs" and "overlaps (ivs ! i) (ivs ! j)"
  shows "\<exists>r q. allocation st (li_vreg (ivs ! i)) = Some r \<and> allocation st (li_vreg (ivs ! j)) = Some q \<and> r \<noteq> q \<and>
    {r, q} \<subseteq> set availableRegisters"
proof -
  have inv: "scan_inv ivs st" using scanIntervals_inv [OF assms(3) scan_inv_init] assms(1,2) by simp
  have "ivs ! i \<in> set ivs" "ivs ! j \<in> set ivs" using assms(4,5) by simp_all
  then obtain r q where "allocation st (li_vreg (ivs ! i)) = Some r" "allocation st (li_vreg (ivs ! j)) = Some q"
    using inv unfolding scan_inv_def by blast
  moreover from this have "r \<noteq> q"
    using inv assms(4-) unfolding scan_inv_def sorted_wrt_iff_nth_less overlaps_def by (metis not_less)
  moreover have "ran (allocation st) \<subseteq> set availableRegisters" using inv by (simp add: scan_inv_def)
  ultimately show ?thesis by (auto simp: ran_def)
qed

theorem scanIntervals_no_clash_witness:
  "\<exists>r q. allocation (snd (scanIntervals [\<lparr>li_vreg = 4, li_start = 0, li_end = 2\<rparr>, \<lparr>li_vreg = 7, li_start = 1, li_end = 3\<rparr>]
       RegisterAllocator_init)) 4 = Some r \<and>
     allocation (snd (scanIntervals [\<lparr>li_vreg = 4, li_start = 0, li_end = 2\<rparr>, \<lparr>li_vreg = 7, li_start = 1, li_end = 3\<rparr>]
       RegisterAllocator_init)) 7 = Some q \<and> r \<noteq> q"
proof -
  let ?ivs = "[\<lparr>li_vreg = 4, li_start = 0, li_end = 2\<rparr>, \<lparr>li_vreg = 7, li_start = 1, li_end = 3\<rparr>] :: live_interval list"
  have "fst (scanIntervals ?ivs RegisterAllocator_init)" by code_simp
  then have "scanIntervals ?ivs RegisterAllocator_init = (True, snd (scanIntervals ?ivs RegisterAllocator_init))"
    by (simp add: prod_eq_iff del: scanIntervals.simps)
  from scanIntervals_no_clash [OF _ _ this, of 0 1] show ?thesis by (auto simp: overlaps_def simp del: scanIntervals.simps)
qed

text \<open>
  C24: the scan gives up only when the registers really do not suffice: if at most \<open>n\<close> intervals meet at the
  start of each interval, and there are \<open>n\<close> registers, it succeeds and uses the first \<open>n\<close> registers of the
  list only. With 18 it leaves X19 to X28, which belong to the caller, alone.
\<close>

theorem scanIntervals_succeeds:
  assumes "sorted (map li_start ivs)" and "\<forall>i \<in> set ivs. pressure ivs (li_start i) \<le> n" and "n \<le> 28"
  shows "fst (scanIntervals ivs RegisterAllocator_init) \<and>
    ran (allocation (snd (scanIntervals ivs RegisterAllocator_init))) \<subseteq> set (take n availableRegisters)"
proof -
  have "length availableRegisters = 28" by (simp add: availableRegisters_def)
  with scanIntervals_total [of ivs "[]" n RegisterAllocator_init] assms show ?thesis
    by (simp add: RegisterAllocator_init_def)
qed

theorem scanIntervals_succeeds_witness:
  "fst (scanIntervals [\<lparr>li_vreg = 4, li_start = 0, li_end = 2\<rparr>, \<lparr>li_vreg = 7, li_start = 1, li_end = 3\<rparr>] RegisterAllocator_init) \<and>
   ran (allocation (snd (scanIntervals [\<lparr>li_vreg = 4, li_start = 0, li_end = 2\<rparr>, \<lparr>li_vreg = 7, li_start = 1, li_end = 3\<rparr>]
     RegisterAllocator_init))) \<subseteq> {X1, X2}"
  using scanIntervals_succeeds [of "[\<lparr>li_vreg = 4, li_start = 0, li_end = 2\<rparr>, \<lparr>li_vreg = 7, li_start = 1, li_end = 3\<rparr>]" 2]
  by (simp add: pressure_def availableRegisters_def del: scanIntervals.simps)

text \<open>
  C25: the live intervals are handed to the allocator sorted by their start, which the linear scan relies on and
  the allocator asserts, and there is one for each virtual register that is defined.
\<close>

theorem computeLiveIntervals_sorted:
  assumes "\<forall>ks. mset (order ks) = mset ks"
  shows "sorted (map li_start (computeLiveIntervals order code)) \<and> distinct (map li_vreg (computeLiveIntervals order code)) \<and>
    set (map li_vreg (computeLiveIntervals order code)) = (\<Union>inst \<in> set code. writes inst)"
  using sorted_computeLiveIntervals set_computeLiveIntervals(2) vregs_computeLiveIntervals assms by (simp add: visits_once_def)

theorem computeLiveIntervals_sorted_witness:
  "sorted (map li_start (computeLiveIntervals rev [TwoOperandInst armMOV SizeX (ArmVReg 0) (ArmImm 1), TwoOperandInst armMOV SizeX (ArmVReg 1) (ArmImm 2)]))"
  using computeLiveIntervals_sorted [of rev "[TwoOperandInst armMOV SizeX (ArmVReg 0) (ArmImm 1), TwoOperandInst armMOV SizeX (ArmVReg 1) (ArmImm 2)]"]
  by simp

text \<open>
  C26: the live intervals, their order included, do not depend on the order in which the hash table of
  definition sites is visited, so the allocation is deterministic.
\<close>

theorem computeLiveIntervals_deterministic:
  assumes "\<forall>ks. mset (order ks) = mset ks" and "\<forall>ks. mset (order' ks) = mset ks"
  shows "computeLiveIntervals order code = computeLiveIntervals order' code"
  using computeLiveIntervals_order [of order code] computeLiveIntervals_order [of order' code] assms
  by (simp add: visits_once_def)

theorem computeLiveIntervals_deterministic_witness:
  "computeLiveIntervals rev [TwoOperandInst armMOV SizeX (ArmVReg 0) (ArmImm 1), TwoOperandInst armMOV SizeX (ArmVReg 1) (ArmImm 2)] =
   computeLiveIntervals id [TwoOperandInst armMOV SizeX (ArmVReg 0) (ArmImm 1), TwoOperandInst armMOV SizeX (ArmVReg 1) (ArmImm 2)]"
  by (rule computeLiveIntervals_deterministic) simp_all

text \<open>
  C7: when the allocator succeeds on code in the selector's form, the allocated code names no virtual
  register and, started with the same X0, X30, flags and memory, returns the same value and leaves
  the same memory as the code over virtual registers, whatever the other registers hold.
\<close>

theorem allocateRegisters_correct:
  assumes "scannable order code"
    and "allocateRegisters code (computeLiveIntervals order code) = Inr (True, code', st)"
    and "arm_run ok lr code t = Some res"
    and "arm_rf t' (ArmReg X0) = arm_rf t (ArmReg X0)" and "arm_rf t' (ArmReg X30) = arm_rf t (ArmReg X30)"
    and "arm_flags t' = arm_flags t" and "arm_mem t' = arm_mem t"
  shows "arm_run ok lr code' t' = Some res \<and> (\<forall>inst \<in> set code'. vregs inst = [])"
proof -
  from allocateRegisters_linear_scan [OF assms(1)] assms(2) have a: "linear_scan order code = Some (allocation st)"
    "code' = map (rename_inst (allocation st)) code" by (auto split: option.splits)
  have "vregs (rename_inst (allocation st) inst) = []" if "inst \<in> set code" for inst
    by (rule vregs_rename [OF ls.assign_vregs [OF assms(1) a(1) that]])
  with ls.allocated_run [OF assms(1) a(1) assms(3-)] a(2) show ?thesis by auto
qed

definition example_code :: "arm_instruction list" where
  "example_code = [TwoOperandInst armMOV SizeX (ArmVReg 0) (ArmImm 5), TwoOperandInst armMOV SizeX (ArmVReg 1) (ArmImm 6),
     ThreeOperandInst armADD SizeX (ArmVReg 2) (ArmVReg 0) (ArmVReg 1), TwoOperandInst armMOV SizeX (ArmReg X0) (ArmVReg 2),
     TwoOperandInst armRET SizeX (ArmReg X30) (ArmReg X30)]"

definition zero_state :: arm_state where
  "zero_state = \<lparr> arm_rf = \<lambda>_. 0, arm_flags = \<lparr>flag_n = False, flag_z = False, flag_c = False, flag_v = False\<rparr>, arm_mem = \<lambda>_. 0 \<rparr>"

lemma scannable_example: "scannable id example_code"
proof -
  have "clustered example_code" by (simp add: clustered_def example_code_def writes_def All_less_Suc numeral_eq_Suc)
  moreover have "defined_first example_code"
    by (simp add: defined_first_def example_code_def writes_def reads_def All_less_Suc Ex_less_Suc numeral_eq_Suc)
  moreover have "list_all plain example_code" by (simp add: example_code_def)
  ultimately show ?thesis by (simp add: scannable_def visits_once_def)
qed

theorem allocateRegisters_correct_witness:
  "arm_run (\<lambda>_ _. True) 0 [TwoOperandInst armMOV SizeX (ArmReg X1) (ArmImm 5), TwoOperandInst armMOV SizeX (ArmReg X2) (ArmImm 6),
     ThreeOperandInst armADD SizeX (ArmReg X3) (ArmReg X1) (ArmReg X2), TwoOperandInst armMOV SizeX (ArmReg X0) (ArmReg X3),
     TwoOperandInst armRET SizeX (ArmReg X30) (ArmReg X30)] (zero_state\<lparr>arm_rf := (\<lambda>_. 9)(ArmReg X0 := 0, ArmReg X30 := 0)\<rparr>) =
   Some (11, \<lambda>_. 0)"
proof -
  have r: "arm_run (\<lambda>_ _. True) 0 example_code zero_state = Some (11, \<lambda>_. 0)"
    by (simp add: example_code_def zero_state_def arm_exec1.simps arm_move_def arm_set_def arm_alu_def op_width_def)
  let ?code = "[TwoOperandInst armMOV SizeX (ArmReg X1) (ArmImm 5), TwoOperandInst armMOV SizeX (ArmReg X2) (ArmImm 6),
     ThreeOperandInst armADD SizeX (ArmReg X3) (ArmReg X1) (ArmReg X2), TwoOperandInst armMOV SizeX (ArmReg X0) (ArmReg X3),
     TwoOperandInst armRET SizeX (ArmReg X30) (ArmReg X30)]"
  have "map_sum id (\<lambda>(b, c, st). (b, c)) (allocateRegisters example_code (computeLiveIntervals id example_code)) = Inr (True, ?code)"
    by code_simp
  then obtain st where "allocateRegisters example_code (computeLiveIntervals id example_code) = Inr (True, ?code, st)"
    by (cases "allocateRegisters example_code (computeLiveIntervals id example_code)") auto
  from allocateRegisters_correct [OF scannable_example this r] show ?thesis by (simp add: zero_state_def)
qed

end
