(* ===== verification/SelectorShape.thy ===== *)
theory SelectorShape
  imports SelectorCorrect LinearScan
begin

text \<open>
  The form of the selected code: each instruction defines new registers from a fresh range, reads
  registers defined before, and the definitions of one register follow each other. Except for a
  conditional branch whose temporaries reuse the register of an earlier value, this is the form
  for which the linear scan is exact.
\<close>

subsection \<open>Sequences\<close>

definition written :: "arm_instruction list \<Rightarrow> nat set" where
  "written code = (\<Union>inst \<in> set code. writes inst)"

lemma written_simps [simp]:
  "written [] = {}" "written (inst # code) = writes inst \<union> written code" "written (xs @ ys) = written xs \<union> written ys"
  by (auto simp: written_def)

fun defined :: "nat set \<Rightarrow> arm_instruction list \<Rightarrow> bool" where
  "defined D [] \<longleftrightarrow> True"
| "defined D (inst # code) \<longleftrightarrow> reads inst \<subseteq> D \<and> defined (D \<union> writes inst) code"

lemma defined_append: "defined D (xs @ ys) \<longleftrightarrow> defined D xs \<and> defined (D \<union> written xs) ys"
  by (induction xs arbitrary: D) (auto simp: Un_assoc)

lemma defined_mono: "defined D code \<Longrightarrow> D \<subseteq> E \<Longrightarrow> defined E code"
proof (induction code arbitrary: D E)
  case (Cons inst code)
  then show ?case by (auto intro: Cons.IH [of "D \<union> writes inst"])
qed simp

lemma defined_nth:
  "defined D code \<Longrightarrow> u < length code \<Longrightarrow> v \<in> reads (code ! u) \<Longrightarrow> v \<in> D \<or> (\<exists>i < u. v \<in> writes (code ! i))"
proof (induction code arbitrary: D u)
  case (Cons inst code)
  show ?case
  proof (cases u)
    case (Suc k)
    with Cons.IH [of "D \<union> writes inst" k] Cons.prems consider "v \<in> D" | "v \<in> writes inst" | i where "i < k" "v \<in> writes (code ! i)"
      by auto
    then show ?thesis using Suc by cases (auto intro: exI [of _ 0] exI [of _ "Suc _"])
  qed (use Cons.prems in auto)
qed simp

lemma defined_first: "defined {} code \<Longrightarrow> defined_first code"
  using defined_nth [of "{}"] by (auto simp: defined_first_def)

lemma clustered_short: "length code \<le> 2 \<Longrightarrow> clustered code"
  by (auto simp: clustered_def)

lemma clustered_append:
  assumes "clustered xs" and "clustered ys" and "written xs \<inter> written ys = {}"
  shows "clustered (xs @ ys)"
  unfolding clustered_def
proof (intro allI impI ballI)
  fix k j i v
  assume k: "k < length (xs @ ys)" "j < k" "i < j" and v: "v \<in> writes ((xs @ ys) ! i)" "v \<in> writes ((xs @ ys) ! k)"
  have w: "v \<in> written zs" if "m < length zs" "v \<in> writes (zs ! m)" for m zs using that by (force simp: written_def)
  consider "k < length xs" | "length xs \<le> i" | "i < length xs" "length xs \<le> k" by linarith
  then show "v \<in> writes ((xs @ ys) ! j) \<and> set (getUsedVirtualRegisters ((xs @ ys) ! j)) \<subseteq> {v}"
  proof cases
    case 1
    with k v assms(1) show ?thesis unfolding clustered_def by (auto simp: nth_append)
  next
    case 2
    let ?m = "\<lambda>x. x - length xs"
    have "?m k < length ys" "?m j < ?m k" "?m i < ?m j" using 2 k by auto
    with 2 k v assms(2) show ?thesis unfolding clustered_def nth_append by auto
  next
    case 3
    with k v have "v \<in> written xs" "v \<in> written ys"
      using w [of i xs] w [of "k - length xs" ys] by (auto simp: nth_append)
    with assms(3) show ?thesis by blast
  qed
qed

lemma clustered_same:
  assumes "\<And>inst. inst \<in> set code \<Longrightarrow> writes inst = V \<and> getUsedVirtualRegisters inst = []"
  shows "clustered code"
  unfolding clustered_def
proof (intro allI impI ballI)
  fix k j i v assume "k < length code" "j < k" "i < j" "v \<in> writes (code ! i)"
  then have "code ! i \<in> set code" "code ! j \<in> set code" by auto
  with assms \<open>v \<in> writes (code ! i)\<close> show "v \<in> writes (code ! j) \<and> set (getUsedVirtualRegisters (code ! j)) \<subseteq> {v}" by auto
qed

subsection \<open>A chunk of selected code\<close>

definition chunk :: "nat set \<Rightarrow> nat \<Rightarrow> nat \<Rightarrow> arm_instruction list \<Rightarrow> bool" where
  "chunk D n n' code \<longleftrightarrow>
     n \<le> n' \<and> written code \<subseteq> {n..<n'} \<and> clustered code \<and> defined D code \<and> list_all plain code"

lemma chunk_append:
  assumes "chunk D n n' xs" and "chunk (D \<union> written xs) n' n'' ys"
  shows "chunk D n n'' (xs @ ys)"
proof -
  have "written xs \<inter> written ys = {}" using assms by (fastforce simp: chunk_def)
  with assms clustered_append show ?thesis by (fastforce simp: chunk_def defined_append)
qed

lemma chunk_Nil: "chunk D n n []"
  by (simp add: chunk_def clustered_def)

lemma selectChunks_shape:
  assumes "selectChunks shifts f sz op v = (insts, f')" and "inst \<in> set insts"
  shows "\<exists>opc imm sh. inst = MoveWideInst opc sz op imm sh \<and> opc \<in> {armMOVZ, armMOVK}"
  using assms
  by (induction shifts arbitrary: f insts) (auto simp: Let_def split: if_splits prod.splits)

lemma selectChunks_first:
  assumes "selectChunks shifts True sz op v = (insts, f')"
  shows "insts = [] \<or> (\<exists>imm sh rest. insts = MoveWideInst armMOVZ sz op imm sh # rest)"
  using assms
  by (induction shifts arbitrary: insts) (auto simp: Let_def split: if_splits prod.splits)

lemma selectChunks_flag: "selectChunks shifts f sz op v = (insts, f') \<Longrightarrow> f' \<longleftrightarrow> f \<and> insts = []"
  by (induction shifts arbitrary: f insts f') (fastforce simp: Let_def split: if_splits prod.splits)+

lemma const_insts:
  assumes "inst \<in> set (selectConstIntoRegister t v op)" and "plain_operand op"
  shows "writes inst = set (vreg_list op)" and "getUsedVirtualRegisters inst = []"
    and "set (kept_operand inst) \<subseteq> set (vreg_list op)" and "plain inst"
proof -
  obtain insts f where c: "selectChunks [0, 16, 32, 48] True (irTypeToDataSize t) op v = (insts, f)" by fastforce
  have "(\<exists>opc sz i. inst = TwoOperandInst opc sz op (ArmImm i) \<and> opc \<noteq> armCMP) \<or> (\<exists>opc sz i sh. inst = MoveWideInst opc sz op i sh)"
    using assms(1) selectChunks_shape [OF c, of inst]
    by (auto simp: selectConstIntoRegister_def Let_def c simp del: selectChunks.simps split: if_splits)
  then show "writes inst = set (vreg_list op)" "getUsedVirtualRegisters inst = []"
    "set (kept_operand inst) \<subseteq> set (vreg_list op)" "plain inst"
    using assms(2) by (auto simp: writes_def std_set_def vreg_list_def simp del: set_vreg_list)
qed

lemma const_first:
  "\<exists>inst rest. selectConstIntoRegister t v op = inst # rest \<and> kept_operand inst = []"
proof -
  obtain insts f where c: "selectChunks [0, 16, 32, 48] True (irTypeToDataSize t) op v = (insts, f)" by fastforce
  show ?thesis
    using selectChunks_first [OF c] selectChunks_flag [OF c]
    by (auto simp: selectConstIntoRegister_def Let_def c simp del: selectChunks.simps)
qed

lemma const_chunk:
  assumes "plain_operand op" and "set (vreg_list op) \<subseteq> {n..<n'}" and "n \<le> n'"
  shows "chunk D n n' (selectConstIntoRegister t v op)" and "written (selectConstIntoRegister t v op) = set (vreg_list op)"
proof -
  note c = const_insts [OF _ assms(1), of _ t v]
  from const_first [of t v op] obtain inst rest where i: "selectConstIntoRegister t v op = inst # rest" "kept_operand inst = []" by blast
  show w: "written (selectConstIntoRegister t v op) = set (vreg_list op)"
    using c(1) i(1) by (auto simp: written_def)
  have r: "reads i \<subseteq> set (vreg_list op)" if "i \<in> set (selectConstIntoRegister t v op)" for i
    using c(2,3) [OF that] by (simp add: reads_def)
  have "defined (D \<union> set (vreg_list op)) xs" if "set xs \<subseteq> set (selectConstIntoRegister t v op)" for xs
    using that
  proof (induction xs)
    case (Cons a xs)
    with r [of a] c(1) [of a] show ?case by (simp add: le_supI2 Un_assoc del: set_vreg_list)
  qed simp
  then have "defined D (selectConstIntoRegister t v op)"
    using c(1,2) [of inst] i by (auto simp: reads_def i simp del: set_vreg_list)
  moreover have "clustered (selectConstIntoRegister t v op)"
    by (rule clustered_same [of _ "set (vreg_list op)"]) (use c in auto)
  ultimately show "chunk D n n' (selectConstIntoRegister t v op)"
    using assms w c(4) by (auto simp: chunk_def list_all_iff)
qed


subsection \<open>One IR instruction\<close>

fun ir_operands :: "ir_kind \<Rightarrow> valueId set" where
  "ir_operands (Const t v) = {}"
| "ir_operands (BinaryOp opc t l r) = {l, r}"
| "ir_operands (Sext t v) = {v}"
| "ir_operands (Zext t v) = {v}"
| "ir_operands (Trunc t v) = {v}"
| "ir_operands (Load t a) = {a}"
| "ir_operands (Store v a) = {v, a}"
| "ir_operands (RegRead r) = {}"
| "ir_operands (RegWrite r v) = {v}"

definition sel_ok :: "nat set \<Rightarrow> selector \<Rightarrow> bool" where
  "sel_ok D st \<longleftrightarrow> ran (irToVReg st) \<subseteq> D \<and> D \<subseteq> {..<nextVirtualReg st}"

text \<open>\<open>new_chunk\<close>: the code is a chunk over the registers defined so far, and its values are defined by it.\<close>

definition new_chunk :: "nat set \<Rightarrow> valueId set \<Rightarrow> selector \<Rightarrow> selector \<Rightarrow> arm_instruction list \<Rightarrow> bool" where
  "new_chunk D ids st st' code \<longleftrightarrow>
     chunk D (nextVirtualReg st) (nextVirtualReg st') code \<and> nextVirtualReg st' \<le> nextVirtualReg st + 4 \<and>
     ran (irToVReg st') \<subseteq> D \<union> written code \<and> dom (irToVReg st') \<subseteq> dom (irToVReg st) \<union> ids"

lemma getVirtualRegisterOrThrow_Inr: "getVirtualRegisterOrThrow v st = Inr w \<longleftrightarrow> irToVReg st v = Some w"
  by (auto simp: getVirtualRegisterOrThrow_def getVirtualRegister_def split: option.splits)

lemma assign_new:
  assumes "irToVReg st n = None" and "Suc (nextVirtualReg st) < 2 ^ 32"
  shows "assignVirtualRegister n st =
    (nextVirtualReg st, st\<lparr>nextVirtualReg := Suc (nextVirtualReg st), irToVReg := (irToVReg st)(n \<mapsto> nextVirtualReg st)\<rparr>)"
  using assms by (simp add: assignVirtualRegister_def getVirtualRegister_def freshVirtualRegister_def)

lemma chunkI:
  assumes "clustered code" and "written code \<subseteq> {n..<n'}" and "defined D code" and "list_all plain code" and "n \<le> n'"
  shows "chunk D n n' code"
  using assms by (simp add: chunk_def)

lemmas site_simps = reads_def writes_def

lemma irBinaryOpToARM64_not_CMP: "irBinaryOpToARM64 opc \<noteq> Inr armCMP"
  by (cases opc) (simp_all add: irBinaryOpToARM64_def)

lemma translation_chunk:
  assumes "generateAddressTranslation ga st = (insts, h, st')" and "nextVirtualReg st + 3 < 2 ^ 32" and "ga \<in> D"
  shows "chunk D (nextVirtualReg st) (nextVirtualReg st') insts" and "h \<in> written insts"
    and "irToVReg st' = irToVReg st" and "nextVirtualReg st' = nextVirtualReg st + 3"
proof -
  let ?n = "nextVirtualReg st"
  let ?a = "[MemoryInst armLDR SizeX (ArmVReg (?n + 1)) (ArmReg X0) (of_nat offset_guestMemoryBase),
             MemoryInst armLDR SizeX (ArmVReg (?n + 2)) (ArmReg X0) (of_nat offset_shadowMemory)]"
  let ?b = "[ThreeOperandInst armSUB SizeX (ArmVReg ?n) (ArmVReg ga) (ArmVReg (?n + 1)),
             ThreeOperandInst armADD SizeX (ArmVReg ?n) (ArmVReg ?n) (ArmVReg (?n + 2))]"
  have i: "insts = ?a @ ?b" "h = ?n" "st' = st\<lparr>nextVirtualReg := ?n + 3\<rparr>"
    using assms(1,2) by (auto simp: generateAddressTranslation_def freshVirtualRegister_def)
  have "clustered (?a @ ?b)"
    by (rule clustered_append) (auto simp: site_simps intro: clustered_short)
  then show "chunk D ?n (nextVirtualReg st') insts"
    unfolding i(1) by (rule chunkI) (use assms(3) in \<open>auto simp: i(3) site_simps\<close>)
  show "h \<in> written insts" by (simp add: i site_simps)
  show "irToVReg st' = irToVReg st" "nextVirtualReg st' = ?n + 3" by (simp_all add: i)
qed

lemma selectBinaryOp_shape:
  assumes "selectBinaryOp opc t l r n st = Inr (code, st')" and "sel_ok D st" and "irToVReg st n = None"
    and "l \<noteq> n" and "r \<noteq> n" and "nextVirtualReg st + 4 < 2 ^ 32"
  shows "new_chunk D {n} st st' code"
proof -
  let ?st = "st\<lparr>nextVirtualReg := Suc (nextVirtualReg st), irToVReg := (irToVReg st)(n \<mapsto> nextVirtualReg st)\<rparr>"
  have a: "assignVirtualRegister n st = (nextVirtualReg st, ?st)" using assms(3,6) by (intro assign_new) auto
  from assms(1,4,5) obtain x y where xy: "irToVReg st l = Some x" "irToVReg st r = Some y" "st' = ?st"
    and c: "(\<exists>cnd. code = [TwoOperandInst armCMP SizeX (ArmVReg x) (ArmVReg y), ConditionalInst armCSET SizeX (ArmVReg (nextVirtualReg st)) cnd]) \<or>
      (\<exists>aopc. aopc \<noteq> armCMP \<and> code = [ThreeOperandInst aopc (irTypeToDataSize t) (ArmVReg (nextVirtualReg st)) (ArmVReg x) (ArmVReg y)])"
    using irBinaryOpToARM64_not_CMP [of opc]
    by (auto simp: selectBinaryOp_def a bindR_Inr_iff getVirtualRegisterOrThrow_Inr split: option.splits)
  have "x \<in> D" "y \<in> D" using xy assms(2) by (auto simp: sel_ok_def ranI)
  with c have "chunk D (nextVirtualReg st) (nextVirtualReg st') code \<and> written code = {nextVirtualReg st}"
    by (auto simp: xy site_simps intro!: chunkI clustered_short)
  with assms(2) xy(3) show ?thesis by (auto simp: new_chunk_def sel_ok_def ran_def)
qed

lemma selectLoad_shape:
  assumes "selectLoad t a n st = Inr (code, st')" and "sel_ok D st" and "irToVReg st n = None"
    and "a \<noteq> n" and "nextVirtualReg st + 4 < 2 ^ 32"
  shows "new_chunk D {n} st st' code"
proof -
  let ?n = "nextVirtualReg st"
  let ?st = "st\<lparr>nextVirtualReg := Suc ?n, irToVReg := (irToVReg st)(n \<mapsto> ?n)\<rparr>"
  have as: "assignVirtualRegister n st = (?n, ?st)" using assms(3,5) by (intro assign_new) auto
  from assms(1,4) obtain x where x: "irToVReg st a = Some x" "getVirtualRegisterOrThrow a ?st = Inr x"
    by (auto simp: selectLoad_def as bindR_Inr_iff getVirtualRegisterOrThrow_Inr)
  obtain insts h st2 where g: "generateAddressTranslation x ?st = (insts, h, st2)" using prod_cases3 by blast
  from assms(1) x(2) g have gen: "generateAddressTranslation x ?st = (insts, h, st')"
    and code: "code = insts @ [MemoryInst armLDR (irTypeToDataSize t) (ArmVReg ?n) (ArmVReg h) 0]"
    by (simp_all add: selectLoad_def as)
  have D: "x \<in> D" using x assms(2) by (auto simp: sel_ok_def ranI)
  note tr = translation_chunk [OF gen _ D]
  have room: "nextVirtualReg ?st + 3 < 2 ^ 32" using assms(5) by simp
  have w: "written insts \<subseteq> {Suc ?n..<nextVirtualReg st'}" "nextVirtualReg st' = ?n + 4" "h \<in> written insts"
    "clustered insts" "defined D insts" "list_all plain insts"
    using tr [OF room] by (auto simp: chunk_def)
  have "clustered code" unfolding code
    by (rule clustered_append) (use w(1,4) in \<open>auto simp: site_simps intro: clustered_short\<close>)
  then have "chunk D ?n (nextVirtualReg st') code"
    by (rule chunkI) (use w in \<open>auto simp: code site_simps defined_append\<close>)
  moreover have "written code = insert ?n (written insts)" by (simp add: code site_simps)
  ultimately show ?thesis
    using assms(2) tr(3) [OF room] w(2) by (auto simp: new_chunk_def sel_ok_def ran_def)
qed

lemma selectStore_shape:
  assumes "selectStore v a st = Inr (code, st')" and "sel_ok D st" and "nextVirtualReg st + 4 < 2 ^ 32"
  shows "new_chunk D {} st st' code"
proof -
  let ?n = "nextVirtualReg st"
  from assms(1) obtain x y where x: "irToVReg st a = Some x" "irToVReg st v = Some y"
    "getVirtualRegisterOrThrow a st = Inr x" "getVirtualRegisterOrThrow v st = Inr y"
    by (auto simp: selectStore_def bindR_Inr_iff getVirtualRegisterOrThrow_Inr)
  obtain insts h st2 where g: "generateAddressTranslation x st = (insts, h, st2)" using prod_cases3 by blast
  from assms(1) x(3,4) g have gen: "generateAddressTranslation x st = (insts, h, st')"
    and code: "code = insts @ [MemoryInst armSTR (irTypeToDataSize (getValueType v st)) (ArmVReg y) (ArmVReg h) 0]"
    by (simp_all add: selectStore_def)
  have D: "x \<in> D" "y \<in> D" using x assms(2) by (auto simp: sel_ok_def ranI)
  have room: "?n + 3 < 2 ^ 32" using assms(3) by simp
  note tr = translation_chunk [OF gen room D(1)]
  have "chunk (D \<union> written insts) (nextVirtualReg st') (nextVirtualReg st')
      [MemoryInst armSTR (irTypeToDataSize (getValueType v st)) (ArmVReg y) (ArmVReg h) 0]"
    by (rule chunkI) (use tr(2) D in \<open>auto simp: site_simps intro: clustered_short\<close>)
  from chunk_append [OF tr(1) this] have "chunk D ?n (nextVirtualReg st') code" by (simp add: code)
  then show ?thesis using assms(2) tr(3,4) by (auto simp: new_chunk_def sel_ok_def)
qed

text \<open>The instructions selected one for one: a move or a register access into a new register.\<close>

lemma single_shape:
  assumes "sel_ok D st" and "irToVReg st n = None" and "nextVirtualReg st + 4 < 2 ^ 32"
    and "writes inst = {nextVirtualReg st}" and "reads inst \<subseteq> D" and "plain inst"
  shows "new_chunk D {n} st (snd (assignVirtualRegister n st)) [inst]"
proof -
  have "chunk D (nextVirtualReg st) (Suc (nextVirtualReg st)) [inst]"
    by (rule chunkI) (use assms(4-) in \<open>auto intro: clustered_short\<close>)
  moreover have "ran ((irToVReg st)(n \<mapsto> nextVirtualReg st)) \<subseteq> D \<union> {nextVirtualReg st}"
    using assms(1) by (auto simp: sel_ok_def ran_def)
  ultimately show ?thesis using assms(2-4) by (simp add: new_chunk_def assign_new)
qed

lemma select_move_shape:
  assumes "selectSext t v n st = Inr (inst, st') \<or> selectZext t v n st = Inr (inst, st') \<or> selectTrunc t v n st = Inr (inst, st')"
    and "sel_ok D st" and "irToVReg st n = None" and "v \<noteq> n" and "nextVirtualReg st + 4 < 2 ^ 32"
  shows "new_chunk D {n} st st' [inst]"
proof -
  have as: "assignVirtualRegister n st = (nextVirtualReg st,
      st\<lparr>nextVirtualReg := Suc (nextVirtualReg st), irToVReg := (irToVReg st)(n \<mapsto> nextVirtualReg st)\<rparr>)"
    using assms(3,5) by (intro assign_new) auto
  from assms(1,4) obtain x opc sz where x: "irToVReg st v = Some x" "opc \<noteq> armCMP"
    "inst = TwoOperandInst opc sz (ArmVReg (nextVirtualReg st)) (ArmVReg x)" "st' = snd (assignVirtualRegister n st)"
    by (auto simp: selectSext_def selectZext_def selectTrunc_def as bindR_Inr_iff getVirtualRegisterOrThrow_Inr
        split: ir_type.splits)
  then have "x \<in> D" using assms(2) by (auto simp: sel_ok_def ranI)
  then show ?thesis unfolding x(4) by (intro single_shape) (use assms x in \<open>auto simp: site_simps\<close>)
qed

text \<open>Recording the type of a value changes neither the registers handed out nor what is required of them.\<close>

lemma recordValueType_shape [simp]:
  "sel_ok D (recordValueType n t st) = sel_ok D st"
  "new_chunk D i (recordValueType n t st) st' c = new_chunk D i st st' c"
  "nextVirtualReg (recordValueType n t st) = nextVirtualReg st"
  "irToVReg (recordValueType n t st) m = irToVReg st m"
  by (simp_all add: sel_ok_def recordValueType_def new_chunk_def)

lemma assign_recorded:
  "irToVReg st n = None \<Longrightarrow> nextVirtualReg st + 4 < 2 ^ 32 \<Longrightarrow>
    assignVirtualRegister n (recordValueType n t st) = (nextVirtualReg st, snd (assignVirtualRegister n (recordValueType n t st)))"
  by (simp add: assign_new)

lemma selectConst_shape:
  assumes s: "selectConst t v n (recordValueType n t st) = (code, st')" and D: "sel_ok D st" and n: "irToVReg st n = None"
    and room: "nextVirtualReg st + 4 < 2 ^ 32"
  shows "new_chunk D {n} st st' code"
proof -
  have "chunk D (nextVirtualReg st) (Suc (nextVirtualReg st)) (selectConstIntoRegister t v (ArmVReg (nextVirtualReg st)))"
    "written (selectConstIntoRegister t v (ArmVReg (nextVirtualReg st))) = {nextVirtualReg st}"
    using const_chunk [of "ArmVReg (nextVirtualReg st)" "nextVirtualReg st" "Suc (nextVirtualReg st)"] by simp_all
  with s n room D show ?thesis
    by (auto simp: selectConst_def assign_new new_chunk_def sel_ok_def recordValueType_def split: prod.splits)
qed

lemma selectRegRead_shape:
  assumes s: "selectRegRead q n (recordValueType n i64 st) = (inst, st')" and D: "sel_ok D st" and n: "irToVReg st n = None"
    and room: "nextVirtualReg st + 4 < 2 ^ 32"
  shows "new_chunk D {n} st st' [inst]"
proof -
  have "inst = MemoryInst armLDR SizeX (ArmVReg (nextVirtualReg st)) (ArmReg X0) (registerOffset q)"
    "st' = snd (assignVirtualRegister n (recordValueType n i64 st))"
    using s assign_recorded [OF n room, of i64] by (auto simp: selectRegRead_def split: prod.splits)
  with single_shape [of D "recordValueType n i64 st" n inst] D n room show ?thesis by (simp add: site_simps)
qed

lemma selectRegWrite_shape:
  assumes s: "selectRegWrite q v st = Inr (inst, st')" and D: "sel_ok D st"
  shows "new_chunk D {} st st' [inst]"
proof -
  from s obtain x where x: "irToVReg st v = Some x" "inst = MemoryInst armSTR SizeX (ArmVReg x) (ArmReg X0) (registerOffset q)" "st' = st"
    by (auto simp: selectRegWrite_def bindR_Inr_iff getVirtualRegisterOrThrow_Inr)
  with D have "x \<in> D" by (auto simp: sel_ok_def ranI)
  then have "chunk D (nextVirtualReg st) (nextVirtualReg st) [inst]"
    unfolding x(2) by (intro chunkI) (auto simp: site_simps intro: clustered_short)
  with D x(3) show ?thesis by (auto simp: new_chunk_def sel_ok_def)
qed

lemma selectInstruction_shape:
  assumes s: "selectInstruction inst st = Inr (code, st')" and D: "sel_ok D st"
    and n: "produces_value (ir_kind inst) \<Longrightarrow> irToVReg st (ir_valueId inst) = None"
    and op: "ir_valueId inst \<notin> ir_operands (ir_kind inst)" and room: "nextVirtualReg st + 4 < 2 ^ 32"
  shows "new_chunk D (if produces_value (ir_kind inst) then {ir_valueId inst} else {}) st st' code"
proof -
  let ?n = "ir_valueId inst" and ?r = "\<lambda>t. recordValueType (ir_valueId inst) t st"
  have move: "new_chunk D {?n} st st' code"
    if m: "single X = Inr (code, st')" and x: "X = selectSext t v ?n (?r t) \<or> X = selectZext t v ?n (?r t) \<or> X = selectTrunc t v ?n (?r t)"
      and v: "v \<noteq> ?n" and new: "irToVReg st ?n = None" for X t v
  proof -
    from m obtain i where i: "X = Inr (i, st')" "code = [i]" by (auto simp: single_def bindR_Inr_iff)
    have "new_chunk D {?n} (?r t) st' [i]"
      by (rule select_move_shape) (use i x v new D room in auto)
    with i(2) show ?thesis by simp
  qed
  show ?thesis
  proof (cases "ir_kind inst")
    case (Const t v)
    with s n selectConst_shape [OF _ D _ room] show ?thesis by (auto simp: selectInstruction_def Let_def)
  next
    case (BinaryOp opc t l r)
    with s have "selectBinaryOp opc t l r ?n (?r t) = Inr (code, st')" by (simp add: selectInstruction_def Let_def)
    from selectBinaryOp_shape [OF this, of D] BinaryOp n op D room show ?thesis by simp
  next
    case (Sext t v)
    with s n op show ?thesis by (auto simp: selectInstruction_def Let_def intro: move)
  next
    case (Zext t v)
    with s n op show ?thesis by (auto simp: selectInstruction_def Let_def intro: move)
  next
    case (Trunc t v)
    with s n op show ?thesis by (auto simp: selectInstruction_def Let_def intro: move)
  next
    case (Load t a)
    with s have "selectLoad t a ?n (?r t) = Inr (code, st')" by (simp add: selectInstruction_def Let_def)
    from selectLoad_shape [OF this, of D] Load n op D room show ?thesis by simp
  next
    case (Store v a)
    with selectStore_shape [OF _ D room] s show ?thesis by (simp add: selectInstruction_def Let_def)
  next
    case (RegRead q)
    with s n selectRegRead_shape [OF _ D _ room] show ?thesis
      by (auto simp: selectInstruction_def Let_def single_def split: prod.splits)
  next
    case (RegWrite q v)
    with s selectRegWrite_shape [OF _ D] show ?thesis
      by (auto simp: selectInstruction_def Let_def single_def bindR_Inr_iff)
  qed
qed


subsection \<open>A block\<close>

lemma sel_ok_next:
  assumes "sel_ok D st" and "new_chunk D ids st st' code"
  shows "sel_ok (D \<union> written code) st'"
  using assms by (fastforce simp: sel_ok_def new_chunk_def chunk_def)

text \<open>An IR sequence that runs reads only values of earlier instructions.\<close>

lemma ir_exec1_operands: "ir_exec1 ok inst s = Some s' \<Longrightarrow> ir_operands (ir_kind inst) \<subseteq> dom (ir_env s)"
  by (cases "ir_kind inst") (auto simp: ir_exec1.simps bind_eq_Some_conv)

lemma selectLoop_shape:
  assumes "selectLoop insts st = Inr (code, st')" and "sel_ok D st" and "nextVirtualReg st + 4 * length insts < 2 ^ 32"
    and "distinct (map ir_valueId insts)" and "dom (irToVReg st) \<inter> ir_valueId ` set insts = {}"
    and "dom (ir_env s) \<inter> ir_valueId ` set insts = {}" and "ir_exec ok insts s = Some s'"
  shows "chunk D (nextVirtualReg st) (nextVirtualReg st') code \<and> sel_ok (D \<union> written code) st' \<and>
    nextVirtualReg st' \<le> nextVirtualReg st + 4 * length insts"
  using assms
proof (induction insts arbitrary: st D code s)
  case Nil
  then show ?case by (simp add: chunk_Nil)
next
  case (Cons inst insts)
  from Cons.prems(1) obtain c1 st1 c2 where 1: "selectInstruction inst st = Inr (c1, st1)" "selectLoop insts st1 = Inr (c2, st')"
    and code: "code = c1 @ c2" by (auto simp: bindR_Inr_iff)
  from Cons.prems(7) obtain s1 where s1: "ir_exec1 ok inst s = Some s1" "ir_exec ok insts s1 = Some s'"
    by (auto simp: bind_eq_Some_conv)
  let ?i = "if produces_value (ir_kind inst) then {ir_valueId inst} else {}"
  have n: "ir_valueId inst \<notin> ir_valueId ` set insts" using Cons.prems(4) by simp
  have "ir_valueId inst \<notin> dom (ir_env s)" using Cons.prems(6) by auto
  with ir_exec1_operands [OF s1(1)] have op: "ir_valueId inst \<notin> ir_operands (ir_kind inst)" by blast
  have new: "irToVReg st (ir_valueId inst) = None" using Cons.prems(5) by auto
  have room: "nextVirtualReg st + 4 < 2 ^ 32" using Cons.prems(3) by simp
  note c = selectInstruction_shape [OF 1(1) Cons.prems(2) new op room]
  then have c': "chunk D (nextVirtualReg st) (nextVirtualReg st1) c1" "nextVirtualReg st1 \<le> nextVirtualReg st + 4"
    "dom (irToVReg st1) \<subseteq> insert (ir_valueId inst) (dom (irToVReg st))"
    by (auto simp: new_chunk_def split: if_splits)
  have "dom (irToVReg st1) \<inter> ir_valueId ` set insts = {}"
    by (rule disjoint_step [OF c'(3) n]) (use Cons.prems(5) in simp)
  moreover have "dom (ir_env s1) \<inter> ir_valueId ` set insts = {}"
    by (rule disjoint_step [OF ir_exec1_dom [OF s1(1)] n]) (use Cons.prems(6) in simp)
  moreover have "nextVirtualReg st1 + 4 * length insts < 2 ^ 32" "distinct (map ir_valueId insts)"
    using c'(2) Cons.prems(3,4) by simp_all
  ultimately have rest: "chunk (D \<union> written c1) (nextVirtualReg st1) (nextVirtualReg st') c2"
    "sel_ok (D \<union> written c1 \<union> written c2) st'" "nextVirtualReg st' \<le> nextVirtualReg st1 + 4 * length insts"
    using Cons.IH [OF 1(2) sel_ok_next [OF Cons.prems(2) c] _ _ _ _ s1(2)] by blast+
  show ?case
    using chunk_append [OF c'(1) rest(1)] rest(2,3) c'(2) by (simp add: code Un_assoc)
qed

text \<open>
  The temporaries of a conditional branch are assigned through the value numbers \<open>N\<close> and \<open>N + 2\<close>,
  where \<open>N\<close> is the register counter; they are new registers unless such a value exists.
\<close>

definition no_alias :: "terminator_kind \<Rightarrow> selector \<Rightarrow> bool" where
  "no_alias trm st \<longleftrightarrow>
     (case trm of
        CondBranch c t f \<Rightarrow> irToVReg st (nextVirtualReg st) = None \<and> irToVReg st (nextVirtualReg st + 2) = None
      | _ \<Rightarrow> True)"

lemma selectTerminator_shape:
  assumes s: "selectTerminator trm st = Inr (code, st')" and D: "sel_ok D st" and room: "nextVirtualReg st + 5 < 2 ^ 32"
    and a: "no_alias trm st"
  shows "chunk D (nextVirtualReg st) (nextVirtualReg st + 5) code"
proof -
  let ?n = "nextVirtualReg st"
  have ret: "chunk E n m [retInst]" if "n \<le> m" for E n m
    by (rule chunkI) (use that in \<open>auto simp: retInst_def site_simps intro: clustered_short\<close>)
  have X0: "chunk D ?n (?n + 5) (selectConstIntoRegister t v (ArmReg X0) @ [retInst])" for t v
    by (rule chunk_append [OF const_chunk(1) [of _ ?n ?n] ret]) auto
  have mov: "chunk E n m [TwoOperandInst armMOV SizeX (ArmReg X0) (ArmVReg w), retInst]" if "w \<in> E" "n \<le> m" for E n m w
    by (rule chunkI) (use that in \<open>auto simp: retInst_def site_simps intro: clustered_short\<close>)
  show ?thesis
  proof (cases trm)
    case (Branch x)
    with s X0 show ?thesis by (auto simp: selectTerminator_def)
  next
    case (Return w)
    with s X0 mov D show ?thesis
      by (cases w) (auto simp: selectTerminator_def bindR_Inr_iff getVirtualRegisterOrThrow_Inr sel_ok_def ranI subset_iff)
  next
    case (CondBranch v x y)
    with s obtain w where w: "irToVReg st v = Some w" "getVirtualRegisterOrThrow v st = Inr w"
      by (auto simp: selectTerminator_def selectCondBranch_def bindR_Inr_iff getVirtualRegisterOrThrow_Inr)
    with D have "w \<in> D" by (auto simp: sel_ok_def ranI)
    let ?cx = "selectConstIntoRegister i64 x (ArmVReg (?n + 1))"
    let ?cy = "selectConstIntoRegister i64 y (ArmVReg (?n + 3))"
    let ?cmp = "[TwoOperandInst armCMP SizeX (ArmVReg w) (ArmImm 0)]"
    let ?sel = "[ConditionalSelectInst armCSEL SizeX (ArmVReg (?n + 4)) (ArmVReg (?n + 1)) (ArmVReg (?n + 3)) condNE]"
    have n: "?n + 3 = 3 + ?n" "?n + 4 = 4 + ?n" by simp_all
    have code: "code = ?cmp @ ?cx @ ?cy @ ?sel @ [TwoOperandInst armMOV SizeX (ArmReg X0) (ArmVReg (?n + 4)), retInst]"
      using s CondBranch a room w(2)
      by (simp add: selectTerminator_def selectCondBranch_def freshVirtualRegister_def assignVirtualRegister_def
          getVirtualRegister_def selectConst_def no_alias_def Let_def n)
    have 1: "chunk D ?n (?n + 1) ?cmp"
      by (rule chunkI) (use \<open>w \<in> D\<close> in \<open>auto simp: site_simps intro: clustered_short\<close>)
    have x: "chunk E (?n + 1) (?n + 2) ?cx" "written ?cx = {?n + 1}" for E
      using const_chunk [where op = "ArmVReg (?n + 1)" and n = "?n + 1" and n' = "?n + 2" and t = i64 and v = x] by simp_all
    have y: "chunk E (?n + 2) (?n + 4) ?cy" "written ?cy = {?n + 3}" for E
      using const_chunk [where op = "ArmVReg (?n + 3)" and n = "?n + 2" and n' = "?n + 4" and t = i64 and v = y] by simp_all
    have 2: "chunk E (?n + 4) (?n + 5) ?sel" if "?n + 1 \<in> E" "?n + 3 \<in> E" for E
      by (rule chunkI) (use that in \<open>auto simp: site_simps intro: clustered_short\<close>)
    show ?thesis unfolding code
      by (intro chunk_append [OF 1] chunk_append [OF x(1)] chunk_append [OF y(1)] chunk_append [OF 2] mov)
         (auto simp: x(2) [simplified] y(2) [simplified] site_simps)
  qed
qed

definition branch_safe :: "basic_block \<Rightarrow> bool" where
  "branch_safe blk \<longleftrightarrow>
     (case selectLoop (instructions blk) InstructionSelector_init of
        Inr (_, st) \<Rightarrow> no_alias (terminator blk) st
      | Inl _ \<Rightarrow> True)"

lemma selectInstructions_shape:
  assumes s: "selectInstructions blk InstructionSelector_init = Inr (code, st')" and d: "distinct (map ir_valueId (instructions blk))"
    and room: "4 * length (instructions blk) + 5 < 2 ^ 32" and run: "ir_run ok blk regs gm = Some res" and a: "branch_safe blk"
  shows "clustered code" and "defined_first code" and "list_all plain code"
proof -
  from s obtain c1 st1 c2 where c: "selectLoop (instructions blk) InstructionSelector_init = Inr (c1, st1)"
    "selectTerminator (terminator blk) st1 = Inr (c2, st')" "code = c1 @ c2"
    by (auto simp: selectInstructions_def bindR_Inr_iff)
  from run obtain s' where e: "ir_exec ok (instructions blk) \<lparr> ir_env = Map.empty, ir_regs = regs, ir_mem = gm \<rparr> = Some s'"
    by (auto simp: ir_run_def bind_eq_Some_conv)
  have "sel_ok {} InstructionSelector_init" by (simp add: sel_ok_def InstructionSelector_init_def)
  from selectLoop_shape [OF c(1) this _ d _ _ e] room
  have 1: "chunk {} 0 (nextVirtualReg st1) c1" "sel_ok (written c1) st1" "nextVirtualReg st1 \<le> 4 * length (instructions blk)"
    by (auto simp: InstructionSelector_init_def)
  have "nextVirtualReg st1 + 5 < 2 ^ 32" "no_alias (terminator blk) st1" using 1(3) room a c(1) by (auto simp: branch_safe_def)
  from chunk_append [OF 1(1)] selectTerminator_shape [OF c(2) 1(2) this] have "chunk {} 0 (nextVirtualReg st1 + 5) code"
    by (simp add: c(3))
  then show "clustered code" "defined_first code" "list_all plain code" by (auto simp: chunk_def defined_first)
qed

end
