(* ===== verification/RiscvInstruction.thy ===== *)
theory RiscvInstruction
  imports Errors
begin

text \<open>
  \<open>lib/RISCV/Instruction.h\<close> and \<open>lib/RISCV/Instruction.cpp\<close>: the decoded RISC-V instruction, its
  operand accessors and its textual form. The C++ enumerators \<open>Opcode::ADD\<close>, \<dots> are written with
  the prefix \<open>rv\<close>, since the ARM64 opcodes have the same names.
\<close>

datatype rv_opcode =
    rvADD | rvADDI | rvADDW | rvADDIW | rvSUB | rvSUBW | rvAND | rvANDI
  | rvOR | rvORI | rvXOR | rvXORI | rvSLL | rvSLLI | rvSLLW | rvSLLIW
  | rvSRL | rvSRLI | rvSRLW | rvSRLIW | rvSRA | rvSRAI | rvSRAW | rvSRAIW
  | rvSLT | rvSLTI | rvSLTU | rvSLTIU | rvLB | rvLH | rvLW | rvLD
  | rvLBU | rvLHU | rvLWU | rvSB | rvSH | rvSW | rvSD | rvBEQ
  | rvBNE | rvBLT | rvBGE | rvBLTU | rvBGEU | rvJAL | rvJALR | rvLUI
  | rvAUIPC | rvECALL | rvEBREAK | rvINVALID

datatype rv_operand = RvRegister u32 | RvImmediate i64

record rv_instruction =
  opcode :: rv_opcode
  operands :: "rv_operand list"
  rawInstruction :: u32
  address :: u64

definition isValid :: "rv_instruction \<Rightarrow> bool" where
  "isValid inst = (opcode inst \<noteq> rvINVALID)"

definition getRegister :: "rv_instruction \<Rightarrow> nat \<Rightarrow> u32 result" where
  "getRegister inst index =
     bindR (vec_nth (operands inst) index)
       (\<lambda>op. case op of RvRegister v \<Rightarrow> Inr v | RvImmediate _ \<Rightarrow> Inl BadVariantAccess)"

definition getImmediate :: "rv_instruction \<Rightarrow> nat \<Rightarrow> i64 result" where
  "getImmediate inst index =
     bindR (vec_nth (operands inst) index)
       (\<lambda>op. case op of RvImmediate v \<Rightarrow> Inr v | RvRegister _ \<Rightarrow> Inl BadVariantAccess)"

subsection \<open>Textual form\<close>

fun rvOpcodeToString :: "rv_opcode \<Rightarrow> string" where
  "rvOpcodeToString rvADD = ''ADD''"
| "rvOpcodeToString rvADDI = ''ADDI''"
| "rvOpcodeToString rvADDW = ''ADDW''"
| "rvOpcodeToString rvADDIW = ''ADDIW''"
| "rvOpcodeToString rvSUB = ''SUB''"
| "rvOpcodeToString rvSUBW = ''SUBW''"
| "rvOpcodeToString rvAND = ''AND''"
| "rvOpcodeToString rvANDI = ''ANDI''"
| "rvOpcodeToString rvOR = ''OR''"
| "rvOpcodeToString rvORI = ''ORI''"
| "rvOpcodeToString rvXOR = ''XOR''"
| "rvOpcodeToString rvXORI = ''XORI''"
| "rvOpcodeToString rvSLL = ''SLL''"
| "rvOpcodeToString rvSLLI = ''SLLI''"
| "rvOpcodeToString rvSLLW = ''SLLW''"
| "rvOpcodeToString rvSLLIW = ''SLLIW''"
| "rvOpcodeToString rvSRL = ''SRL''"
| "rvOpcodeToString rvSRLI = ''SRLI''"
| "rvOpcodeToString rvSRLW = ''SRLW''"
| "rvOpcodeToString rvSRLIW = ''SRLIW''"
| "rvOpcodeToString rvSRA = ''SRA''"
| "rvOpcodeToString rvSRAI = ''SRAI''"
| "rvOpcodeToString rvSRAW = ''SRAW''"
| "rvOpcodeToString rvSRAIW = ''SRAIW''"
| "rvOpcodeToString rvSLT = ''SLT''"
| "rvOpcodeToString rvSLTI = ''SLTI''"
| "rvOpcodeToString rvSLTU = ''SLTU''"
| "rvOpcodeToString rvSLTIU = ''SLTIU''"
| "rvOpcodeToString rvLB = ''LB''"
| "rvOpcodeToString rvLH = ''LH''"
| "rvOpcodeToString rvLW = ''LW''"
| "rvOpcodeToString rvLD = ''LD''"
| "rvOpcodeToString rvLBU = ''LBU''"
| "rvOpcodeToString rvLHU = ''LHU''"
| "rvOpcodeToString rvLWU = ''LWU''"
| "rvOpcodeToString rvSB = ''SB''"
| "rvOpcodeToString rvSH = ''SH''"
| "rvOpcodeToString rvSW = ''SW''"
| "rvOpcodeToString rvSD = ''SD''"
| "rvOpcodeToString rvBEQ = ''BEQ''"
| "rvOpcodeToString rvBNE = ''BNE''"
| "rvOpcodeToString rvBLT = ''BLT''"
| "rvOpcodeToString rvBGE = ''BGE''"
| "rvOpcodeToString rvBLTU = ''BLTU''"
| "rvOpcodeToString rvBGEU = ''BGEU''"
| "rvOpcodeToString rvJAL = ''JAL''"
| "rvOpcodeToString rvJALR = ''JALR''"
| "rvOpcodeToString rvLUI = ''LUI''"
| "rvOpcodeToString rvAUIPC = ''AUIPC''"
| "rvOpcodeToString rvECALL = ''ECALL''"
| "rvOpcodeToString rvEBREAK = ''EBREAK''"
| "rvOpcodeToString rvINVALID = ''INVALID''"

fun rvOperandToString :: "rv_operand \<Rightarrow> string" where
  "rvOperandToString (RvRegister v) = ''x'' @ dec_string (unat v)"
| "rvOperandToString (RvImmediate v) = int_string (sint v)"

text \<open>The loop that separates the operands by a comma and a space.\<close>

fun join_operands :: "string list \<Rightarrow> string" where
  "join_operands [] = []"
| "join_operands [s] = s"
| "join_operands (s # ss) = s @ '', '' @ join_operands ss"

definition rvToString :: "rv_instruction \<Rightarrow> string" where
  "rvToString inst =
     ''RV64I[0x'' @ pad_zero 8 (hex_string (unat (rawInstruction inst))) @ '' @ 0x'' @
     hex_string (unat (address inst)) @ ''] '' @
     (if \<not> isValid inst then ''INVALID''
      else rvOpcodeToString (opcode inst) @
        (if operands inst = [] then []
         else '' '' @ join_operands (map rvOperandToString (operands inst))))"

subsection \<open>Facts\<close>

lemma getRegister_RvRegister [simp, result_simps]:
  "i < length (operands inst) \<Longrightarrow> operands inst ! i = RvRegister r \<Longrightarrow> getRegister inst i = Inr r"
  by (simp add: getRegister_def)

lemma getImmediate_RvImmediate [simp, result_simps]:
  "i < length (operands inst) \<Longrightarrow> operands inst ! i = RvImmediate v \<Longrightarrow> getImmediate inst i = Inr v"
  by (simp add: getImmediate_def)

end
