(* ===== verification/Lifter.thy ===== *)
theory Lifter
  imports RiscvInstruction IR
begin

text \<open>
  \<open>lib/Lifter.h\<close> and \<open>lib/Lifter.cpp\<close>: lifting a basic block of RISC-V instructions to the IR. The
  members of class \<open>Lifter\<close> are the record \<open>lifter\<close>; every method takes the record and returns it
  updated, an exception is an \<open>Inl\<close>.

  \<open>finalizeRegisterWrites\<close> iterates over a \<open>std::unordered_set\<close>, whose order the C++ standard
  leaves open. \<open>modifiedRegisters\<close> is the list of distinct members in insertion order, and the
  iteration order is the parameter \<open>order\<close>, of which the theorems assume only that it visits every
  member once.
\<close>

record lifter =
  nextValueId :: valueId
  cachedRegisterValues :: "u32 \<rightharpoonup> valueId"
  modifiedRegisters :: "u32 list"
  currentInstructions :: "ir_instruction list"

definition REG_ZERO :: u32 where "REG_ZERO = 0"

definition REG_RA :: u32 where "REG_RA = 1"

definition JALR_ALIGN_MASK :: u64 where "JALR_ALIGN_MASK = NOT 1"

definition Lifter_init :: lifter where
  "Lifter_init =
     \<lparr> nextValueId = 1, cachedRegisterValues = Map.empty, modifiedRegisters = [], currentInstructions = [] \<rparr>"

subsection \<open>Instruction creation\<close>

definition addInstruction :: "ir_kind \<Rightarrow> lifter \<Rightarrow> valueId \<times> lifter" where
  "addInstruction kind st =
     (let valueId = nextValueId st
      in (valueId,
          st\<lparr> nextValueId := (valueId + 1) mod 2 ^ 64,
              currentInstructions := currentInstructions st @ [\<lparr> ir_valueId = valueId, ir_kind = kind \<rparr>] \<rparr>))"

definition createConstant :: "ir_type \<Rightarrow> Prelude.i64 \<Rightarrow> lifter \<Rightarrow> valueId \<times> lifter" where
  "createConstant type v = addInstruction (Const type v)"

definition createBinaryOp :: "binary_opcode \<Rightarrow> ir_type \<Rightarrow> valueId \<Rightarrow> valueId \<Rightarrow> lifter \<Rightarrow> valueId \<times> lifter" where
  "createBinaryOp opc type lhs rhs = addInstruction (BinaryOp opc type lhs rhs)"

definition createLoad :: "ir_type \<Rightarrow> valueId \<Rightarrow> lifter \<Rightarrow> valueId \<times> lifter" where
  "createLoad type addr = addInstruction (Load type addr)"

definition createStore :: "valueId \<Rightarrow> valueId \<Rightarrow> lifter \<Rightarrow> valueId \<times> lifter" where
  "createStore v addr = addInstruction (Store v addr)"

definition createSext :: "ir_type \<Rightarrow> valueId \<Rightarrow> lifter \<Rightarrow> valueId \<times> lifter" where
  "createSext toType operand = addInstruction (Sext toType operand)"

definition createZext :: "ir_type \<Rightarrow> valueId \<Rightarrow> lifter \<Rightarrow> valueId \<times> lifter" where
  "createZext toType operand = addInstruction (Zext toType operand)"

definition createTrunc :: "ir_type \<Rightarrow> valueId \<Rightarrow> lifter \<Rightarrow> valueId \<times> lifter" where
  "createTrunc toType operand = addInstruction (Trunc toType operand)"

subsection \<open>Register values\<close>

definition getRegisterValue :: "u32 \<Rightarrow> lifter \<Rightarrow> valueId \<times> lifter" where
  "getRegisterValue regNum st =
     (if regNum = REG_ZERO then createConstant i64 0 st
      else case cachedRegisterValues st regNum of
        Some v \<Rightarrow> (v, st)
      | None \<Rightarrow>
          (let (v, st) = addInstruction (RegRead regNum) st
           in (v, st\<lparr> cachedRegisterValues := (cachedRegisterValues st)(regNum \<mapsto> v) \<rparr>)))"

definition setRegisterValue :: "u32 \<Rightarrow> valueId \<Rightarrow> lifter \<Rightarrow> lifter" where
  "setRegisterValue regNum v st =
     (if regNum \<noteq> REG_ZERO
      then st\<lparr> cachedRegisterValues := (cachedRegisterValues st)(regNum \<mapsto> v),
               modifiedRegisters :=
                 (if regNum \<in> set (modifiedRegisters st) then modifiedRegisters st
                  else modifiedRegisters st @ [regNum]) \<rparr>
      else st)"

text \<open>\<open>cachedRegisterValues[regNum]\<close> inserts the value 0 for a missing key.\<close>

definition finalizeRegisterWrite :: "u32 \<Rightarrow> lifter \<Rightarrow> lifter" where
  "finalizeRegisterWrite regNum st =
     (let finalValue = (case cachedRegisterValues st regNum of Some v \<Rightarrow> v | None \<Rightarrow> 0);
          st = st\<lparr> cachedRegisterValues := (cachedRegisterValues st)(regNum \<mapsto> finalValue) \<rparr>
      in snd (addInstruction (RegWrite regNum finalValue) st))"

definition finalizeRegisterWrites :: "(u32 list \<Rightarrow> u32 list) \<Rightarrow> lifter \<Rightarrow> lifter" where
  "finalizeRegisterWrites order st = fold finalizeRegisterWrite (order (modifiedRegisters st)) st"

subsection \<open>Instruction patterns\<close>

definition liftRTypeBinaryOp :: "rv_instruction \<Rightarrow> binary_opcode \<Rightarrow> ir_type \<Rightarrow> lifter \<Rightarrow> lifter result" where
  "liftRTypeBinaryOp inst opc type st =
     bindR (getRegister inst 1) (\<lambda>r1. let (rs1, st) = getRegisterValue r1 st in
     bindR (getRegister inst 2) (\<lambda>r2. let (rs2, st) = getRegisterValue r2 st in
     let (res, st) = createBinaryOp opc type rs1 rs2 st in
     bindR (getRegister inst 0) (\<lambda>rd. Inr (setRegisterValue rd res st))))"

definition liftITypeBinaryOp :: "rv_instruction \<Rightarrow> binary_opcode \<Rightarrow> ir_type \<Rightarrow> lifter \<Rightarrow> lifter result" where
  "liftITypeBinaryOp inst opc type st =
     bindR (getRegister inst 1) (\<lambda>r1. let (rs1, st) = getRegisterValue r1 st in
     bindR (getImmediate inst 2) (\<lambda>i. let (imm, st) = createConstant type i st in
     let (res, st) = createBinaryOp opc type rs1 imm st in
     bindR (getRegister inst 0) (\<lambda>rd. Inr (setRegisterValue rd res st))))"

definition liftWTypeBinaryOp :: "rv_instruction \<Rightarrow> binary_opcode \<Rightarrow> lifter \<Rightarrow> lifter result" where
  "liftWTypeBinaryOp inst opc st =
     bindR (getRegister inst 1) (\<lambda>r1. let (rs1, st) = getRegisterValue r1 st in
     bindR (getRegister inst 2) (\<lambda>r2. let (rs2, st) = getRegisterValue r2 st in
     let (rs1_trunc, st) = createTrunc i32 rs1 st in
     let (rs2_trunc, st) = createTrunc i32 rs2 st in
     let (result_32, st) = createBinaryOp opc i32 rs1_trunc rs2_trunc st in
     let (res, st) = createSext i64 result_32 st in
     bindR (getRegister inst 0) (\<lambda>rd. Inr (setRegisterValue rd res st))))"

definition liftWTypeImmOp :: "rv_instruction \<Rightarrow> binary_opcode \<Rightarrow> lifter \<Rightarrow> lifter result" where
  "liftWTypeImmOp inst opc st =
     bindR (getRegister inst 1) (\<lambda>r1. let (rs1, st) = getRegisterValue r1 st in
     bindR (getImmediate inst 2) (\<lambda>i. let (imm, st) = createConstant i32 i st in
     let (rs1_trunc, st) = createTrunc i32 rs1 st in
     let (result_32, st) = createBinaryOp opc i32 rs1_trunc imm st in
     let (res, st) = createSext i64 result_32 st in
     bindR (getRegister inst 0) (\<lambda>rd. Inr (setRegisterValue rd res st))))"

definition liftLoadInstruction :: "rv_instruction \<Rightarrow> ir_type \<Rightarrow> bool \<Rightarrow> lifter \<Rightarrow> lifter result" where
  "liftLoadInstruction inst loadType signExtend st =
     bindR (getRegister inst 1) (\<lambda>r1. let (rs1, st) = getRegisterValue r1 st in
     bindR (getImmediate inst 2) (\<lambda>i. let (imm, st) = createConstant i64 i st in
     let (addr, st) = createBinaryOp irAdd i64 rs1 imm st in
     let (loaded, st) = createLoad loadType addr st in
     let (res, st) =
       (if loadType \<noteq> i64
        then (if signExtend then createSext i64 loaded st else createZext i64 loaded st)
        else (loaded, st)) in
     bindR (getRegister inst 0) (\<lambda>rd. Inr (setRegisterValue rd res st))))"

definition liftStoreInstruction :: "rv_instruction \<Rightarrow> ir_type \<Rightarrow> lifter \<Rightarrow> lifter result" where
  "liftStoreInstruction inst storeType st =
     bindR (getRegister inst 0) (\<lambda>r1. let (rs1, st) = getRegisterValue r1 st in
     bindR (getRegister inst 1) (\<lambda>r2. let (rs2, st) = getRegisterValue r2 st in
     bindR (getImmediate inst 2) (\<lambda>i. let (imm, st) = createConstant i64 i st in
     let (addr, st) = createBinaryOp irAdd i64 rs1 imm st in
     let (val, st) = (if storeType \<noteq> i64 then createTrunc storeType rs2 st else (rs2, st)) in
     Inr (snd (createStore val addr st)))))"

subsection \<open>One instruction\<close>

definition unsupported :: "rv_instruction \<Rightarrow> error" where
  "unsupported inst = UnsupportedInstructionError (''Unsupported RISC-V instruction: '' @ rvToString inst)"

definition liftSingleInstruction :: "rv_instruction \<Rightarrow> lifter \<Rightarrow> lifter result" where
  "liftSingleInstruction inst st =
     (case opcode inst of
        rvADD \<Rightarrow> liftRTypeBinaryOp inst irAdd i64 st
      | rvADDI \<Rightarrow> liftITypeBinaryOp inst irAdd i64 st
      | rvSUB \<Rightarrow> liftRTypeBinaryOp inst irSub i64 st
      | rvADDW \<Rightarrow> liftWTypeBinaryOp inst irAdd st
      | rvADDIW \<Rightarrow> liftWTypeImmOp inst irAdd st
      | rvAND \<Rightarrow> liftRTypeBinaryOp inst irAnd i64 st
      | rvANDI \<Rightarrow> liftITypeBinaryOp inst irAnd i64 st
      | rvOR \<Rightarrow> liftRTypeBinaryOp inst irOr i64 st
      | rvORI \<Rightarrow> liftITypeBinaryOp inst irOr i64 st
      | rvXOR \<Rightarrow> liftRTypeBinaryOp inst irXor i64 st
      | rvXORI \<Rightarrow> liftITypeBinaryOp inst irXor i64 st
      | rvSLL \<Rightarrow> liftRTypeBinaryOp inst irShl i64 st
      | rvSLLI \<Rightarrow> liftITypeBinaryOp inst irShl i64 st
      | rvSRL \<Rightarrow> liftRTypeBinaryOp inst irShr i64 st
      | rvSRLI \<Rightarrow> liftITypeBinaryOp inst irShr i64 st
      | rvSRA \<Rightarrow> liftRTypeBinaryOp inst irSar i64 st
      | rvSRAI \<Rightarrow> liftITypeBinaryOp inst irSar i64 st
      | rvSLLIW \<Rightarrow> liftWTypeImmOp inst irShl st
      | rvSLT \<Rightarrow> liftRTypeBinaryOp inst irLt i64 st
      | rvSLTU \<Rightarrow> liftRTypeBinaryOp inst irLtU i64 st
      | rvSLTI \<Rightarrow> liftITypeBinaryOp inst irLt i64 st
      | rvSLTIU \<Rightarrow> liftITypeBinaryOp inst irLtU i64 st
      | rvLB \<Rightarrow> liftLoadInstruction inst i8 True st
      | rvLH \<Rightarrow> liftLoadInstruction inst i16 True st
      | rvLD \<Rightarrow> liftLoadInstruction inst i64 False st
      | rvLW \<Rightarrow> liftLoadInstruction inst i32 True st
      | rvLWU \<Rightarrow> liftLoadInstruction inst i32 False st
      | rvSD \<Rightarrow> liftStoreInstruction inst i64 st
      | rvSW \<Rightarrow> liftStoreInstruction inst i32 st
      | rvLUI \<Rightarrow>
          bindR (getImmediate inst 1) (\<lambda>i. let (imm, st) = createConstant i64 (push_bit 12 i) st in
          bindR (getRegister inst 0) (\<lambda>rd. Inr (setRegisterValue rd imm st)))
      | rvAUIPC \<Rightarrow>
          (let (pc, st) = createConstant i64 (address inst) st in
          bindR (getImmediate inst 1) (\<lambda>i. let (imm, st) = createConstant i64 (push_bit 12 i) st in
          let (res, st) = createBinaryOp irAdd i64 pc imm st in
          bindR (getRegister inst 0) (\<lambda>rd. Inr (setRegisterValue rd res st))))
      | _ \<Rightarrow> Inl (unsupported inst))"

subsection \<open>Terminators\<close>

definition isTerminator :: "rv_instruction \<Rightarrow> bool" where
  "isTerminator inst =
     (opcode inst \<in> {rvBEQ, rvBNE, rvBLT, rvBGE, rvBLTU, rvBGEU, rvJAL, rvJALR})"

definition createConditionalBranch ::
  "binary_opcode \<Rightarrow> rv_instruction \<Rightarrow> u64 \<Rightarrow> lifter \<Rightarrow> (terminator_kind \<times> lifter) result" where
  "createConditionalBranch compareOp inst fallThroughAddress st =
     bindR (getRegister inst 0) (\<lambda>r1. let (rs1, st) = getRegisterValue r1 st in
     bindR (getRegister inst 1) (\<lambda>r2. let (rs2, st) = getRegisterValue r2 st in
     let (condition, st) = createBinaryOp compareOp i1 rs1 rs2 st in
     bindR (getImmediate inst 2) (\<lambda>i.
       Inr (CondBranch condition (address inst + i) fallThroughAddress, st))))"

definition liftTerminator :: "rv_instruction \<Rightarrow> u64 \<Rightarrow> lifter \<Rightarrow> (terminator_kind \<times> lifter) result" where
  "liftTerminator inst fallThroughAddress st =
     (case opcode inst of
        rvBEQ \<Rightarrow> createConditionalBranch irEq inst fallThroughAddress st
      | rvBNE \<Rightarrow> createConditionalBranch irNe inst fallThroughAddress st
      | rvBLT \<Rightarrow> createConditionalBranch irLt inst fallThroughAddress st
      | rvBGE \<Rightarrow> createConditionalBranch irGe inst fallThroughAddress st
      | rvBLTU \<Rightarrow> createConditionalBranch irLtU inst fallThroughAddress st
      | rvBGEU \<Rightarrow> createConditionalBranch irGeU inst fallThroughAddress st
      | rvJAL \<Rightarrow>
          (let (returnAddr, st) = createConstant i64 (address inst + 4) st in
          bindR (getRegister inst 0) (\<lambda>rd.
          let st = setRegisterValue rd returnAddr st in
          bindR (getImmediate inst 1) (\<lambda>i.
            Inr (Branch (address inst + i), st))))
      | rvJALR \<Rightarrow>
          bindR (getRegister inst 0) (\<lambda>rd.
          bindR (getRegister inst 1) (\<lambda>r1.
          bindR (getImmediate inst 2) (\<lambda>i.
          if rd = REG_ZERO \<and> r1 = REG_RA \<and> i = 0 then Inr (Return None, st)
          else
            let (rs1Value, st) = getRegisterValue r1 st in
            let (immValue, st) = createConstant i64 i st in
            let (targetAddr, st) = createBinaryOp irAdd i64 rs1Value immValue st in
            let (mask, st) = createConstant i64 JALR_ALIGN_MASK st in
            let (alignedTarget, st) = createBinaryOp irAnd i64 targetAddr mask st in
            let st =
              (if rd \<noteq> REG_ZERO
               then let (returnAddr, st) = createConstant i64 (address inst + 4) st
                    in setRegisterValue rd returnAddr st
               else st) in
            Inr (Return (Some alignedTarget), st))))
      | _ \<Rightarrow> Inl (unsupported inst))"

subsection \<open>A basic block\<close>

text \<open>
  The \<open>for\<close> loop of \<open>liftBasicBlock\<close>; the first component of the result is the terminator it has
  set, if any, when the loop ends by its \<open>break\<close> or by reaching the end.
\<close>

fun liftLoop ::
  "(u32 list \<Rightarrow> u32 list) \<Rightarrow> rv_instruction list \<Rightarrow> lifter \<Rightarrow> (terminator_kind option \<times> lifter) result" where
  "liftLoop order [] st = Inr (None, st)"
| "liftLoop order (inst # rest) st =
     (if isTerminator inst then
        let st = finalizeRegisterWrites order st;
            fallThroughAddress = (case rest of nxt # _ \<Rightarrow> address nxt | [] \<Rightarrow> address inst + 4)
        in bindR (liftTerminator inst fallThroughAddress st) (\<lambda>(term, st). Inr (Some term, st))
      else bindR (liftSingleInstruction inst st) (liftLoop order rest))"

definition liftBasicBlock ::
  "(u32 list \<Rightarrow> u32 list) \<Rightarrow> rv_instruction list \<Rightarrow> lifter \<Rightarrow> (basic_block \<times> lifter) result" where
  "liftBasicBlock order insts st =
     (let st = st\<lparr> currentInstructions := [], cachedRegisterValues := Map.empty, modifiedRegisters := [] \<rparr>
      in bindR (liftLoop order insts st) (\<lambda>(t, st).
         let term = (case t of Some k \<Rightarrow> k | None \<Rightarrow> Branch 0);
             (term, st) =
               (if insts = [] \<or> \<not> isTerminator (last insts)
                then (Branch (if insts = [] then 0 else address (last insts) + 4),
                      finalizeRegisterWrites order st)
                else (term, st))
         in Inr (\<lparr> instructions = currentInstructions st, terminator = term \<rparr>, st)))"

end
