(* ===== verification/Decoder.thy ===== *)
theory Decoder
  imports RiscvInstruction
begin

text \<open>
  \<open>lib/RISCV/Decoder.cpp\<close>: the decoder of 32-bit RISC-V instruction words. \<open>decode\<close> reads the word
  from the text section (little-endian), splits it into fields, determines the opcode and
  extracts the operands of its format. A read past the end of the data is \<open>OutOfBounds\<close>.
\<close>

subsection \<open>Field extraction\<close>

record DecodedFields =
  f_opcode :: u32
  f_rd :: u32
  f_rs1 :: u32
  f_rs2 :: u32
  f_funct3 :: u32
  f_funct7 :: u32

definition OPCODE_MASK :: u32 where "OPCODE_MASK = 0x7F"

definition REGISTER_MASK :: u32 where "REGISTER_MASK = 0x1F"

definition FUNCT3_MASK :: u32 where "FUNCT3_MASK = 0x7"

definition FUNCT7_MASK :: u32 where "FUNCT7_MASK = 0x7F"

definition IMM_12_MASK :: u32 where "IMM_12_MASK = 0xFFF"

definition readInstructionFromMemory :: "u8 list \<Rightarrow> nat \<Rightarrow> u32 result" where
  "readInstructionFromMemory data offset =
     bindR (vec_nth data offset) (\<lambda>b0.
     bindR (vec_nth data (offset + 1)) (\<lambda>b1.
     bindR (vec_nth data (offset + 2)) (\<lambda>b2.
     bindR (vec_nth data (offset + 3)) (\<lambda>b3.
       Inr (ucast b0 OR push_bit 8 (ucast b1) OR push_bit 16 (ucast b2) OR push_bit 24 (ucast b3))))))"

definition extractFields :: "u32 \<Rightarrow> DecodedFields" where
  "extractFields raw =
     \<lparr> f_opcode = raw AND OPCODE_MASK,
       f_rd = drop_bit 7 raw AND REGISTER_MASK,
       f_rs1 = drop_bit 15 raw AND REGISTER_MASK,
       f_rs2 = drop_bit 20 raw AND REGISTER_MASK,
       f_funct3 = drop_bit 12 raw AND FUNCT3_MASK,
       f_funct7 = drop_bit 25 raw AND FUNCT7_MASK \<rparr>"

definition signExtend :: "u32 \<Rightarrow> nat \<Rightarrow> i32" where
  "signExtend v bits =
     (let signBit = push_bit (bits - 1) 1
      in if v AND signBit \<noteq> 0 then v OR push_bit bits (NOT 0) else v)"

subsection \<open>Opcode\<close>

text \<open>
  The \<open>switch\<close> over the major opcode with its inner switches; the fall-through of every inner
  \<open>break\<close> is the error at the end.
\<close>

definition unrecognized :: "DecodedFields \<Rightarrow> error" where
  "unrecognized flds =
     DecodingError (''Unrecognized RISC-V instruction: opcode=0x'' @ hex_string (unat (f_opcode flds)) @
       '' funct3=0x'' @ hex_string (unat (f_funct3 flds)) @
       '' funct7=0x'' @ hex_string (unat (f_funct7 flds)))"

definition determineOpcode :: "DecodedFields \<Rightarrow> rv_opcode result" where
  "determineOpcode flds =
     (let opc = f_opcode flds; f3 = f_funct3 flds; f7 = f_funct7 flds;
          err = Inl (unrecognized flds)
      in
      if opc = 0x33 then
        (if f3 = 0x0 then Inr (if f7 = 0x20 then rvSUB else rvADD)
         else if f3 = 0x1 then Inr rvSLL
         else if f3 = 0x2 then Inr rvSLT
         else if f3 = 0x3 then Inr rvSLTU
         else if f3 = 0x4 then Inr rvXOR
         else if f3 = 0x5 then Inr (if f7 = 0x20 then rvSRA else rvSRL)
         else if f3 = 0x6 then Inr rvOR
         else if f3 = 0x7 then Inr rvAND
         else err)
      else if opc = 0x3B then
        (if f3 = 0x0 then Inr (if f7 = 0x20 then rvSUBW else rvADDW)
         else if f3 = 0x1 then Inr rvSLLW
         else if f3 = 0x5 then Inr (if f7 = 0x20 then rvSRAW else rvSRLW)
         else err)
      else if opc = 0x13 then
        (if f3 = 0x0 then Inr rvADDI
         else if f3 = 0x1 then Inr rvSLLI
         else if f3 = 0x2 then Inr rvSLTI
         else if f3 = 0x3 then Inr rvSLTIU
         else if f3 = 0x4 then Inr rvXORI
         else if f3 = 0x5 then Inr (if f7 = 0x20 then rvSRAI else rvSRLI)
         else if f3 = 0x6 then Inr rvORI
         else if f3 = 0x7 then Inr rvANDI
         else err)
      else if opc = 0x1B then
        (if f3 = 0x0 then Inr rvADDIW
         else if f3 = 0x1 then Inr rvSLLIW
         else if f3 = 0x5 then Inr (if f7 = 0x20 then rvSRAIW else rvSRLIW)
         else err)
      else if opc = 0x03 then
        (if f3 = 0x0 then Inr rvLB
         else if f3 = 0x1 then Inr rvLH
         else if f3 = 0x2 then Inr rvLW
         else if f3 = 0x3 then Inr rvLD
         else if f3 = 0x4 then Inr rvLBU
         else if f3 = 0x5 then Inr rvLHU
         else if f3 = 0x6 then Inr rvLWU
         else err)
      else if opc = 0x23 then
        (if f3 = 0x0 then Inr rvSB
         else if f3 = 0x1 then Inr rvSH
         else if f3 = 0x2 then Inr rvSW
         else if f3 = 0x3 then Inr rvSD
         else err)
      else if opc = 0x63 then
        (if f3 = 0x0 then Inr rvBEQ
         else if f3 = 0x1 then Inr rvBNE
         else if f3 = 0x4 then Inr rvBLT
         else if f3 = 0x5 then Inr rvBGE
         else if f3 = 0x6 then Inr rvBLTU
         else if f3 = 0x7 then Inr rvBGEU
         else err)
      else if opc = 0x67 then (if f3 = 0x0 then Inr rvJALR else err)
      else if opc = 0x6F then Inr rvJAL
      else if opc = 0x37 then Inr rvLUI
      else if opc = 0x17 then Inr rvAUIPC
      else if opc = 0x73 then
        (if f3 = 0x0 \<and> f_rd flds = 0x0 \<and> f_rs1 flds = 0x0 then
           (let imm = f_rs2 flds OR push_bit 5 f7
            in if imm = 0x0 then Inr rvECALL
               else if imm = 0x1 then Inr rvEBREAK
               else err)
         else err)
      else err)"

subsection \<open>Immediates and operands\<close>

definition extractITypeImmediate :: "u32 \<Rightarrow> i32" where
  "extractITypeImmediate raw = signExtend (drop_bit 20 raw AND IMM_12_MASK) 12"

definition extractSTypeImmediate :: "u32 \<Rightarrow> i32" where
  "extractSTypeImmediate raw =
     (let imm = push_bit 5 (drop_bit 25 raw AND 0x7F);
          imm = imm OR (drop_bit 7 raw AND 0x1F)
      in signExtend imm 12)"

definition extractBTypeImmediate :: "u32 \<Rightarrow> i32" where
  "extractBTypeImmediate raw =
     (let imm = 0;
          imm = imm OR push_bit 12 (drop_bit 31 raw AND 0x1);
          imm = imm OR push_bit 11 (drop_bit 7 raw AND 0x1);
          imm = imm OR push_bit 5 (drop_bit 25 raw AND 0x3F);
          imm = imm OR push_bit 1 (drop_bit 8 raw AND 0xF)
      in signExtend imm 13)"

definition extractUTypeImmediate :: "u32 \<Rightarrow> i32" where
  "extractUTypeImmediate raw = raw AND 0xFFFFF000"

definition extractJTypeImmediate :: "u32 \<Rightarrow> i32" where
  "extractJTypeImmediate raw =
     (let imm = 0;
          imm = imm OR push_bit 20 (drop_bit 31 raw AND 0x1);
          imm = imm OR push_bit 12 (drop_bit 12 raw AND 0xFF);
          imm = imm OR push_bit 11 (drop_bit 20 raw AND 0x1);
          imm = imm OR push_bit 1 (drop_bit 21 raw AND 0x3FF)
      in signExtend imm 21)"

definition extractOperands :: "DecodedFields \<Rightarrow> rv_opcode \<Rightarrow> u32 \<Rightarrow> rv_operand list result" where
  "extractOperands flds opc raw =
     (if opc \<in> {rvADD, rvSUB, rvSLL, rvSLT, rvSLTU, rvXOR, rvSRL, rvSRA, rvOR, rvAND,
                rvADDW, rvSUBW, rvSLLW, rvSRLW, rvSRAW}
      then Inr [RvRegister (f_rd flds), RvRegister (f_rs1 flds), RvRegister (f_rs2 flds)]
      else if opc \<in> {rvADDI, rvSLTI, rvSLTIU, rvXORI, rvORI, rvANDI, rvSLLI, rvSRLI, rvSRAI,
                     rvADDIW, rvSLLIW, rvSRLIW, rvSRAIW, rvJALR,
                     rvLB, rvLH, rvLW, rvLD, rvLBU, rvLHU, rvLWU}
      then Inr [RvRegister (f_rd flds), RvRegister (f_rs1 flds),
                RvImmediate (scast (extractITypeImmediate raw))]
      else if opc \<in> {rvSB, rvSH, rvSW, rvSD}
      then Inr [RvRegister (f_rs1 flds), RvRegister (f_rs2 flds),
                RvImmediate (scast (extractSTypeImmediate raw))]
      else if opc \<in> {rvBEQ, rvBNE, rvBLT, rvBGE, rvBLTU, rvBGEU}
      then Inr [RvRegister (f_rs1 flds), RvRegister (f_rs2 flds),
                RvImmediate (scast (extractBTypeImmediate raw))]
      else if opc \<in> {rvLUI, rvAUIPC}
      then Inr [RvRegister (f_rd flds), RvImmediate (scast (extractUTypeImmediate raw))]
      else if opc = rvJAL
      then Inr [RvRegister (f_rd flds), RvImmediate (scast (extractJTypeImmediate raw))]
      else if opc \<in> {rvECALL, rvEBREAK} then Inr []
      else Inl (DecodingError ''Cannot extract operands for invalid instruction''))"

definition decode :: "u8 list \<Rightarrow> nat \<Rightarrow> u64 \<Rightarrow> rv_instruction result" where
  "decode data offset pc =
     bindR (readInstructionFromMemory data offset) (\<lambda>raw.
     bindR (determineOpcode (extractFields raw)) (\<lambda>opc.
     bindR (extractOperands (extractFields raw) opc raw) (\<lambda>ops.
       Inr \<lparr> opcode = opc, operands = ops, rawInstruction = raw, address = pc \<rparr>)))"

end
