(* ===== verification/DecoderCorrect.thy ===== *)
theory DecoderCorrect
  imports Decoder
begin

text \<open>
  The decoder against the instruction formats of the RISC-V unprivileged manual (RV64I, chapters
  2 and 5 and the opcode table). \<open>rv_encode\<close> assembles an instruction the way the manual lays out
  its bits; the theorems show that \<open>Decoder::decode\<close> reads back the opcode and the operands, that
  every instruction it returns has the operands of its format, and where it departs from the
  manual.
\<close>

subsection \<open>The instruction formats of the manual\<close>

definition le_bytes32 :: "u32 \<Rightarrow> u8 list" where
  "le_bytes32 w = [ucast w, ucast (drop_bit 8 w), ucast (drop_bit 16 w), ucast (drop_bit 24 w)]"

datatype rv_asm =
    AsmR rv_opcode "5 word" "5 word" "5 word"
  | AsmI rv_opcode "5 word" "5 word" "12 word"
  | AsmShift rv_opcode "5 word" "5 word" "6 word"
  | AsmS rv_opcode "5 word" "5 word" "12 word"
  | AsmB rv_opcode "5 word" "5 word" "12 word"
  | AsmU rv_opcode "5 word" "20 word"
  | AsmJ rv_opcode "5 word" "20 word"
  | AsmSys rv_opcode
  | AsmFence "12 word" "5 word" "5 word"

definition enc_R :: "7 word \<Rightarrow> 5 word \<Rightarrow> 5 word \<Rightarrow> 3 word \<Rightarrow> 5 word \<Rightarrow> 7 word \<Rightarrow> u32" where
  "enc_R f7 rs2 rs1 f3 rd opc =
     push_bit 25 (ucast f7) OR push_bit 20 (ucast rs2) OR push_bit 15 (ucast rs1) OR
     push_bit 12 (ucast f3) OR push_bit 7 (ucast rd) OR ucast opc"

definition enc_I :: "12 word \<Rightarrow> 5 word \<Rightarrow> 3 word \<Rightarrow> 5 word \<Rightarrow> 7 word \<Rightarrow> u32" where
  "enc_I imm rs1 f3 rd opc =
     push_bit 20 (ucast imm) OR push_bit 15 (ucast rs1) OR push_bit 12 (ucast f3) OR
     push_bit 7 (ucast rd) OR ucast opc"

definition enc_S :: "12 word \<Rightarrow> 5 word \<Rightarrow> 5 word \<Rightarrow> 3 word \<Rightarrow> 7 word \<Rightarrow> u32" where
  "enc_S imm rs2 rs1 f3 opc =
     enc_R (ucast (drop_bit 5 imm)) rs2 rs1 f3 (ucast imm) opc"

definition enc_B :: "12 word \<Rightarrow> 5 word \<Rightarrow> 5 word \<Rightarrow> 3 word \<Rightarrow> 7 word \<Rightarrow> u32" where
  "enc_B off rs2 rs1 f3 opc =
     enc_R (push_bit 6 (ucast (drop_bit 11 off)) OR ucast (take_bit 6 (drop_bit 4 off))) rs2 rs1 f3
       (push_bit 1 (ucast (take_bit 4 off)) OR ucast (take_bit 1 (drop_bit 10 off))) opc"

definition enc_U :: "20 word \<Rightarrow> 5 word \<Rightarrow> 7 word \<Rightarrow> u32" where
  "enc_U imm rd opc = push_bit 12 (ucast imm) OR push_bit 7 (ucast rd) OR ucast opc"

definition enc_J :: "20 word \<Rightarrow> 5 word \<Rightarrow> 7 word \<Rightarrow> u32" where
  "enc_J off rd opc =
     enc_U (push_bit 19 (take_bit 1 (drop_bit 19 off)) OR push_bit 9 (take_bit 10 off) OR
            push_bit 8 (take_bit 1 (drop_bit 10 off)) OR take_bit 8 (drop_bit 11 off)) rd opc"


text \<open>The opcode table: function codes and major opcode of each mnemonic.\<close>

definition r_code :: "rv_opcode \<rightharpoonup> (7 word \<times> 3 word \<times> 7 word)" where
  "r_code = map_of
     [(rvADD, (0, 0, 0x33)), (rvSUB, (0x20, 0, 0x33)), (rvSLL, (0, 1, 0x33)),
      (rvSLT, (0, 2, 0x33)), (rvSLTU, (0, 3, 0x33)), (rvXOR, (0, 4, 0x33)),
      (rvSRL, (0, 5, 0x33)), (rvSRA, (0x20, 5, 0x33)), (rvOR, (0, 6, 0x33)),
      (rvAND, (0, 7, 0x33)), (rvADDW, (0, 0, 0x3B)), (rvSUBW, (0x20, 0, 0x3B)),
      (rvSLLW, (0, 1, 0x3B)), (rvSRLW, (0, 5, 0x3B)), (rvSRAW, (0x20, 5, 0x3B))]"

definition i_code :: "rv_opcode \<rightharpoonup> (3 word \<times> 7 word)" where
  "i_code = map_of
     [(rvADDI, (0, 0x13)), (rvSLTI, (2, 0x13)), (rvSLTIU, (3, 0x13)),
      (rvXORI, (4, 0x13)), (rvORI, (6, 0x13)), (rvANDI, (7, 0x13)),
      (rvADDIW, (0, 0x1B)), (rvJALR, (0, 0x67)), (rvLB, (0, 0x03)),
      (rvLH, (1, 0x03)), (rvLW, (2, 0x03)), (rvLD, (3, 0x03)),
      (rvLBU, (4, 0x03)), (rvLHU, (5, 0x03)), (rvLWU, (6, 0x03))]"

definition shift_code :: "rv_opcode \<rightharpoonup> (6 word \<times> 3 word \<times> 7 word)" where
  "shift_code = map_of
     [(rvSLLI, (0, 1, 0x13)), (rvSRLI, (0, 5, 0x13)), (rvSRAI, (0x10, 5, 0x13)),
      (rvSLLIW, (0, 1, 0x1B)), (rvSRLIW, (0, 5, 0x1B)), (rvSRAIW, (0x10, 5, 0x1B))]"

definition s_code :: "rv_opcode \<rightharpoonup> (3 word \<times> 7 word)" where
  "s_code = map_of
     [(rvSB, (0, 0x23)), (rvSH, (1, 0x23)), (rvSW, (2, 0x23)),
      (rvSD, (3, 0x23))]"

definition b_code :: "rv_opcode \<rightharpoonup> (3 word \<times> 7 word)" where
  "b_code = map_of
     [(rvBEQ, (0, 0x63)), (rvBNE, (1, 0x63)), (rvBLT, (4, 0x63)),
      (rvBGE, (5, 0x63)), (rvBLTU, (6, 0x63)), (rvBGEU, (7, 0x63))]"

definition u_code :: "rv_opcode \<rightharpoonup> 7 word" where
  "u_code = map_of
     [(rvLUI, 0x37), (rvAUIPC, 0x17)]"

definition j_code :: "rv_opcode \<rightharpoonup> 7 word" where
  "j_code = map_of
     [(rvJAL, 0x6F)]"

definition sys_code :: "rv_opcode \<rightharpoonup> 12 word" where
  "sys_code = map_of
     [(rvECALL, 0), (rvEBREAK, 1)]"

text \<open>
  Word shifts have a five-bit shift amount; the sixth bit of \<open>AsmShift\<close> is then zero. The branch
  and jump offsets of \<open>AsmB\<close> and \<open>AsmJ\<close> count half-words, as the formats store them. FENCE, whose
  immediate holds its mode and its two sets, has no mnemonic in the program.
\<close>

fun rv_encode :: "rv_asm \<Rightarrow> u32 option" where
  "rv_encode (AsmR opc rd rs1 rs2) = map_option (\<lambda>(f7, f3, op). enc_R f7 rs2 rs1 f3 rd op) (r_code opc)"
| "rv_encode (AsmI opc rd rs1 imm) = map_option (\<lambda>(f3, op). enc_I imm rs1 f3 rd op) (i_code opc)"
| "rv_encode (AsmShift opc rd rs1 sh) =
     (if opc \<in> {rvSLLIW, rvSRLIW, rvSRAIW} \<and> 32 \<le> sh then None
      else map_option (\<lambda>(f6, f3, op). enc_I (push_bit 6 (ucast f6) OR ucast sh) rs1 f3 rd op) (shift_code opc))"
| "rv_encode (AsmS opc rs1 rs2 imm) = map_option (\<lambda>(f3, op). enc_S imm rs2 rs1 f3 op) (s_code opc)"
| "rv_encode (AsmB opc rs1 rs2 off) = map_option (\<lambda>(f3, op). enc_B off rs2 rs1 f3 op) (b_code opc)"
| "rv_encode (AsmU opc rd imm) = map_option (\<lambda>op. enc_U imm rd op) (u_code opc)"
| "rv_encode (AsmJ opc rd off) = map_option (\<lambda>op. enc_J off rd op) (j_code opc)"
| "rv_encode (AsmSys opc) = map_option (\<lambda>imm. enc_I imm 0 0 0 0x73) (sys_code opc)"
| "rv_encode (AsmFence imm rs1 rd) = Some (enc_I imm rs1 0 rd 0x0F)"

fun asm_opcode :: "rv_asm \<Rightarrow> rv_opcode" where
  "asm_opcode (AsmR opc _ _ _) = opc"
| "asm_opcode (AsmI opc _ _ _) = opc"
| "asm_opcode (AsmShift opc _ _ _) = opc"
| "asm_opcode (AsmS opc _ _ _) = opc"
| "asm_opcode (AsmB opc _ _ _) = opc"
| "asm_opcode (AsmU opc _ _) = opc"
| "asm_opcode (AsmJ opc _ _) = opc"
| "asm_opcode (AsmSys opc) = opc"
| "asm_opcode (AsmFence _ _ _) = rvINVALID"

text \<open>
  The operands as the program's later stages expect them: registers by number, immediates as
  the sign-extended value the manual gives the instruction (a shift carries its whole 12-bit
  immediate field, of which the low bits are the shift amount).
\<close>

fun asm_operands :: "rv_asm \<Rightarrow> rv_operand list" where
  "asm_operands (AsmR _ rd rs1 rs2) = [RvRegister (ucast rd), RvRegister (ucast rs1), RvRegister (ucast rs2)]"
| "asm_operands (AsmI _ rd rs1 imm) = [RvRegister (ucast rd), RvRegister (ucast rs1), RvImmediate (scast imm)]"
| "asm_operands (AsmShift opc rd rs1 sh) =
     [RvRegister (ucast rd), RvRegister (ucast rs1),
      RvImmediate (ucast sh OR (if opc \<in> {rvSRAI, rvSRAIW} then 0x400 else 0))]"
| "asm_operands (AsmS _ rs1 rs2 imm) = [RvRegister (ucast rs1), RvRegister (ucast rs2), RvImmediate (scast imm)]"
| "asm_operands (AsmB _ rs1 rs2 off) = [RvRegister (ucast rs1), RvRegister (ucast rs2), RvImmediate (2 * scast off)]"
| "asm_operands (AsmU _ rd imm) = [RvRegister (ucast rd), RvImmediate (push_bit 12 (scast imm))]"
| "asm_operands (AsmJ _ rd off) = [RvRegister (ucast rd), RvImmediate (2 * scast off)]"
| "asm_operands (AsmSys _) = []"
| "asm_operands (AsmFence _ _ _) = []"

text \<open>A shift right arithmetic by 32 or more, whose function code the decoder does not recognise.\<close>

fun long_srai :: "rv_asm \<Rightarrow> bool" where
  "long_srai (AsmShift opc _ _ sh) = (opc = rvSRAI \<and> 32 \<le> sh)"
| "long_srai _ = False"

text \<open>The operand shape of each opcode, with the ranges of the formats.\<close>

datatype rv_format = FmtR | FmtI | FmtS | FmtB | FmtU | FmtJ | FmtSys

definition rv_format_of :: "rv_opcode \<Rightarrow> rv_format option" where
  "rv_format_of opc =
     (if opc \<in> {rvADD, rvSUB, rvSLL, rvSLT, rvSLTU, rvXOR, rvSRL, rvSRA, rvOR, rvAND,
                rvADDW, rvSUBW, rvSLLW, rvSRLW, rvSRAW} then Some FmtR
      else if opc \<in> {rvADDI, rvSLTI, rvSLTIU, rvXORI, rvORI, rvANDI, rvSLLI, rvSRLI, rvSRAI,
                rvADDIW, rvSLLIW, rvSRLIW, rvSRAIW, rvJALR, rvLB, rvLH, rvLW, rvLD, rvLBU, rvLHU, rvLWU}
      then Some FmtI
      else if opc \<in> {rvSB, rvSH, rvSW, rvSD} then Some FmtS
      else if opc \<in> {rvBEQ, rvBNE, rvBLT, rvBGE, rvBLTU, rvBGEU} then Some FmtB
      else if opc \<in> {rvLUI, rvAUIPC} then Some FmtU
      else if opc = rvJAL then Some FmtJ
      else if opc \<in> {rvECALL, rvEBREAK} then Some FmtSys
      else None)"

fun wf_operands :: "rv_format \<Rightarrow> rv_operand list \<Rightarrow> bool" where
  "wf_operands FmtR [RvRegister rd, RvRegister rs1, RvRegister rs2] = (rd < 32 \<and> rs1 < 32 \<and> rs2 < 32)"
| "wf_operands FmtI [RvRegister rd, RvRegister rs1, RvImmediate i] =
     (rd < 32 \<and> rs1 < 32 \<and> - 2048 \<le> sint i \<and> sint i < 2048)"
| "wf_operands FmtS [RvRegister rs1, RvRegister rs2, RvImmediate i] =
     (rs1 < 32 \<and> rs2 < 32 \<and> - 2048 \<le> sint i \<and> sint i < 2048)"
| "wf_operands FmtB [RvRegister rs1, RvRegister rs2, RvImmediate i] =
     (rs1 < 32 \<and> rs2 < 32 \<and> - 4096 \<le> sint i \<and> sint i < 4096 \<and> even i)"
| "wf_operands FmtU [RvRegister rd, RvImmediate i] =
     (rd < 32 \<and> - (2 ^ 31) \<le> sint i \<and> sint i < 2 ^ 31 \<and> take_bit 12 i = 0)"
| "wf_operands FmtJ [RvRegister rd, RvImmediate i] =
     (rd < 32 \<and> - (2 ^ 20) \<le> sint i \<and> sint i < 2 ^ 20 \<and> even i)"
| "wf_operands FmtSys [] = True"
| "wf_operands _ _ = False"

definition wf_inst :: "rv_instruction \<Rightarrow> bool" where
  "wf_inst inst = (case rv_format_of (opcode inst) of None \<Rightarrow> False | Some f \<Rightarrow> wf_operands f (operands inst))"

subsection \<open>Fields and immediates\<close>

lemma read_le_bytes32:
  "readInstructionFromMemory (pre @ le_bytes32 w @ post) (length pre) = Inr w"
  unfolding readInstructionFromMemory_def le_bytes32_def
  apply (simp add: nth_append)
  by (rule word32_eqI) (simp add: bits32 del: One_nat_def)

lemmas field_defs = extractFields_def OPCODE_MASK_def REGISTER_MASK_def FUNCT3_MASK_def
  FUNCT7_MASK_def IMM_12_MASK_def

lemma fields_enc_R:
  "extractFields (enc_R f7 rs2 rs1 f3 rd opc) =
     \<lparr>f_opcode = ucast opc, f_rd = ucast rd, f_rs1 = ucast rs1, f_rs2 = ucast rs2,
      f_funct3 = ucast f3, f_funct7 = ucast f7\<rparr>"
  unfolding field_defs enc_R_def mask_simps
  by (simp, intro conjI; rule word32_eqI) (simp_all add: bits32 del: One_nat_def)

lemma fields_enc_I:
  "extractFields (enc_I imm rs1 f3 rd opc) =
     \<lparr>f_opcode = ucast opc, f_rd = ucast rd, f_rs1 = ucast rs1, f_rs2 = ucast (take_bit 5 imm),
      f_funct3 = ucast f3, f_funct7 = ucast (drop_bit 5 imm)\<rparr>"
  unfolding field_defs enc_I_def mask_simps
  by (simp, intro conjI; rule word32_eqI) (simp_all add: bits32 del: One_nat_def)

lemma fields_enc_U:
  "f_opcode (extractFields (enc_U imm rd opc)) = ucast opc"
  "f_rd (extractFields (enc_U imm rd opc)) = ucast rd"
  unfolding field_defs enc_U_def mask_simps
  by (simp_all, (rule word32_eqI, simp add: bits32 del: One_nat_def)+)

lemma fields_enc_J:
  "f_opcode (extractFields (enc_J off rd opc)) = ucast opc"
  "f_rd (extractFields (enc_J off rd opc)) = ucast rd"
  by (simp_all only: enc_J_def fields_enc_U)

lemma fields_enc_S:
  "extractFields (enc_S imm rs2 rs1 f3 opc) =
     \<lparr>f_opcode = ucast opc, f_rd = ucast (ucast imm :: 5 word), f_rs1 = ucast rs1, f_rs2 = ucast rs2,
      f_funct3 = ucast f3, f_funct7 = ucast (ucast (drop_bit 5 imm) :: 7 word)\<rparr>"
  by (simp only: enc_S_def fields_enc_R)

lemma fields_enc_B:
  "f_opcode (extractFields (enc_B off rs2 rs1 f3 opc)) = ucast opc"
  "f_rs1 (extractFields (enc_B off rs2 rs1 f3 opc)) = ucast rs1"
  "f_rs2 (extractFields (enc_B off rs2 rs1 f3 opc)) = ucast rs2"
  "f_funct3 (extractFields (enc_B off rs2 rs1 f3 opc)) = ucast f3"
  by (simp_all only: enc_B_def fields_enc_R DecodedFields.simps)

lemma signExtend_take_bit:
  assumes "0 < b" "b \<le> 32"
  shows "signExtend (take_bit b x) b = signed_take_bit (b - 1) x"
proof -
  from assms obtain k where k: "b = Suc k" "k < 32" by (cases b) auto
  show ?thesis
    unfolding k signExtend_def Let_def test_bit_and
    by (rule word_bitsI) (auto simp: bit_simps min_def not_less not_le less_Suc_eq k(2) test_bit_and split: if_splits)
qed

lemma signExtend_ucast:
  fixes w :: "'a::len word"
  assumes "LENGTH('a) \<le> 32"
  shows "signExtend (ucast w) (LENGTH('a)) = scast w"
proof -
  have "signExtend (take_bit (LENGTH('a)) (ucast w)) (LENGTH('a)) = signed_take_bit (LENGTH('a) - 1) (ucast w)"
    by (rule signExtend_take_bit) (use assms in auto)
  also have "\<dots> = scast w"
    by (rule word_bitsI) (use assms in \<open>auto simp: bit_simps min_def\<close>)
  also have "take_bit (LENGTH('a)) (ucast w) = (ucast w :: u32)"
    by (rule word_bitsI) (auto simp: bit_simps dest: bit_word_lt)
  finally show ?thesis .
qed

lemma imm_enc_I: "extractITypeImmediate (enc_I imm rs1 f3 rd opc) = scast imm"
proof -
  have "drop_bit 20 (enc_I imm rs1 f3 rd opc) AND IMM_12_MASK = ucast imm"
    unfolding field_defs enc_I_def mask_simps
    by (rule word32_eqI) (simp_all add: bits32 del: One_nat_def)
  then show ?thesis
    using signExtend_ucast [of imm] by (simp add: extractITypeImmediate_def)
qed
lemma imm_enc_S: "extractSTypeImmediate (enc_S imm rs2 rs1 f3 opc) = scast imm"
proof -
  have "push_bit 5 (drop_bit 25 (enc_S imm rs2 rs1 f3 opc) AND 0x7F) OR
        (drop_bit 7 (enc_S imm rs2 rs1 f3 opc) AND 0x1F) = ucast imm"
    unfolding enc_S_def enc_R_def mask_simps
    by (rule word32_eqI) (simp_all add: bits32 del: One_nat_def)
  then show ?thesis
    using signExtend_ucast [of imm] by (simp add: extractSTypeImmediate_def)
qed

lemma push_bit_double: "push_bit 1 (w :: 'a::len word) = 2 * w"
  by (simp add: mult.commute)

lemma scast_push_bit:
  fixes w :: "'a::len word"
  assumes "LENGTH('b) = Suc (LENGTH('a))" "LENGTH('b) \<le> LENGTH('c)"
  shows "(scast (push_bit 1 (ucast w) :: 'b::len word) :: 'c::len word) = push_bit 1 (scast w)"
proof (rule word_bitsI)
  fix n assume "n < LENGTH('c)"
  with assms show "bit (scast (push_bit 1 (ucast w) :: 'b word) :: 'c word) n = bit (push_bit 1 (scast w) :: 'c word) n"
    by (cases n) (auto simp: bit_simps min_def Suc_le_eq simp del: push_bit_Suc)
qed
lemma imm_enc_B: "extractBTypeImmediate (enc_B off rs2 rs1 f3 opc) = 2 * scast off"
proof -
  have "push_bit 12 (drop_bit 31 (enc_B off rs2 rs1 f3 opc) AND 0x1) OR
          push_bit 11 (drop_bit 7 (enc_B off rs2 rs1 f3 opc) AND 0x1) OR
          push_bit 5 (drop_bit 25 (enc_B off rs2 rs1 f3 opc) AND 0x3F) OR
          push_bit 1 (drop_bit 8 (enc_B off rs2 rs1 f3 opc) AND 0xF)
       = ucast (push_bit 1 (ucast off) :: 13 word)"
    unfolding enc_B_def enc_R_def mask_simps
    by (rule word32_eqI) (simp add: bits32 del: One_nat_def)
  moreover have "signExtend (ucast (push_bit 1 (ucast off) :: 13 word)) 13 = 2 * scast off"
    using signExtend_ucast [of "push_bit 1 (ucast off) :: 13 word"] scast_push_bit [where 'a = 12 and 'b = 13 and 'c = 32]
    by (simp add: push_bit_double)
  ultimately show ?thesis
    by (simp only: extractBTypeImmediate_def Let_def or.left_neutral or.assoc)
qed
lemma imm_enc_J: "extractJTypeImmediate (enc_J off rd opc) = 2 * scast off"
proof -
  have "push_bit 20 (drop_bit 31 (enc_J off rd opc) AND 0x1) OR
          push_bit 12 (drop_bit 12 (enc_J off rd opc) AND 0xFF) OR
          push_bit 11 (drop_bit 20 (enc_J off rd opc) AND 0x1) OR
          push_bit 1 (drop_bit 21 (enc_J off rd opc) AND 0x3FF)
       = ucast (push_bit 1 (ucast off) :: 21 word)"
    unfolding enc_J_def enc_U_def mask_simps
    by (rule word32_eqI) (simp add: bits32 del: One_nat_def)
  moreover have "signExtend (ucast (push_bit 1 (ucast off) :: 21 word)) 21 = 2 * scast off"
    using signExtend_ucast [of "push_bit 1 (ucast off) :: 21 word"] scast_push_bit [where 'a = 20 and 'b = 21 and 'c = 32]
    by (simp add: push_bit_double)
  ultimately show ?thesis
    by (simp only: extractJTypeImmediate_def Let_def or.left_neutral or.assoc)
qed
lemma upper_mask: "(0xFFFFF000 :: u32) = push_bit 12 (mask 20)"
  by (simp add: mask_eq_exp_minus_1 push_bit_eq_mult)

lemma imm_enc_U: "extractUTypeImmediate (enc_U imm rd opc) = push_bit 12 (ucast imm)"
  unfolding extractUTypeImmediate_def enc_U_def upper_mask
  by (rule word32_eqI) (simp add: bits32 del: One_nat_def)

subsection \<open>Decoding what the manual encodes\<close>

lemma decode_read:
  "decode (pre @ le_bytes32 w @ post) (length pre) pc =
     bindR (determineOpcode (extractFields w)) (\<lambda>opc.
     bindR (extractOperands (extractFields w) opc w) (\<lambda>ops.
       Inr \<lparr> opcode = opc, operands = ops, rawInstruction = w, address = pc \<rparr>))"
  by (simp add: decode_def read_le_bytes32)

lemma ucast_eq_zero_iff [simp]: "LENGTH('a) \<le> LENGTH('b) \<Longrightarrow> (ucast (w :: 'a::len word) = (0 :: 'b::len word)) = (w = 0)"
  by (metis ucast_0 ucast_up_ucast_id is_up)

lemma scast_scast_up:
  fixes w :: "'a::len word"
  assumes "LENGTH('a) \<le> LENGTH('b)"
  shows "(scast (scast w :: 'b::len word) :: 'c::len word) = scast w"
proof (rule word_bitsI)
  fix n assume "n < LENGTH('c)"
  then show "bit (scast (scast w :: 'b word) :: 'c word) n = bit (scast w :: 'c word) n"
    using assms len_gt_0 [where 'a = 'a]
    by (auto simp: bit_simps min_def intro: arg_cong [where f = "bit w"])
qed

lemma scast_double:
  fixes w :: "'a::len word"
  assumes "LENGTH('a) < LENGTH('b)" and "LENGTH('b) \<le> LENGTH('c)"
  shows "(scast (2 * scast w :: 'b::len word) :: 'c::len word) = 2 * scast w"
proof -
  have l: "Suc 0 < LENGTH('b)"
    using assms(1) len_gt_0 [where 'a = 'a] by linarith
  have "(scast (push_bit 1 (scast w) :: 'b word) :: 'c word) = push_bit 1 (scast w)"
  proof (rule word_bitsI)
    fix n assume "n < LENGTH('c)"
    with assms show "bit (scast (push_bit 1 (scast w) :: 'b word) :: 'c word) n = bit (push_bit 1 (scast w) :: 'c word) n"
      using l by (cases n) (auto simp: bit_simps min_def Suc_le_eq simp del: push_bit_Suc
           intro: arg_cong [where f = "bit w"])
  qed
  then show ?thesis by (simp add: push_bit_eq_mult mult.commute)
qed

lemma scast_upper:
  fixes w :: "20 word"
  shows "(scast (push_bit 12 (ucast w) :: u32) :: u64) = push_bit 12 (scast w)"
  by (rule word_bitsI) (auto simp: bit_simps min_def dest: bit_word_lt)

text \<open>A shift amount has 64 values: its equations are decided by evaluation.\<close>

lemma word6_allI:
  assumes "list_all (\<lambda>n. P (word_of_nat n)) [0..<64]"
  shows "P (sh :: 6 word)"
proof -
  have "unat sh \<in> set [0..<64]"
    using unsigned_less [of sh] by simp
  with assms show ?thesis
    by (auto simp: list_all_iff dest: bspec [where x = "unat sh"])
qed

lemma shift_imm:
  "(scast (ucast (sh :: 6 word) :: 12 word) :: u64) = ucast sh"
  "(scast (0x400 OR ucast (sh :: 6 word) :: 12 word) :: u64) = ucast sh OR 0x400"
  "(ucast (drop_bit 5 (ucast (sh :: 6 word) :: 12 word)) :: u32) \<noteq> 0x20"
  "(ucast (0x20 OR drop_bit 5 (ucast (sh :: 6 word) :: 12 word)) :: u32) = 0x20 \<longleftrightarrow> \<not> 32 \<le> sh"
  by (rule word6_allI [where sh = sh], code_simp)+

lemmas table_simps = list.set insert_iff empty_iff prod.inject simp_thms

lemmas decode_simps = determineOpcode_def extractOperands_def fields_enc_R fields_enc_I fields_enc_U fields_enc_S
  fields_enc_B fields_enc_J imm_enc_I imm_enc_S imm_enc_B imm_enc_U imm_enc_J scast_scast_up scast_double scast_upper shift_imm

lemma decode_R:
  "rv_encode (AsmR opc rd rs1 rs2) = Some w \<Longrightarrow>
   determineOpcode (extractFields w) = Inr opc \<and>
   extractOperands (extractFields w) opc w = Inr (asm_operands (AsmR opc rd rs1 rs2))"
proof -
  assume "rv_encode (AsmR opc rd rs1 rs2) = Some w"
  then obtain f7  f3  op where c: "r_code opc = Some (f7, f3, op)" and w: "w = enc_R f7 rs2 rs1 f3 rd op"
    by (auto split: if_splits)
  show ?thesis
    using map_of_SomeD [OF c [unfolded r_code_def]] unfolding w
    by (simp only: table_simps, elim disjE conjE) (simp_all add: decode_simps)
qed

lemma decode_I:
  "rv_encode (AsmI opc rd rs1 imm) = Some w \<Longrightarrow>
   determineOpcode (extractFields w) = Inr opc \<and>
   extractOperands (extractFields w) opc w = Inr (asm_operands (AsmI opc rd rs1 imm))"
proof -
  assume "rv_encode (AsmI opc rd rs1 imm) = Some w"
  then obtain f3  op where c: "i_code opc = Some (f3, op)" and w: "w = enc_I imm rs1 f3 rd op"
    by (auto split: if_splits)
  show ?thesis
    using map_of_SomeD [OF c [unfolded i_code_def]] unfolding w
    by (simp only: table_simps, elim disjE conjE) (simp_all add: decode_simps)
qed

lemma decode_S:
  "rv_encode (AsmS opc rs1 rs2 imm) = Some w \<Longrightarrow>
   determineOpcode (extractFields w) = Inr opc \<and>
   extractOperands (extractFields w) opc w = Inr (asm_operands (AsmS opc rs1 rs2 imm))"
proof -
  assume "rv_encode (AsmS opc rs1 rs2 imm) = Some w"
  then obtain f3  op where c: "s_code opc = Some (f3, op)" and w: "w = enc_S imm rs2 rs1 f3 op"
    by (auto split: if_splits)
  show ?thesis
    using map_of_SomeD [OF c [unfolded s_code_def]] unfolding w
    by (simp only: table_simps, elim disjE conjE) (simp_all add: decode_simps)
qed

lemma decode_B:
  "rv_encode (AsmB opc rs1 rs2 off) = Some w \<Longrightarrow>
   determineOpcode (extractFields w) = Inr opc \<and>
   extractOperands (extractFields w) opc w = Inr (asm_operands (AsmB opc rs1 rs2 off))"
proof -
  assume "rv_encode (AsmB opc rs1 rs2 off) = Some w"
  then obtain f3  op where c: "b_code opc = Some (f3, op)" and w: "w = enc_B off rs2 rs1 f3 op"
    by (auto split: if_splits)
  show ?thesis
    using map_of_SomeD [OF c [unfolded b_code_def]] unfolding w
    by (simp only: table_simps, elim disjE conjE) (simp_all add: decode_simps Let_def)
qed

lemma decode_U:
  "rv_encode (AsmU opc rd imm) = Some w \<Longrightarrow>
   determineOpcode (extractFields w) = Inr opc \<and>
   extractOperands (extractFields w) opc w = Inr (asm_operands (AsmU opc rd imm))"
proof -
  assume "rv_encode (AsmU opc rd imm) = Some w"
  then obtain op where c: "u_code opc = Some op" and w: "w = enc_U imm rd op"
    by (auto split: if_splits)
  show ?thesis
    using map_of_SomeD [OF c [unfolded u_code_def]] unfolding w
    by (simp only: table_simps, elim disjE conjE) (simp_all add: decode_simps Let_def)
qed

lemma decode_J:
  "rv_encode (AsmJ opc rd off) = Some w \<Longrightarrow>
   determineOpcode (extractFields w) = Inr opc \<and>
   extractOperands (extractFields w) opc w = Inr (asm_operands (AsmJ opc rd off))"
proof -
  assume "rv_encode (AsmJ opc rd off) = Some w"
  then obtain op where c: "j_code opc = Some op" and w: "w = enc_J off rd op"
    by (auto split: if_splits)
  show ?thesis
    using map_of_SomeD [OF c [unfolded j_code_def]] unfolding w
    by (simp only: table_simps, elim disjE conjE) (simp_all add: decode_simps Let_def)
qed

lemma decode_Sys:
  "rv_encode (AsmSys opc) = Some w \<Longrightarrow>
   determineOpcode (extractFields w) = Inr opc \<and>
   extractOperands (extractFields w) opc w = Inr (asm_operands (AsmSys opc))"
proof -
  assume "rv_encode (AsmSys opc) = Some w"
  then obtain imm where c: "sys_code opc = Some imm" and w: "w = enc_I imm 0 0 0 0x73"
    by (auto split: if_splits)
  show ?thesis
    using map_of_SomeD [OF c [unfolded sys_code_def]] unfolding w
    by (simp only: table_simps, elim disjE conjE) (simp_all add: decode_simps)
qed
lemma decode_Shift:
  "rv_encode (AsmShift opc rd rs1 sh) = Some w \<Longrightarrow> \<not> long_srai (AsmShift opc rd rs1 sh) \<Longrightarrow>
   determineOpcode (extractFields w) = Inr opc \<and>
   extractOperands (extractFields w) opc w = Inr (asm_operands (AsmShift opc rd rs1 sh))"
proof -
  assume "rv_encode (AsmShift opc rd rs1 sh) = Some w" and sh: "\<not> long_srai (AsmShift opc rd rs1 sh)"
  then obtain f6  f3  op where c: "shift_code opc = Some (f6, f3, op)"
    and sh32: "opc \<in> {rvSLLIW, rvSRLIW, rvSRAIW} \<longrightarrow> \<not> 32 \<le> sh" and w: "w = enc_I (push_bit 6 (ucast f6) OR ucast sh) rs1 f3 rd op"
    by (auto split: if_splits)
  show ?thesis
    using map_of_SomeD [OF c [unfolded shift_code_def]] sh sh32 unfolding w
    by (simp only: table_simps, elim disjE conjE) (simp_all add: decode_simps)
qed

lemmas decode_formats = decode_R decode_I decode_S decode_B decode_U decode_J decode_Sys

lemma decode_Fence: "determineOpcode (extractFields (enc_I imm rs1 0 rd 0x0F)) = Inl (unrecognized (extractFields (enc_I imm rs1 0 rd 0x0F)))"
  by (simp add: decode_simps)

lemma decode_long_srai:
  assumes "rv_encode (AsmShift opc rd rs1 sh) = Some w" and "long_srai (AsmShift opc rd rs1 sh)"
  shows "decode (pre @ le_bytes32 w @ post) (length pre) pc =
    Inr \<lparr> opcode = rvSRLI, operands = asm_operands (AsmShift opc rd rs1 sh), rawInstruction = w, address = pc \<rparr>"
  using assms by (auto simp: decode_read shift_code_def decode_simps)

text \<open>
  C9: decoding the little-endian bytes of any instruction of RV64I, as the formats of the manual lay it out,
  wherever they lie in the text section, gives its opcode, its operands, the raw word and the address, with two
  exceptions that the statement spells out: FENCE is rejected with a \<open>DecodingError\<close>, and SRAI by 32 or more is
  given the opcode of SRLI.
\<close>

theorem decode_rv_encode:
  assumes "rv_encode a = Some w"
  shows "decode (pre @ le_bytes32 w @ post) (length pre) pc =
    (case a of
       AsmFence _ _ _ \<Rightarrow> Inl (unrecognized (extractFields w))
     | _ \<Rightarrow> Inr \<lparr> opcode = (if long_srai a then rvSRLI else asm_opcode a), operands = asm_operands a,
                  rawInstruction = w, address = pc \<rparr>)"
proof (cases "(\<exists>imm rs1 rd. a = AsmFence imm rs1 rd) \<or> long_srai a")
  case True
  with assms decode_long_srai show ?thesis
    by (cases a) (auto simp: decode_read decode_Fence simp del: rv_encode.simps(1-8))
next
  case False
  then have "determineOpcode (extractFields w) = Inr (asm_opcode a) \<and>
    extractOperands (extractFields w) (asm_opcode a) w = Inr (asm_operands a)"
    using assms
    by (cases a) (auto dest: decode_formats decode_Shift simp del: rv_encode.simps long_srai.simps asm_operands.simps)
  with False show ?thesis by (cases a) (simp_all add: decode_read)
qed

theorem decode_rv_encode_witness:
  "rv_encode (AsmI rvADDI 7 7 0xFFF) = Some 0xFFF38393 \<and>
   decode ([1, 2] @ le_bytes32 0xFFF38393 @ [3]) 2 0x10000 =
     Inr \<lparr> opcode = rvADDI, operands = [RvRegister 7, RvRegister 7, RvImmediate (- 1)],
       rawInstruction = 0xFFF38393, address = 0x10000 \<rparr>"
proof -
  have e: "rv_encode (AsmI rvADDI 7 7 0xFFF) = Some 0xFFF38393" by code_simp
  have o: "asm_operands (AsmI rvADDI 7 7 0xFFF) = [RvRegister 7, RvRegister 7, RvImmediate (- 1)]"
    by code_simp
  have l: "length [1, 2 :: u8] = 2" by simp
  show ?thesis
    using decode_rv_encode [OF e, of "[1, 2]" "[3]" "0x10000"] e unfolding o l
    by (simp del: rv_encode.simps append.simps add: o)
qed

subsection \<open>Ranges of the immediates\<close>

lemma raw_enc_I:
  "raw = enc_I (ucast (drop_bit 20 raw)) (ucast (drop_bit 15 raw)) (ucast (drop_bit 12 raw))
     (ucast (drop_bit 7 raw)) (ucast raw)"
  unfolding enc_I_def by (rule word32_eqI) (simp add: bits32)

lemma raw_enc_S:
  "raw = enc_S (push_bit 5 (ucast (drop_bit 25 raw)) OR take_bit 5 (ucast (drop_bit 7 raw)))
     (ucast (drop_bit 20 raw)) (ucast (drop_bit 15 raw)) (ucast (drop_bit 12 raw)) (ucast raw)"
  unfolding enc_S_def enc_R_def by (rule word32_eqI) (simp add: bits32)

lemma raw_enc_B:
  "raw = enc_B (push_bit 11 (ucast (drop_bit 31 raw)) OR push_bit 10 (take_bit 1 (ucast (drop_bit 7 raw))) OR
       push_bit 4 (take_bit 6 (ucast (drop_bit 25 raw))) OR take_bit 4 (ucast (drop_bit 8 raw)))
     (ucast (drop_bit 20 raw)) (ucast (drop_bit 15 raw)) (ucast (drop_bit 12 raw)) (ucast raw)"
  unfolding enc_B_def enc_R_def by (rule word32_eqI) (simp add: bits32 del: One_nat_def)

lemma raw_enc_J:
  "raw = enc_J (push_bit 19 (ucast (drop_bit 31 raw)) OR push_bit 11 (take_bit 8 (ucast (drop_bit 12 raw))) OR
       push_bit 10 (take_bit 1 (ucast (drop_bit 20 raw))) OR take_bit 10 (ucast (drop_bit 21 raw)))
     (ucast (drop_bit 7 raw)) (ucast raw)"
  unfolding enc_J_def enc_U_def by (rule word32_eqI) (simp add: bits32 del: One_nat_def)

lemma sint_scast_12:
  fixes w :: "12 word"
  shows "- 2048 \<le> sint (scast w :: u64)" and "sint (scast w :: u64) < 2048"
  using sint_ge [of w] sint_lt [of w] by (simp_all add: sint_up_scast is_up)

lemma sint_double:
  fixes w :: "'a::len word"
  assumes "LENGTH('a) < 64"
  shows "sint (2 * scast w :: u64) = 2 * sint w"
proof -
  have p: "(2::int) ^ (LENGTH('a) - 1) \<le> 2 ^ 62"
    using assms by (intro power_increasing) auto
  have "sint (scast w :: u64) = sint w"
    using assms by (intro sint_up_scast) (simp add: is_up)
  then have "sint (2 * scast w :: u64) = signed_take_bit 63 (2 * sint w)"
    by (simp add: sint_word_ariths)
  also have "\<dots> = 2 * sint w"
    using p sint_ge [of w] sint_lt [of w] by (intro signed_take_bit_int_eq_self) auto
  finally show ?thesis .
qed

lemma field_lt_32: "(w AND REGISTER_MASK) < 32"
  using unat_le_mask [of w 5] by (simp add: REGISTER_MASK_def mask_numerals word_less_nat_alt)

lemma fields_lt_32:
  "f_rd (extractFields raw) < 32" "f_rs1 (extractFields raw) < 32" "f_rs2 (extractFields raw) < 32"
  by (simp_all add: extractFields_def field_lt_32)

lemma imm_I_range:
  "- 2048 \<le> sint (scast (extractITypeImmediate raw) :: u64)" "sint (scast (extractITypeImmediate raw) :: u64) < 2048"
  by (subst raw_enc_I [of raw], simp only: imm_enc_I scast_scast_up, simp add: sint_scast_12 scast_scast_up)+

lemma imm_S_range:
  "- 2048 \<le> sint (scast (extractSTypeImmediate raw) :: u64)" "sint (scast (extractSTypeImmediate raw) :: u64) < 2048"
  by (subst raw_enc_S [of raw], simp only: imm_enc_S, simp add: sint_scast_12 scast_scast_up)+

lemma imm_B_range:
  "- 4096 \<le> sint (scast (extractBTypeImmediate raw) :: u64)" (is ?a)
  "sint (scast (extractBTypeImmediate raw) :: u64) < 4096" (is ?b)
  "even (scast (extractBTypeImmediate raw) :: u64)" (is ?c)
proof -
  have "\<exists>off :: 12 word. extractBTypeImmediate raw = 2 * scast off"
    by (subst raw_enc_B [of raw]) (simp only: imm_enc_B, blast)
  then obtain off :: "12 word" where "extractBTypeImmediate raw = 2 * scast off"
    by blast
  then have "(scast (extractBTypeImmediate raw) :: u64) = 2 * scast off"
    by (simp add: scast_double)
  with sint_ge [of off] sint_lt [of off] show ?a ?b ?c
    by (simp_all add: sint_double)
qed

lemma imm_J_range:
  "- (2 ^ 20) \<le> sint (scast (extractJTypeImmediate raw) :: u64)" (is ?a)
  "sint (scast (extractJTypeImmediate raw) :: u64) < 2 ^ 20" (is ?b)
  "even (scast (extractJTypeImmediate raw) :: u64)" (is ?c)
proof -
  have "\<exists>off :: 20 word. extractJTypeImmediate raw = 2 * scast off"
    by (subst raw_enc_J [of raw]) (simp only: imm_enc_J, blast)
  then obtain off :: "20 word" where "extractJTypeImmediate raw = 2 * scast off"
    by blast
  then have "(scast (extractJTypeImmediate raw) :: u64) = 2 * scast off"
    by (simp add: scast_double)
  with sint_ge [of off] sint_lt [of off] show ?a ?b ?c
    by (simp_all add: sint_double)
qed

lemma imm_U_range:
  "- (2 ^ 31) \<le> sint (scast (extractUTypeImmediate raw) :: u64)"
  "sint (scast (extractUTypeImmediate raw) :: u64) < 2 ^ 31"
  "take_bit 12 (scast (extractUTypeImmediate raw) :: u64) = 0"
proof -
  show "- (2 ^ 31) \<le> sint (scast (extractUTypeImmediate raw) :: u64)"
    and "sint (scast (extractUTypeImmediate raw) :: u64) < 2 ^ 31"
    using sint_ge [of "extractUTypeImmediate raw"] sint_lt [of "extractUTypeImmediate raw"]
    by (simp_all add: sint_up_scast is_up)
  show "take_bit 12 (scast (extractUTypeImmediate raw) :: u64) = 0"
    unfolding extractUTypeImmediate_def upper_mask
    by (rule bit_word_eqI) (auto simp: bit_simps min_def)
qed

lemma decode_wf:
  assumes "decode data offset pc = Inr inst"
  shows "wf_inst inst"
proof -
  from assms obtain raw opc ops where o: "determineOpcode (extractFields raw) = Inr opc"
    and x: "extractOperands (extractFields raw) opc raw = Inr ops" and i: "opcode inst = opc" "operands inst = ops"
    by (auto simp: decode_def bindR_Inr_iff)
  show ?thesis
    using x unfolding extractOperands_def wf_inst_def i rv_format_of_def
    by (auto simp: fields_lt_32 imm_I_range imm_S_range imm_B_range
         imm_U_range [simplified] imm_J_range [simplified]
       split: if_split_asm)
qed

lemma readInstruction_short: "length data < offset + 4 \<Longrightarrow> readInstructionFromMemory data offset = Inl OutOfBounds"
  by (auto simp: readInstructionFromMemory_def vec_nth_def bindR_def)

lemma readInstruction_ok: "offset + 4 \<le> length data \<Longrightarrow> \<exists>raw. readInstructionFromMemory data offset = Inr raw"
  by (auto simp: readInstructionFromMemory_def)

lemma determineOpcode_Inl: "determineOpcode f = Inl e \<Longrightarrow> \<exists>m. e = DecodingError m"
proof -
  assume "determineOpcode f = Inl e"
  then have "e = unrecognized f"
    by (auto simp: determineOpcode_def Let_def split: if_split_asm)
  then show ?thesis by (simp add: unrecognized_def)
qed

lemma determineOpcode_Inr:
  "determineOpcode f = Inr opc \<Longrightarrow> \<exists>ops. extractOperands f opc raw = Inr ops \<and> opc \<noteq> rvINVALID"
  by (auto simp: determineOpcode_def extractOperands_def Let_def split: if_split_asm)

text \<open>
  C23: every instruction the decoder returns is well formed: it has the operands of its opcode's
  format, its register numbers are below 32 and its immediates lie in the range of the format
  (even for branches and jumps, a multiple of 4096 for LUI and AUIPC).
\<close>

theorem decode_well_formed:
  assumes "decode data offset pc = Inr inst"
  shows "wf_inst inst"
  using assms by (rule decode_wf)

theorem decode_well_formed_witness:
  "decode (le_bytes32 0xFE529EE3) 0 0x10000 =
     Inr \<lparr> opcode = rvBNE, operands = [RvRegister 5, RvRegister 5, RvImmediate (- 4)],
       rawInstruction = 0xFE529EE3, address = 0x10000 \<rparr> \<and>
   wf_inst \<lparr> opcode = rvBNE, operands = [RvRegister 5, RvRegister 5, RvImmediate (- 4)],
       rawInstruction = 0xFE529EE3, address = 0x10000 \<rparr>"
proof -
  have d: "decode (le_bytes32 0xFE529EE3) 0 0x10000 =
     Inr \<lparr> opcode = rvBNE, operands = [RvRegister 5, RvRegister 5, RvImmediate (- 4)],
       rawInstruction = 0xFE529EE3, address = 0x10000 \<rparr>" by code_simp
  show ?thesis using d decode_well_formed [OF d] by simp
qed

lemma decode_outcome:
  "decode data offset pc = Inl OutOfBounds \<and> length data < offset + 4 \<or>
   (\<exists>inst. decode data offset pc = Inr inst \<and> offset + 4 \<le> length data \<and> isValid inst \<and> address inst = pc) \<or>
   (\<exists>m. decode data offset pc = Inl (DecodingError m) \<and> offset + 4 \<le> length data)"
proof (cases "offset + 4 \<le> length data")
  case False
  then show ?thesis by (simp add: decode_def readInstruction_short)
next
  case True
  then obtain raw where raw: "readInstructionFromMemory data offset = Inr raw"
    using readInstruction_ok by blast
  show ?thesis
  proof (cases "determineOpcode (extractFields raw)")
    case (Inl e)
    with raw True determineOpcode_Inl [OF Inl] show ?thesis by (auto simp: decode_def)
  next
    case (Inr opc)
    with raw True determineOpcode_Inr [OF Inr, of raw] show ?thesis by (auto simp: decode_def isValid_def)
  qed
qed

text \<open>
  C22: reading past the end of the text section is the only failure other than an unrecognised
  instruction; with four bytes available the decoder returns a valid instruction or a
  \<open>DecodingError\<close>, and nothing else.
\<close>

theorem decode_total:
  "decode data offset pc = Inl OutOfBounds \<and> length data < offset + 4 \<or>
   (\<exists>inst. decode data offset pc = Inr inst \<and> offset + 4 \<le> length data \<and> isValid inst \<and> address inst = pc) \<or>
   (\<exists>m. decode data offset pc = Inl (DecodingError m) \<and> offset + 4 \<le> length data)"
  by (rule decode_outcome)



lemma ucast_inj_7:
  assumes "a \<noteq> (b :: 7 word)"
  shows "(ucast a :: u32) \<noteq> ucast b"
proof
  assume e: "(ucast a :: u32) = ucast b"
  have "a = b"
  proof (rule word_bitsI)
    fix n assume "n < LENGTH(7)"
    with arg_cong [OF e, of "\<lambda>w. bit w n"] show "bit a n = bit b n" by (simp add: bit_simps)
  qed
  with assms show False ..
qed

text \<open>
  C39: every word of the register-register format with \<open>funct3\<close> 0 whose \<open>funct7\<close> is not that of SUB
  decodes as ADD, so the multiplication MUL of the M extension (\<open>funct7\<close> 1) does too, where an
  unsupported instruction should be reported.
\<close>

theorem decode_ignores_funct7:
  assumes "f7 \<noteq> 0x20"
  shows "decode (le_bytes32 (enc_R f7 rs2 rs1 0 rd 0x33)) 0 pc =
    Inr \<lparr> opcode = rvADD, operands = asm_operands (AsmR rvADD rd rs1 rs2),
      rawInstruction = enc_R f7 rs2 rs1 0 rd 0x33, address = pc \<rparr>"
proof -
  have "(ucast f7 :: u32) \<noteq> ucast (0x20 :: 7 word)"
    using assms by (rule ucast_inj_7)
  with decode_read [of "[]" "enc_R f7 rs2 rs1 0 rd 0x33" "[]" pc] show ?thesis
    by (simp add: decode_simps)
qed

theorem decode_ignores_funct7_witness:
  "decode (le_bytes32 0x02C58533) 0 0 =
     Inr \<lparr> opcode = rvADD, operands = [RvRegister 10, RvRegister 11, RvRegister 12],
       rawInstruction = 0x02C58533, address = 0 \<rparr>"
proof -
  have e: "enc_R 1 12 11 0 10 0x33 = 0x02C58533" by code_simp
  have o: "asm_operands (AsmR rvADD 10 11 12) = [RvRegister 10, RvRegister 11, RvRegister 12]"
    by code_simp
  show ?thesis using decode_ignores_funct7 [of 1 12 11 10 0] e o by simp
qed

end
