(* ===== verification/RiscvSemantics.thy ===== *)
theory RiscvSemantics
  imports RiscvInstruction Memory
begin

text \<open>
  The reference the translator is measured against: the RV64I base instruction set of the RISC-V
  unprivileged manual, as a function on decoded instructions. It is a specification, not a model
  of code under \<open>src/\<close>. \<open>rv_step\<close> gives the next program counter and the next state; it is \<open>None\<close>
  where the manual defines no result inside the program (environment calls, malformed operands)
  and where an access lies outside the memory the program may use, which the parameter \<open>ok\<close>
  describes (\<open>ok a n\<close>: the \<open>n\<close> bytes at \<open>a\<close> may be accessed).
\<close>

record rv_state =
  rv_x :: "u32 \<Rightarrow> u64"
  rv_mem :: mem

definition rv_get :: "u32 \<Rightarrow> rv_state \<Rightarrow> u64" where
  "rv_get r s = (if r = 0 then 0 else rv_x s r)"

definition rv_set :: "u32 \<Rightarrow> u64 \<Rightarrow> rv_state \<Rightarrow> rv_state" where
  "rv_set r v s = (if r = 0 then s else s\<lparr>rv_x := (rv_x s)(r := v)\<rparr>)"

text \<open>The operation of a register-register or register-immediate instruction; the immediate
  form takes the sign-extended immediate as its second argument. Shifts use the low six bits of
  the second argument, their word forms the low five.\<close>

definition shl64 :: "u64 \<Rightarrow> u64 \<Rightarrow> u64" where
  "shl64 a b = push_bit (unat (take_bit 6 b)) a"

definition shr64 :: "u64 \<Rightarrow> u64 \<Rightarrow> u64" where
  "shr64 a b = drop_bit (unat (take_bit 6 b)) a"

definition sar64 :: "u64 \<Rightarrow> u64 \<Rightarrow> u64" where
  "sar64 a b = signed_drop_bit (unat (take_bit 6 b)) a"

definition word32 :: "u32 \<Rightarrow> u64" where
  "word32 w = scast w"

definition rv_alu :: "rv_opcode \<Rightarrow> (u64 \<Rightarrow> u64 \<Rightarrow> u64) option" where
  "rv_alu opc =
     (if opc \<in> {rvADD, rvADDI} then Some (+)
      else if opc = rvSUB then Some (-)
      else if opc \<in> {rvAND, rvANDI} then Some (AND)
      else if opc \<in> {rvOR, rvORI} then Some (OR)
      else if opc \<in> {rvXOR, rvXORI} then Some (XOR)
      else if opc \<in> {rvSLL, rvSLLI} then Some shl64
      else if opc \<in> {rvSRL, rvSRLI} then Some shr64
      else if opc \<in> {rvSRA, rvSRAI} then Some sar64
      else if opc \<in> {rvSLT, rvSLTI} then Some (\<lambda>a b. of_bool (sint a < sint b))
      else if opc \<in> {rvSLTU, rvSLTIU} then Some (\<lambda>a b. of_bool (a < b))
      else if opc \<in> {rvADDW, rvADDIW} then Some (\<lambda>a b. word32 (ucast a + ucast b))
      else if opc = rvSUBW then Some (\<lambda>a b. word32 (ucast a - ucast b))
      else if opc \<in> {rvSLLW, rvSLLIW} then Some (\<lambda>a b. word32 (push_bit (unat (take_bit 5 b)) (ucast a)))
      else if opc \<in> {rvSRLW, rvSRLIW} then Some (\<lambda>a b. word32 (drop_bit (unat (take_bit 5 b)) (ucast a)))
      else if opc \<in> {rvSRAW, rvSRAIW} then Some (\<lambda>a b. word32 (signed_drop_bit (unat (take_bit 5 b)) (ucast a)))
      else None)"

text \<open>The branch conditions.\<close>

definition rv_cond :: "rv_opcode \<Rightarrow> (u64 \<Rightarrow> u64 \<Rightarrow> bool) option" where
  "rv_cond opc =
     (if opc = rvBEQ then Some (=)
      else if opc = rvBNE then Some (\<noteq>)
      else if opc = rvBLT then Some (\<lambda>a b. sint a < sint b)
      else if opc = rvBGE then Some (\<lambda>a b. sint b \<le> sint a)
      else if opc = rvBLTU then Some (<)
      else if opc = rvBGEU then Some (\<lambda>a b. b \<le> a)
      else None)"

text \<open>Width in bytes and extension of the loads (sign-extending when true); widths of the stores.\<close>

definition rv_load_kind :: "rv_opcode \<Rightarrow> (nat \<times> bool) option" where
  "rv_load_kind opc =
     (if opc = rvLB then Some (1, True) else if opc = rvLH then Some (2, True)
      else if opc = rvLW then Some (4, True) else if opc = rvLD then Some (8, False)
      else if opc = rvLBU then Some (1, False) else if opc = rvLHU then Some (2, False)
      else if opc = rvLWU then Some (4, False) else None)"

definition rv_store_width :: "rv_opcode \<Rightarrow> nat option" where
  "rv_store_width opc =
     (if opc = rvSB then Some 1 else if opc = rvSH then Some 2
      else if opc = rvSW then Some 4 else if opc = rvSD then Some 8 else None)"

definition extend_loaded :: "nat \<Rightarrow> bool \<Rightarrow> u64 \<Rightarrow> u64" where
  "extend_loaded n sx v = (if sx then signed_take_bit (8 * n - 1) v else v)"

fun rv_step :: "(u64 \<Rightarrow> nat \<Rightarrow> bool) \<Rightarrow> rv_opcode \<Rightarrow> rv_operand list \<Rightarrow> u64 \<Rightarrow> rv_state \<Rightarrow> (u64 \<times> rv_state) option" where
  "rv_step ok opc [RvRegister a, RvRegister b, RvRegister c] pc s =
     (case rv_alu opc of
        None \<Rightarrow> None
      | Some f \<Rightarrow> Some (pc + 4, rv_set a (f (rv_get b s) (rv_get c s)) s))"
| "rv_step ok opc [RvRegister a, RvRegister b, RvImmediate i] pc s =
     (case rv_load_kind opc of
        Some (n, sx) \<Rightarrow>
          (let addr = rv_get b s + i
           in if ok addr n then Some (pc + 4, rv_set a (extend_loaded n sx (load_le n (rv_mem s) addr)) s)
              else None)
      | None \<Rightarrow>
     (case rv_store_width opc of
        Some n \<Rightarrow>
          (let addr = rv_get a s + i
           in if ok addr n then Some (pc + 4, s\<lparr>rv_mem := store_le n (rv_get b s) addr (rv_mem s)\<rparr>) else None)
      | None \<Rightarrow>
     (case rv_cond opc of
        Some c \<Rightarrow> Some (if c (rv_get a s) (rv_get b s) then pc + i else pc + 4, s)
      | None \<Rightarrow>
          if opc = rvJALR then Some ((rv_get b s + i) AND NOT 1, rv_set a (pc + 4) s)
          else (case rv_alu opc of
                  None \<Rightarrow> None
                | Some f \<Rightarrow> Some (pc + 4, rv_set a (f (rv_get b s) i) s)))))"
| "rv_step ok opc [RvRegister a, RvImmediate i] pc s =
     (if opc = rvLUI then Some (pc + 4, rv_set a i s)
      else if opc = rvAUIPC then Some (pc + 4, rv_set a (pc + i) s)
      else if opc = rvJAL then Some (pc + i, rv_set a (pc + 4) s)
      else None)"
| "rv_step ok opc _ pc s = None"

definition rv_exec :: "(u64 \<Rightarrow> nat \<Rightarrow> bool) \<Rightarrow> rv_instruction \<Rightarrow> rv_state \<Rightarrow> (u64 \<times> rv_state) option" where
  "rv_exec ok inst s = rv_step ok (opcode inst) (operands inst) (address inst) s"

text \<open>
  A straight run over the instructions of a block: every instruction but the last falls through
  to its successor, and the last one gives the next program counter.
\<close>

fun rv_run :: "(u64 \<Rightarrow> nat \<Rightarrow> bool) \<Rightarrow> rv_instruction list \<Rightarrow> rv_state \<Rightarrow> (u64 \<times> rv_state) option" where
  "rv_run ok [] s = None"
| "rv_run ok [inst] s = rv_exec ok inst s"
| "rv_run ok (inst # nxt # rest) s =
     (case rv_exec ok inst s of
        None \<Rightarrow> None
      | Some (pc, s') \<Rightarrow> if pc = address nxt then rv_run ok (nxt # rest) s' else None)"

end
