(* ===== verification/LifterCorrect.thy ===== *)
theory LifterCorrect
  imports Lifter DecoderCorrect RiscvSemantics IRSemantics
begin

text \<open>
  The lifter against the RISC-V semantics: running the IR of a lifted block has the effect of
  running the guest instructions. \<open>sim\<close> relates a guest state to the state of the lifter through
  the execution of the IR emitted so far; there is one rule per emission helper, one lemma per
  instruction pattern, and the block theorems follow by induction over the block. The theorems at
  the end state what the lifter does, its errors, and the two cases it gets wrong (upper
  immediates and return addresses).
\<close>

subsection \<open>The simulation relation\<close>

text \<open>
  \<open>lift_inv ok s0 R b s st \<sigma>\<close>: executing the instructions emitted so far from \<open>s0\<close> gives \<open>\<sigma>\<close>; its
  memory is that of the guest state \<open>s\<close>, every cached value is the guest register it caches, every
  register not modified is up to date in \<open>\<sigma>\<close> (whose register file is \<open>R\<close>), and at least \<open>b\<close> further
  value numbers can be used before the counter wraps. \<open>sim\<close> adds the values \<open>K\<close> known of the value
  numbers at hand; each emission rule below extends \<open>K\<close>.
\<close>

definition lift_inv ::
  "(u64 \<Rightarrow> nat \<Rightarrow> bool) \<Rightarrow> ir_state \<Rightarrow> (u32 \<Rightarrow> u64) \<Rightarrow> nat \<Rightarrow> rv_state \<Rightarrow> lifter \<Rightarrow> ir_state \<Rightarrow> bool" where
  "lift_inv ok s0 R b s st \<sigma> \<longleftrightarrow>
     ir_exec ok (currentInstructions st) s0 = Some \<sigma> \<and>
     ir_mem \<sigma> = rv_mem s \<and> ir_regs \<sigma> = R \<and>
     (\<forall>r v. cachedRegisterValues st r = Some v \<longrightarrow> ir_env \<sigma> v = Some (i64, rv_x s r)) \<and>
     (\<forall>r. r \<notin> set (modifiedRegisters st) \<longrightarrow> ir_regs \<sigma> r = rv_x s r) \<and>
     set (modifiedRegisters st) \<subseteq> dom (cachedRegisterValues st) \<and>
     dom (ir_env \<sigma>) \<subseteq> {..<nextValueId st} \<and>
     nextValueId st + b < 2 ^ 64"

definition known :: "(valueId \<times> ir_type \<times> u64) list \<Rightarrow> ir_state \<Rightarrow> bool" where
  "known K \<sigma> \<longleftrightarrow> (\<forall>(v, x) \<in> set K. ir_env \<sigma> v = Some x)"

definition sim ::
  "(u64 \<Rightarrow> nat \<Rightarrow> bool) \<Rightarrow> ir_state \<Rightarrow> (u32 \<Rightarrow> u64) \<Rightarrow> nat \<Rightarrow> rv_state \<Rightarrow> (valueId \<times> ir_type \<times> u64) list \<Rightarrow> lifter \<Rightarrow> bool" where
  "sim ok s0 R b s K st \<longleftrightarrow>
     (\<exists>\<sigma>. lift_inv ok s0 R b s st \<sigma> \<and> known K \<sigma>)"

lemma knownD: "known K \<sigma> \<Longrightarrow> (v, x) \<in> set K \<Longrightarrow> ir_env \<sigma> v = Some x"
  by (auto simp: known_def)

lemma known_Cons: "known ((v, x) # K) \<sigma> \<longleftrightarrow> ir_env \<sigma> v = Some x \<and> known K \<sigma>"
  by (auto simp: known_def)

lemma known_cong: "ir_env \<sigma> = ir_env \<tau> \<Longrightarrow> known K \<sigma> = known K \<tau>"
  by (auto simp: known_def)

lemma sim_forget: "sim ok s0 R b s K st \<Longrightarrow> set K' \<subseteq> set K \<Longrightarrow> b' \<le> b \<Longrightarrow> sim ok s0 R b' s K' st"
  unfolding sim_def lift_inv_def known_def by fastforce

lemma sim_add:
  assumes "sim ok s0 R (Suc b) s K st" and a: "addInstruction k st = (v, st')"
    and val: "\<And>\<sigma>. lift_inv ok s0 R (Suc b) s st \<sigma> \<Longrightarrow> known K \<sigma> \<Longrightarrow> ir_value ok k \<sigma> = Some x"
  shows "sim ok s0 R b s ((v, x) # K) st'"
proof -
  from assms(1) obtain \<sigma> where i: "lift_inv ok s0 R (Suc b) s st \<sigma>" and K: "known K \<sigma>"
    by (auto simp: sim_def)
  let ?s = "\<sigma>\<lparr>ir_env := (ir_env \<sigma>)(v \<mapsto> x)\<rparr>"
  from a i have v: "v = nextValueId st" "v + 1 < 2 ^ 64" and fresh: "ir_env \<sigma> v = None"
    and st': "st' = st\<lparr>nextValueId := v + 1, currentInstructions := currentInstructions st @ [\<lparr>ir_valueId = v, ir_kind = k\<rparr>]\<rparr>"
    by (auto simp: addInstruction_def Let_def lift_inv_def)
  have keep: "ir_env \<sigma> w = Some y \<Longrightarrow> w \<noteq> v" for w y using fresh by auto
  have "lift_inv ok s0 R b s st' ?s"
    using i keep ir_exec1_value [OF val [OF i K]] unfolding lift_inv_def st'
    by (auto simp: ir_exec_append v(1))
  moreover have "known ((v, x) # K) ?s"
    using K keep by (fastforce simp: known_def)
  ultimately show ?thesis unfolding sim_def by blast
qed

lemma sim_const:
  "sim ok s0 R (Suc b) s K st \<Longrightarrow> createConstant t c st = (v, st') \<Longrightarrow>
   sim ok s0 R b s ((v, t, take_bit (ir_width t) c) # K) st'"
  unfolding createConstant_def by (erule sim_add, assumption) simp

lemma sim_binop:
  assumes "sim ok s0 R (Suc b) s K st" and "createBinaryOp opc t l r st = (v, st')"
    and "(l, x) \<in> set K" and "(r, y) \<in> set K" and "ir_binop opc t x y = Some z"
  shows "sim ok s0 R b s ((v, t, z) # K) st'"
  by (rule sim_add [OF assms(1,2) [unfolded createBinaryOp_def]])
    (simp add: knownD [OF _ assms(3)] knownD [OF _ assms(4)] assms(5))

lemma sim_trunc:
  assumes "sim ok s0 R (Suc b) s K st" and "createTrunc t l st = (v, st')" and "(l, ty, x) \<in> set K"
    and "ir_width t \<le> ir_width ty"
  shows "sim ok s0 R b s ((v, t, take_bit (ir_width t) x) # K) st'"
  by (rule sim_add [OF assms(1,2) [unfolded createTrunc_def]]) (use assms(3-) in \<open>auto dest: knownD\<close>)

lemma sim_zext:
  assumes "sim ok s0 R (Suc b) s K st" and "createZext t l st = (v, st')" and "(l, ty, x) \<in> set K"
  shows "sim ok s0 R b s ((v, t, take_bit (ir_width t) x) # K) st'"
  by (rule sim_add [OF assms(1,2) [unfolded createZext_def]]) (use assms(3-) in \<open>auto dest: knownD\<close>)

lemma sim_sext:
  assumes "sim ok s0 R (Suc b) s K st" and "createSext t l st = (v, st')" and "(l, ty, x) \<in> set K" and "ty \<noteq> i1"
  shows "sim ok s0 R b s ((v, t, take_bit (ir_width t) (signed_take_bit (ir_width ty - 1) x)) # K) st'"
  by (rule sim_add [OF assms(1,2) [unfolded createSext_def]]) (use assms(3-) in \<open>auto dest: knownD\<close>)

lemma sim_load:
  assumes "sim ok s0 R (Suc b) s K st" and "createLoad t a st = (v, st')" and "(a, i64, addr) \<in> set K"
    and "ok addr (ir_bytes t)"
  shows "sim ok s0 R b s ((v, t, load_le (ir_bytes t) (rv_mem s) addr) # K) st'"
  by (rule sim_add [OF assms(1,2) [unfolded createLoad_def]]) (use assms(3-) in \<open>auto simp: lift_inv_def dest: knownD\<close>)

lemma sim_get:
  assumes "sim ok s0 R (Suc b) s K st" and g: "getRegisterValue r st = (v, st')"
  shows "sim ok s0 R b s ((v, i64, rv_get r s) # K) st'"
proof (cases "r = REG_ZERO")
  case True
  then show ?thesis
    using sim_const [OF assms(1), of i64 0 v st'] g by (simp add: getRegisterValue_def rv_get_def REG_ZERO_def)
next
  case nz: False
  then have rv: "rv_get r s = rv_x s r" by (simp add: rv_get_def REG_ZERO_def)
  show ?thesis
  proof (cases "cachedRegisterValues st r")
    case (Some w)
    then have "v = w" "st' = st" using g nz by (auto simp: getRegisterValue_def)
    from assms(1) obtain \<sigma> where i: "lift_inv ok s0 R (Suc b) s st \<sigma>" and K: "known K \<sigma>"
      by (auto simp: sim_def)
    from i have "lift_inv ok s0 R b s st \<sigma>" by (auto simp: lift_inv_def)
    moreover from i K Some have "known ((w, i64, rv_x s r) # K) \<sigma>" by (simp add: lift_inv_def known_Cons)
    ultimately show ?thesis unfolding sim_def rv \<open>v = w\<close> \<open>st' = st\<close> by blast
  next
    case None
    obtain st1 where a: "addInstruction (RegRead r) st = (v, st1)"
      and st': "st' = st1\<lparr>cachedRegisterValues := (cachedRegisterValues st1)(r \<mapsto> v)\<rparr>"
      using g nz None by (auto simp: getRegisterValue_def split: prod.splits)
    have "sim ok s0 R b s ((v, i64, rv_x s r) # K) st1"
      by (rule sim_add [OF assms(1) a]) (use None in \<open>auto simp: lift_inv_def\<close>)
    then obtain \<sigma> where i: "lift_inv ok s0 R b s st1 \<sigma>" and K: "known ((v, i64, rv_x s r) # K) \<sigma>"
      by (auto simp: sim_def)
    have "lift_inv ok s0 R b s st' \<sigma>"
      using i K unfolding lift_inv_def st' by (auto simp: known_Cons)
    with K show ?thesis unfolding sim_def rv by blast
  qed
qed

lemma sim_set:
  assumes "sim ok s0 R b s K st" and "(v, i64, x) \<in> set K"
  shows "sim ok s0 R b (rv_set r x s) K (setRegisterValue r v st)"
proof -
  from assms(1) obtain \<sigma> where i: "lift_inv ok s0 R b s st \<sigma>" and K: "known K \<sigma>"
    by (auto simp: sim_def)
  have "lift_inv ok s0 R b (rv_set r x s) (setRegisterValue r v st) \<sigma>"
    using i knownD [OF K assms(2)] unfolding lift_inv_def rv_set_def setRegisterValue_def REG_ZERO_def by auto
  with K show ?thesis unfolding sim_def by blast
qed

lemma sim_store:
  assumes "sim ok s0 R (Suc b) s K st" and "createStore v a st = (w, st')" and "(a, i64, addr) \<in> set K"
    and "(v, t, x) \<in> set K" and "ok addr (ir_bytes t)"
  shows "sim ok s0 R b (s\<lparr>rv_mem := store_le (ir_bytes t) x addr (rv_mem s)\<rparr>) K st'"
proof -
  from assms(1) obtain \<sigma> where i: "lift_inv ok s0 R (Suc b) s st \<sigma>" and K: "known K \<sigma>"
    by (auto simp: sim_def)
  from i assms(2) have st': "st' = st\<lparr>nextValueId := nextValueId st + 1,
      currentInstructions := currentInstructions st @ [\<lparr>ir_valueId = nextValueId st, ir_kind = Store v a\<rparr>]\<rparr>"
    by (auto simp: createStore_def addInstruction_def Let_def lift_inv_def)
  have "ir_exec1 ok \<lparr>ir_valueId = nextValueId st, ir_kind = Store v a\<rparr> \<sigma> =
      Some (\<sigma>\<lparr>ir_mem := store_le (ir_bytes t) x addr (ir_mem \<sigma>)\<rparr>)"
    using knownD [OF K assms(3)] knownD [OF K assms(4)] assms(5) by (simp add: ir_exec1.simps)
  with i have "lift_inv ok s0 R b (s\<lparr>rv_mem := store_le (ir_bytes t) x addr (rv_mem s)\<rparr>) st'
      (\<sigma>\<lparr>ir_mem := store_le (ir_bytes t) x addr (ir_mem \<sigma>)\<rparr>)"
    unfolding lift_inv_def st' by (auto simp: ir_exec_append)
  moreover have "known K (\<sigma>\<lparr>ir_mem := store_le (ir_bytes t) x addr (ir_mem \<sigma>)\<rparr>)"
    using K by (simp add: known_def)
  ultimately show ?thesis unfolding sim_def by blast
qed


subsection \<open>The operations agree\<close>

lemma unat_mod_64: "unat (b :: u64) mod 64 = unat (take_bit 6 b)"
  using take_bit_eq_mod [of 6 "unat b"] by (simp add: unsigned_take_bit_eq)

lemma take_bit_32_add: "take_bit 32 (take_bit 32 a + take_bit 32 b) = take_bit 32 (a + b :: u64)"
  unfolding word_unat_eq_iff unsigned_take_bit_eq unat_word_ariths take_bit_eq_mod [where 'a = nat]
  by (simp add: mod_mod_cancel mod_add_eq)

lemma ir_binop_alu:
  "ir_binop irAdd i64 (i64, a) (i64, b) = Some (a + b)"
  "ir_binop irSub i64 (i64, a) (i64, b) = Some (a - b)"
  "ir_binop irAnd i64 (i64, a) (i64, b) = Some (a AND b)"
  "ir_binop irOr i64 (i64, a) (i64, b) = Some (a OR b)"
  "ir_binop irXor i64 (i64, a) (i64, b) = Some (a XOR b)"
  "ir_binop irShl i64 (i64, a) (i64, b) = Some (shl64 a b)"
  "ir_binop irShr i64 (i64, a) (i64, b) = Some (shr64 a b)"
  "ir_binop irSar i64 (i64, a) (i64, b) = Some (sar64 a b)"
  "ir_binop irLt t (i64, a) (i64, b) = Some (of_bool (sint a < sint b))"
  "ir_binop irGe t (i64, a) (i64, b) = Some (of_bool (sint b \<le> sint a))"
  "ir_binop irLtU t (i64, a) (i64, b) = Some (of_bool (a < b))"
  "ir_binop irGeU t (i64, a) (i64, b) = Some (of_bool (b \<le> a))"
  "ir_binop irEq t (i64, a) (i64, b) = Some (of_bool (a = b))"
  "ir_binop irNe t (i64, a) (i64, b) = Some (of_bool (a \<noteq> b))"
  by (simp_all add: ir_binop_def ir_compare_def ir_arith_def ir_signed_def Let_def take_bit_word_eq_self
       unat_mod_64 shl64_def shr64_def sar64_def)

lemma ir_binop_word:
  "ir_binop irAdd i32 (i32, take_bit 32 a) (i32, take_bit 32 b) = Some (take_bit 32 (a + b))"
  "ir_binop irShl i32 (i32, take_bit 32 a) (i32, take_bit 32 b) = Some (take_bit 32 (push_bit (unat (take_bit 5 b)) a))"
proof -
  show "ir_binop irAdd i32 (i32, take_bit 32 a) (i32, take_bit 32 b) = Some (take_bit 32 (a + b))"
    by (simp add: ir_binop_def ir_compare_def ir_arith_def Let_def take_bit_32_add)
  have "unat (take_bit 32 b) mod 32 = unat (take_bit 5 b)"
    by (simp add: unsigned_take_bit_eq take_bit_eq_mod [where 'a = nat] mod_mod_cancel)
  then show "ir_binop irShl i32 (i32, take_bit 32 a) (i32, take_bit 32 b) =
      Some (take_bit 32 (push_bit (unat (take_bit 5 b)) a))"
    by (simp add: ir_binop_def ir_compare_def ir_arith_def Let_def) 
       (rule bit_word_eqI, auto simp: bit_simps)
qed

lemma sext_word32: "signed_take_bit 31 (take_bit 32 a) = word32 (ucast (a :: u64))"
  unfolding word32_def by (rule bit_word_eqI) (auto simp: bit_simps min_def)

lemma sext_arith_word:
  "word32 (ucast (a + b)) = word32 (ucast a + ucast (b :: u64))"
  "word32 (ucast (push_bit n a)) = word32 (push_bit n (ucast (a :: u64)))"
proof -
  show "word32 (ucast (a + b)) = word32 (ucast a + ucast b)"
    by (rule arg_cong [where f = word32]) (simp add: word_unat_eq_iff unsigned_ucast_eq unat_word_ariths take_bit_eq_mod [where 'a = nat] mod_mod_cancel mod_add_eq)
  show "word32 (ucast (push_bit n a)) = word32 (push_bit n (ucast a))"
    by (rule arg_cong [where f = word32]) (rule bit_word_eqI, auto simp: bit_simps)
qed


subsection \<open>The instruction patterns\<close>

lemma lift_R:
  assumes "operands inst = [RvRegister rd, RvRegister r1, RvRegister r2]"
    and f: "\<And>a b. ir_binop opc i64 (i64, a) (i64, b) = Some (f a b)"
    and s: "sim ok s0 R (b + 8) s [] st"
  shows "\<exists>st'. liftRTypeBinaryOp inst opc i64 st = Inr st' \<and> sim ok s0 R b (rv_set rd (f (rv_get r1 s) (rv_get r2 s)) s) [] st'"
proof -
  obtain v1 st1 where 1: "getRegisterValue r1 st = (v1, st1)" by fastforce
  obtain v2 st2 where 2: "getRegisterValue r2 st1 = (v2, st2)" by fastforce
  obtain v3 st3 where 3: "createBinaryOp opc i64 v1 v2 st2 = (v3, st3)" by fastforce
  let ?x = "f (rv_get r1 s) (rv_get r2 s)"
  have "sim ok s0 R (Suc (Suc (Suc (Suc (Suc b))))) s [] st" using s by (rule sim_forget) auto
  note sim_binop [OF sim_get [OF sim_get [OF this 1] 2] 3, of "(i64, rv_get r1 s)" "(i64, rv_get r2 s)" ?x]
  then have "sim ok s0 R (Suc (Suc b)) s [(v3, i64, ?x), (v2, i64, rv_get r2 s), (v1, i64, rv_get r1 s)] st3"
    by (simp add: f)
  then have "sim ok s0 R b (rv_set rd ?x s) [] (setRegisterValue rd v3 st3)"
    by (rule sim_forget [OF sim_set]) auto
  then show ?thesis by (simp add: liftRTypeBinaryOp_def assms(1) 1 2 3)
qed


lemma lift_I:
  assumes "operands inst = [RvRegister rd, RvRegister r1, RvImmediate i]"
    and f: "\<And>a b. ir_binop opc i64 (i64, a) (i64, b) = Some (f a b)"
    and s: "sim ok s0 R (b + 8) s [] st"
  shows "\<exists>st'. liftITypeBinaryOp inst opc i64 st = Inr st' \<and> sim ok s0 R b (rv_set rd (f (rv_get r1 s) i) s) [] st'"
proof -
  obtain v1 st1 where 1: "getRegisterValue r1 st = (v1, st1)" by fastforce
  obtain v2 st2 where 2: "createConstant i64 i st1 = (v2, st2)" by fastforce
  obtain v3 st3 where 3: "createBinaryOp opc i64 v1 v2 st2 = (v3, st3)" by fastforce
  let ?x = "f (rv_get r1 s) i"
  have "sim ok s0 R (Suc (Suc (Suc (Suc (Suc b))))) s [] st" using s by (rule sim_forget) auto
  from sim_binop [OF sim_const [OF sim_get [OF this 1] 2] 3, of "(i64, rv_get r1 s)" "(i64, i)" ?x]
  have "sim ok s0 R (Suc (Suc b)) s [(v3, i64, ?x), (v2, i64, i), (v1, i64, rv_get r1 s)] st3"
    by (simp add: f take_bit_word_eq_self)
  then have "sim ok s0 R b (rv_set rd ?x s) [] (setRegisterValue rd v3 st3)"
    by (rule sim_forget [OF sim_set]) auto
  then show ?thesis by (simp add: liftITypeBinaryOp_def assms(1) 1 2 3)
qed

lemma lift_W:
  assumes "operands inst = [RvRegister rd, RvRegister r1, RvRegister r2]"
    and f: "\<And>a b. \<exists>c. ir_binop opc i32 (i32, take_bit 32 a) (i32, take_bit 32 b) = Some c \<and> signed_take_bit 31 c = f a b"
    and s: "sim ok s0 R (b + 8) s [] st"
  shows "\<exists>st'. liftWTypeBinaryOp inst opc st = Inr st' \<and> sim ok s0 R b (rv_set rd (f (rv_get r1 s) (rv_get r2 s)) s) [] st'"
proof -
  obtain v1 st1 where 1: "getRegisterValue r1 st = (v1, st1)" by fastforce
  obtain v2 st2 where 2: "getRegisterValue r2 st1 = (v2, st2)" by fastforce
  obtain v3 st3 where 3: "createTrunc i32 v1 st2 = (v3, st3)" by fastforce
  obtain v4 st4 where 4: "createTrunc i32 v2 st3 = (v4, st4)" by fastforce
  obtain v5 st5 where 5: "createBinaryOp opc i32 v3 v4 st4 = (v5, st5)" by fastforce
  obtain v6 st6 where 6: "createSext i64 v5 st5 = (v6, st6)" by fastforce
  let ?a = "rv_get r1 s" and ?b = "rv_get r2 s"
  from f obtain c where c: "ir_binop opc i32 (i32, take_bit 32 ?a) (i32, take_bit 32 ?b) = Some c"
    "signed_take_bit 31 c = f ?a ?b" by blast
  have "sim ok s0 R (Suc (Suc (Suc (Suc (Suc (Suc (Suc (Suc b)))))))) s [] st" using s by (rule sim_forget) auto
  from sim_trunc [OF sim_get [OF sim_get [OF this 1] 2] 3, of i64 ?a]
  have "sim ok s0 R (Suc (Suc (Suc (Suc (Suc b))))) s [(v3, i32, take_bit 32 ?a), (v2, i64, ?b), (v1, i64, ?a)] st3" by simp
  from sim_trunc [OF this 4, of i64 ?b]
  have "sim ok s0 R (Suc (Suc (Suc (Suc b)))) s [(v4, i32, take_bit 32 ?b), (v3, i32, take_bit 32 ?a), (v2, i64, ?b), (v1, i64, ?a)] st4"
    by simp
  from sim_sext [OF sim_binop [OF this 5 _ _ c(1)] 6, of i32 c]
  have "sim ok s0 R (Suc (Suc b)) s ((v6, i64, f ?a ?b) # (v5, i32, c) # [(v4, i32, take_bit 32 ?b), (v3, i32, take_bit 32 ?a), (v2, i64, ?b), (v1, i64, ?a)]) st6"
    by (simp add: c take_bit_word_eq_self)
  then have "sim ok s0 R b (rv_set rd (f ?a ?b) s) [] (setRegisterValue rd v6 st6)"
    by (rule sim_forget [OF sim_set]) auto
  then show ?thesis by (simp add: liftWTypeBinaryOp_def assms(1) 1 2 3 4 5 6)
qed

lemma lift_WI:
  assumes "operands inst = [RvRegister rd, RvRegister r1, RvImmediate i]"
    and f: "\<And>a b. \<exists>c. ir_binop opc i32 (i32, take_bit 32 a) (i32, take_bit 32 b) = Some c \<and> signed_take_bit 31 c = f a b"
    and s: "sim ok s0 R (b + 8) s [] st"
  shows "\<exists>st'. liftWTypeImmOp inst opc st = Inr st' \<and> sim ok s0 R b (rv_set rd (f (rv_get r1 s) i) s) [] st'"
proof -
  obtain v1 st1 where 1: "getRegisterValue r1 st = (v1, st1)" by fastforce
  obtain v2 st2 where 2: "createConstant i32 i st1 = (v2, st2)" by fastforce
  obtain v3 st3 where 3: "createTrunc i32 v1 st2 = (v3, st3)" by fastforce
  obtain v5 st5 where 5: "createBinaryOp opc i32 v3 v2 st3 = (v5, st5)" by fastforce
  obtain v6 st6 where 6: "createSext i64 v5 st5 = (v6, st6)" by fastforce
  let ?a = "rv_get r1 s"
  from f obtain c where c: "ir_binop opc i32 (i32, take_bit 32 ?a) (i32, take_bit 32 i) = Some c"
    "signed_take_bit 31 c = f ?a i" by blast
  have "sim ok s0 R (Suc (Suc (Suc (Suc (Suc (Suc (Suc b))))))) s [] st" using s by (rule sim_forget) auto
  from sim_trunc [OF sim_const [OF sim_get [OF this 1] 2] 3, of i64 ?a]
  have "sim ok s0 R (Suc (Suc (Suc (Suc b)))) s [(v3, i32, take_bit 32 ?a), (v2, i32, take_bit 32 i), (v1, i64, ?a)] st3" by simp
  from sim_sext [OF sim_binop [OF this 5 _ _ c(1)] 6, of i32 c]
  have "sim ok s0 R (Suc (Suc b)) s ((v6, i64, f ?a i) # (v5, i32, c) # [(v3, i32, take_bit 32 ?a), (v2, i32, take_bit 32 i), (v1, i64, ?a)]) st6"
    by (simp add: c take_bit_word_eq_self)
  then have "sim ok s0 R b (rv_set rd (f ?a i) s) [] (setRegisterValue rd v6 st6)"
    by (rule sim_forget [OF sim_set]) auto
  then show ?thesis by (simp add: liftWTypeImmOp_def assms(1) 1 2 3 5 6)
qed

lemma lift_address:
  assumes s: "sim ok s0 R (Suc (Suc (Suc b))) s K st" and 1: "getRegisterValue r1 st = (v1, st1)"
    and 2: "createConstant i64 i st1 = (v2, st2)" and 3: "createBinaryOp irAdd i64 v1 v2 st2 = (v3, st3)"
  shows "sim ok s0 R b s ((v3, i64, rv_get r1 s + i) # K) st3"
proof -
  from sim_binop [OF sim_const [OF sim_get [OF s 1] 2] 3, of "(i64, rv_get r1 s)" "(i64, i)" "rv_get r1 s + i"]
  have "sim ok s0 R b s ((v3, i64, rv_get r1 s + i) # (v2, i64, i) # (v1, i64, rv_get r1 s) # K) st3"
    by (simp add: ir_binop_alu take_bit_word_eq_self)
  then show ?thesis by (rule sim_forget) auto
qed

lemma lift_Load:
  assumes "operands inst = [RvRegister rd, RvRegister r1, RvImmediate i]"
    and n: "ir_bytes t = n" "t \<noteq> i1" "t = i64 \<longrightarrow> \<not> sx" and k: "ok (rv_get r1 s + i) n"
    and s: "sim ok s0 R (b + 8) s [] st"
  shows "\<exists>st'. liftLoadInstruction inst t sx st = Inr st' \<and>
    sim ok s0 R b (rv_set rd (extend_loaded n sx (load_le n (rv_mem s) (rv_get r1 s + i))) s) [] st'"
proof -
  obtain v1 st1 where 1: "getRegisterValue r1 st = (v1, st1)" by fastforce
  obtain v2 st2 where 2: "createConstant i64 i st1 = (v2, st2)" by fastforce
  obtain v3 st3 where 3: "createBinaryOp irAdd i64 v1 v2 st2 = (v3, st3)" by fastforce
  obtain v4 st4 where 4: "createLoad t v3 st3 = (v4, st4)" by fastforce
  obtain v5 st5 where 5: "(if t \<noteq> i64 then (if sx then createSext i64 v4 st4 else createZext i64 v4 st4) else (v4, st4)) = (v5, st5)"
    by fastforce
  let ?m = "load_le n (rv_mem s) (rv_get r1 s + i)"
  have "sim ok s0 R (Suc (Suc (Suc (Suc (Suc (Suc (Suc b))))))) s [] st" using s by (rule sim_forget) auto
  note sim_load [OF lift_address [OF this 1 2 3] 4, of "rv_get r1 s + i", unfolded n]
  with k have 6: "sim ok s0 R (Suc (Suc (Suc b))) s [(v4, t, ?m), (v3, i64, rv_get r1 s + i)] st4" by simp
  have w: "ir_width t = 8 * n" using n by (cases t) auto
  have "sim ok s0 R (Suc (Suc b)) s [(v5, i64, extend_loaded n sx ?m), (v4, t, ?m), (v3, i64, rv_get r1 s + i)] st5"
  proof (cases "t = i64")
    case True
    with 5 n have "v5 = v4" "st5 = st4" "\<not> sx" by auto
    with 6 True show ?thesis by (auto simp: extend_loaded_def intro: sim_forget)
  next
    case False
    show ?thesis
    proof (cases sx)
      case True
      with 5 False have "createSext i64 v4 st4 = (v5, st5)" by simp
      from sim_sext [OF 6 this, of t ?m] True n(2) show ?thesis
        by (simp add: extend_loaded_def w take_bit_word_eq_self)
    next
      case sx: False
      with 5 False have "createZext i64 v4 st4 = (v5, st5)" by simp
      from sim_zext [OF 6 this, of t ?m] sx show ?thesis
        by (simp add: extend_loaded_def take_bit_word_eq_self)
    qed
  qed
  then have "sim ok s0 R b (rv_set rd (extend_loaded n sx ?m) s) [] (setRegisterValue rd v5 st5)"
    by (rule sim_forget [OF sim_set]) auto
  then show ?thesis unfolding liftLoadInstruction_def by (simp add: assms(1) 1 2 3 4 5)
qed


lemma lift_Store:
  assumes "operands inst = [RvRegister r1, RvRegister r2, RvImmediate i]"
    and n: "ir_bytes t = n" "t \<noteq> i1" and k: "ok (rv_get r1 s + i) n"
    and s: "sim ok s0 R (b + 8) s [] st"
  shows "\<exists>st'. liftStoreInstruction inst t st = Inr st' \<and>
    sim ok s0 R b (s\<lparr>rv_mem := store_le n (rv_get r2 s) (rv_get r1 s + i) (rv_mem s)\<rparr>) [] st'"
proof -
  obtain v1 st1 where 1: "getRegisterValue r1 st = (v1, st1)" by fastforce
  obtain v2 st2 where 2: "getRegisterValue r2 st1 = (v2, st2)" by fastforce
  obtain v3 st3 where 3: "createConstant i64 i st2 = (v3, st3)" by fastforce
  obtain v4 st4 where 4: "createBinaryOp irAdd i64 v1 v3 st3 = (v4, st4)" by fastforce
  obtain v5 st5 where 5: "(if t \<noteq> i64 then createTrunc t v2 st4 else (v2, st4)) = (v5, st5)" by fastforce
  obtain v6 st6 where 6: "createStore v5 v4 st5 = (v6, st6)" by fastforce
  let ?a = "rv_get r1 s" and ?v = "rv_get r2 s"
  have w: "ir_width t = 8 * n" using n by (cases t) auto
  have "sim ok s0 R (Suc (Suc (Suc (Suc (Suc (Suc b)))))) s [] st" using s by (rule sim_forget) auto
  from sim_binop [OF sim_const [OF sim_get [OF sim_get [OF this 1] 2] 3] 4, of "(i64, ?a)" "(i64, i)" "?a + i"]
  have 7: "sim ok s0 R (Suc (Suc b)) s [(v4, i64, ?a + i), (v3, i64, i), (v2, i64, ?v), (v1, i64, ?a)] st4"
    by (simp add: ir_binop_alu take_bit_word_eq_self)
  have "sim ok s0 R (Suc b) s [(v5, t, take_bit (8 * n) ?v), (v4, i64, ?a + i)] st5"
  proof (cases "t = i64")
    case True
    with 5 n have "v5 = v2" "st5 = st4" "n = 8" by auto
    with 7 True show ?thesis by (auto simp: take_bit_word_eq_self intro: sim_forget)
  next
    case False
    with 5 have "createTrunc t v2 st4 = (v5, st5)" by simp
    from sim_trunc [OF 7 this, of i64 ?v] ir_width_le [of t] show ?thesis by (auto simp: w intro: sim_forget)
  qed
  from sim_store [where ok = ok, OF this 6, of "?a + i" t "take_bit (8 * n) ?v"] k n(1)
  have "sim ok s0 R b (s\<lparr>rv_mem := store_le n ?v (?a + i) (rv_mem s)\<rparr>) [] st6"
    by (auto simp: store_le_take_bit intro: sim_forget)
  then show ?thesis unfolding liftStoreInstruction_def by (simp add: assms(1) 1 2 3 4 5 6)
qed

subsection \<open>One instruction\<close>

text \<open>The IR operation each arithmetic opcode is lifted to.\<close>

definition lift_alu :: "rv_opcode \<rightharpoonup> binary_opcode" where
  "lift_alu = map_of
     [(rvADD, irAdd), (rvADDI, irAdd), (rvSUB, irSub), (rvAND, irAnd), (rvANDI, irAnd), (rvOR, irOr), (rvORI, irOr),
      (rvXOR, irXor), (rvXORI, irXor), (rvSLL, irShl), (rvSLLI, irShl), (rvSRL, irShr), (rvSRLI, irShr),
      (rvSRA, irSar), (rvSRAI, irSar), (rvSLT, irLt), (rvSLTU, irLtU), (rvSLTI, irLt), (rvSLTIU, irLtU)]"

definition lift_load :: "rv_opcode \<rightharpoonup> ir_type \<times> bool" where
  "lift_load = map_of [(rvLB, (i8, True)), (rvLH, (i16, True)), (rvLD, (i64, False)), (rvLW, (i32, True)), (rvLWU, (i32, False))]"

definition lift_store :: "rv_opcode \<rightharpoonup> ir_type" where
  "lift_store = map_of [(rvSD, i64), (rvSW, i32)]"

definition supported_opcodes :: "rv_opcode set" where
  "supported_opcodes = dom lift_alu \<union> dom lift_load \<union> dom lift_store \<union> {rvADDW, rvADDIW, rvSLLIW, rvLUI, rvAUIPC}"

lemmas opcode_tables = set_simps insert_iff empty_iff prod.inject simp_thms

lemma wf_instD:
  assumes "wf_inst inst"
  shows "rv_format_of (opcode inst) = Some FmtR \<Longrightarrow> \<exists>rd r1 r2. operands inst = [RvRegister rd, RvRegister r1, RvRegister r2]"
    and "rv_format_of (opcode inst) = Some FmtI \<Longrightarrow> \<exists>rd r1 i. operands inst = [RvRegister rd, RvRegister r1, RvImmediate i]"
    and "rv_format_of (opcode inst) = Some FmtS \<Longrightarrow> \<exists>r1 r2 i. operands inst = [RvRegister r1, RvRegister r2, RvImmediate i]"
    and "rv_format_of (opcode inst) = Some FmtB \<Longrightarrow> \<exists>r1 r2 i. operands inst = [RvRegister r1, RvRegister r2, RvImmediate i]"
    and "rv_format_of (opcode inst) = Some FmtU \<Longrightarrow> \<exists>rd i. operands inst = [RvRegister rd, RvImmediate i]"
    and "rv_format_of (opcode inst) = Some FmtJ \<Longrightarrow> \<exists>rd i. operands inst = [RvRegister rd, RvImmediate i]"
  using assms by (auto simp: wf_inst_def elim: wf_operands.elims)

lemma lift_alu_sound:
  assumes "lift_alu opc = Some irop"
  shows "\<exists>f. rv_alu opc = Some f \<and> (\<forall>a b. ir_binop irop i64 (i64, a) (i64, b) = Some (f a b))"
    and "rv_load_kind opc = None \<and> rv_store_width opc = None \<and> rv_cond opc = None \<and> opc \<noteq> rvJALR \<and>
      (rv_format_of opc = Some FmtR \<or> rv_format_of opc = Some FmtI)"
    and "opcode inst = opc \<Longrightarrow> liftSingleInstruction inst st =
      (if rv_format_of opc = Some FmtR then liftRTypeBinaryOp inst irop i64 st else liftITypeBinaryOp inst irop i64 st)"
  using map_of_SomeD [OF assms [unfolded lift_alu_def]]
  by (simp only: opcode_tables, elim disjE conjE, simp_all add: ir_binop_alu rv_alu_def rv_load_kind_def
    rv_store_width_def rv_cond_def rv_format_of_def liftSingleInstruction_def)+

lemma lift_load_sound:
  assumes "lift_load opc = Some (t, sx)"
  shows "rv_load_kind opc = Some (ir_bytes t, sx) \<and> t \<noteq> i1 \<and> (t = i64 \<longrightarrow> \<not> sx) \<and> rv_format_of opc = Some FmtI"
    and "opcode inst = opc \<Longrightarrow> liftSingleInstruction inst st = liftLoadInstruction inst t sx st"
  using map_of_SomeD [OF assms [unfolded lift_load_def]]
  by (simp only: opcode_tables, elim disjE conjE,
      simp_all add: rv_load_kind_def rv_format_of_def liftSingleInstruction_def)+

lemma lift_store_sound:
  assumes "lift_store opc = Some t"
  shows "rv_store_width opc = Some (ir_bytes t) \<and> rv_load_kind opc = None \<and> t \<noteq> i1 \<and> rv_format_of opc = Some FmtS"
    and "opcode inst = opc \<Longrightarrow> liftSingleInstruction inst st = liftStoreInstruction inst t st"
  using map_of_SomeD [OF assms [unfolded lift_store_def]]
  by (simp only: opcode_tables, elim disjE conjE,
      simp_all add: rv_store_width_def rv_load_kind_def rv_format_of_def liftSingleInstruction_def)+

lemma word_ops_sound:
  "\<exists>c. ir_binop irAdd i32 (i32, take_bit 32 a) (i32, take_bit 32 b) = Some c \<and>
     signed_take_bit 31 c = word32 (ucast a + ucast b)"
  "\<exists>c. ir_binop irShl i32 (i32, take_bit 32 a) (i32, take_bit 32 b) = Some c \<and>
     signed_take_bit 31 c = word32 (push_bit (unat (take_bit 5 b)) (ucast a))"
  by (simp_all add: ir_binop_word sext_word32 sext_arith_word)

text \<open>
  The second shift of an upper immediate is harmless only when the immediate is zero.
\<close>

definition upper_ok :: "rv_instruction \<Rightarrow> bool" where
  "upper_ok inst \<longleftrightarrow> (opcode inst \<in> {rvLUI, rvAUIPC} \<longrightarrow> getImmediate inst 1 = Inr 0)"

lemma lift_upper:
  assumes ops: "operands inst = [RvRegister rd, RvImmediate i]" and s: "sim ok s0 R (b + 8) s [] st"
  shows "opcode inst = rvLUI \<Longrightarrow>
      \<exists>st'. liftSingleInstruction inst st = Inr st' \<and> sim ok s0 R b (rv_set rd (push_bit 12 i) s) [] st'"
    and "opcode inst = rvAUIPC \<Longrightarrow>
      \<exists>st'. liftSingleInstruction inst st = Inr st' \<and> sim ok s0 R b (rv_set rd (address inst + push_bit 12 i) s) [] st'"
proof -
  assume o: "opcode inst = rvLUI"
  obtain v st1 where 1: "createConstant i64 (push_bit 12 i) st = (v, st1)" by fastforce
  have "sim ok s0 R (Suc (Suc (Suc b))) s [] st" using s by (rule sim_forget) auto
  from sim_const [OF this 1] have "sim ok s0 R (Suc (Suc b)) s [(v, i64, push_bit 12 i)] st1"
    by (simp add: take_bit_word_eq_self)
  then have "sim ok s0 R b (rv_set rd (push_bit 12 i) s) [] (setRegisterValue rd v st1)"
    by (rule sim_forget [OF sim_set]) auto
  then show "\<exists>st'. liftSingleInstruction inst st = Inr st' \<and> sim ok s0 R b (rv_set rd (push_bit 12 i) s) [] st'"
    by (simp add: liftSingleInstruction_def o ops 1)
next
  assume o: "opcode inst = rvAUIPC"
  obtain v st1 where 1: "createConstant i64 (address inst) st = (v, st1)" by fastforce
  obtain v2 st2 where 2: "createConstant i64 (push_bit 12 i) st1 = (v2, st2)" by fastforce
  obtain v3 st3 where 3: "createBinaryOp irAdd i64 v v2 st2 = (v3, st3)" by fastforce
  let ?x = "address inst + push_bit 12 i"
  have "sim ok s0 R (Suc (Suc (Suc (Suc (Suc b))))) s [] st" using s by (rule sim_forget) auto
  from sim_binop [OF sim_const [OF sim_const [OF this 1] 2] 3, of "(i64, address inst)" "(i64, push_bit 12 i)" ?x]
  have "sim ok s0 R (Suc (Suc b)) s [(v3, i64, ?x), (v2, i64, push_bit 12 i), (v, i64, address inst)] st3"
    by (simp add: take_bit_word_eq_self ir_binop_alu)
  then have "sim ok s0 R b (rv_set rd ?x s) [] (setRegisterValue rd v3 st3)"
    by (rule sim_forget [OF sim_set]) auto
  then show "\<exists>st'. liftSingleInstruction inst st = Inr st' \<and> sim ok s0 R b (rv_set rd ?x s) [] st'"
    by (simp add: liftSingleInstruction_def o ops 1 2 3)
qed

lemma lift_single_alu:
  assumes "wf_inst inst" and l: "lift_alu (opcode inst) = Some irop"
    and e: "rv_exec ok inst s = Some (pc', s')" and s: "sim ok s0 R (b + 8) s [] st"
  shows "pc' = address inst + 4 \<and> (\<exists>st'. liftSingleInstruction inst st = Inr st' \<and> sim ok s0 R b s' [] st')"
proof -
  from lift_alu_sound(1) [OF l] obtain f where f: "rv_alu (opcode inst) = Some f"
    and g: "\<And>a b. ir_binop irop i64 (i64, a) (i64, b) = Some (f a b)" by blast
  from lift_alu_sound(2) [OF l] consider "rv_format_of (opcode inst) = Some FmtR" | "rv_format_of (opcode inst) = Some FmtI"
    by blast
  then show ?thesis
  proof cases
    case 1
    then obtain rd r1 r2 where ops: "operands inst = [RvRegister rd, RvRegister r1, RvRegister r2]"
      using wf_instD(1) [OF assms(1)] by blast
    from lift_R [OF ops g s] e f 1 show ?thesis
      by (auto simp: rv_exec_def ops lift_alu_sound(3) [OF l])
  next
    case 2
    then obtain rd r1 i where ops: "operands inst = [RvRegister rd, RvRegister r1, RvImmediate i]"
      using wf_instD(2) [OF assms(1)] by blast
    from lift_I [OF ops g s] e f 2 show ?thesis
      by (auto simp: rv_exec_def ops lift_alu_sound(2,3) [OF l])
  qed
qed

lemma lift_single_mem:
  assumes "wf_inst inst" and e: "rv_exec ok inst s = Some (pc', s')" and s: "sim ok s0 R (b + 8) s [] st"
  shows "lift_load (opcode inst) = Some (t, sx) \<Longrightarrow>
      pc' = address inst + 4 \<and> (\<exists>st'. liftSingleInstruction inst st = Inr st' \<and> sim ok s0 R b s' [] st')"
    and "lift_store (opcode inst) = Some t \<Longrightarrow>
      pc' = address inst + 4 \<and> (\<exists>st'. liftSingleInstruction inst st = Inr st' \<and> sim ok s0 R b s' [] st')"
proof -
  assume l: "lift_load (opcode inst) = Some (t, sx)"
  then obtain rd r1 i where ops: "operands inst = [RvRegister rd, RvRegister r1, RvImmediate i]"
    using wf_instD(2) [OF assms(1)] lift_load_sound(1) [OF l] by blast
  have "ok (rv_get r1 s + i) (ir_bytes t)"
    using e lift_load_sound(1) [OF l] by (auto simp: rv_exec_def ops Let_def split: if_splits)
  from lift_Load [where ok = ok, OF ops refl _ _ this s, of sx] lift_load_sound(1) [OF l] e this
  show "pc' = address inst + 4 \<and> (\<exists>st'. liftSingleInstruction inst st = Inr st' \<and> sim ok s0 R b s' [] st')"
    by (auto simp: rv_exec_def ops lift_load_sound(2) [OF l])
next
  assume l: "lift_store (opcode inst) = Some t"
  then obtain r1 r2 i where ops: "operands inst = [RvRegister r1, RvRegister r2, RvImmediate i]"
    using wf_instD(3) [OF assms(1)] lift_store_sound(1) [OF l] by blast
  have "ok (rv_get r1 s + i) (ir_bytes t)"
    using e lift_store_sound(1) [OF l] by (auto simp: rv_exec_def ops Let_def split: if_splits)
  from lift_Store [where ok = ok, OF ops refl _ this s] lift_store_sound(1) [OF l] e this
  show "pc' = address inst + 4 \<and> (\<exists>st'. liftSingleInstruction inst st = Inr st' \<and> sim ok s0 R b s' [] st')"
    by (auto simp: rv_exec_def ops lift_store_sound(2) [OF l])
qed

lemma lift_single_word:
  assumes "wf_inst inst" and e: "rv_exec ok inst s = Some (pc', s')" and s: "sim ok s0 R (b + 8) s [] st"
    and o: "opcode inst \<in> {rvADDW, rvADDIW, rvSLLIW}"
  shows "pc' = address inst + 4 \<and> (\<exists>st'. liftSingleInstruction inst st = Inr st' \<and> sim ok s0 R b s' [] st')"
proof (cases "opcode inst = rvADDW")
  case True
  then obtain rd r1 r2 where ops: "operands inst = [RvRegister rd, RvRegister r1, RvRegister r2]"
    using wf_instD(1) [OF assms(1)] by (auto simp: rv_format_of_def)
  from lift_W [OF ops word_ops_sound(1) s] e show ?thesis
    by (auto simp: rv_exec_def ops True rv_alu_def liftSingleInstruction_def)
next
  case False
  with o obtain rd r1 i where ops: "operands inst = [RvRegister rd, RvRegister r1, RvImmediate i]"
    using wf_instD(2) [OF assms(1)] by (auto simp: rv_format_of_def)
  from False o consider "opcode inst = rvADDIW" | "opcode inst = rvSLLIW" by auto
  then show ?thesis
  proof cases
    case 1
    with lift_WI [OF ops word_ops_sound(1) s] e show ?thesis
      by (auto simp: rv_exec_def ops rv_alu_def rv_load_kind_def rv_store_width_def rv_cond_def liftSingleInstruction_def)
  next
    case 2
    with lift_WI [OF ops word_ops_sound(2) s] e show ?thesis
      by (auto simp: rv_exec_def ops rv_alu_def rv_load_kind_def rv_store_width_def rv_cond_def liftSingleInstruction_def)
  qed
qed

lemma lift_single_upper:
  assumes "wf_inst inst" and e: "rv_exec ok inst s = Some (pc', s')" and s: "sim ok s0 R (b + 8) s [] st"
    and o: "opcode inst \<in> {rvLUI, rvAUIPC}" and u: "upper_ok inst"
  shows "pc' = address inst + 4 \<and> (\<exists>st'. liftSingleInstruction inst st = Inr st' \<and> sim ok s0 R b s' [] st')"
proof -
  from o obtain rd i where ops: "operands inst = [RvRegister rd, RvImmediate i]"
    using wf_instD(5) [OF assms(1)] by (auto simp: rv_format_of_def)
  with u o have i: "i = 0" by (auto simp: upper_ok_def)
  from o lift_upper [OF ops s] e show ?thesis by (auto simp: rv_exec_def ops i)
qed

lemma lift_single:
  assumes "wf_inst inst" and "opcode inst \<in> supported_opcodes" and "upper_ok inst"
    and "rv_exec ok inst s = Some (pc', s')" and "sim ok s0 R (b + 8) s [] st"
  shows "pc' = address inst + 4 \<and> (\<exists>st'. liftSingleInstruction inst st = Inr st' \<and> sim ok s0 R b s' [] st')"
proof -
  from assms(2) consider irop where "lift_alu (opcode inst) = Some irop"
    | t sx where "lift_load (opcode inst) = Some (t, sx)" | t where "lift_store (opcode inst) = Some t"
    | "opcode inst \<in> {rvADDW, rvADDIW, rvSLLIW}" | "opcode inst \<in> {rvLUI, rvAUIPC}"
    unfolding supported_opcodes_def by auto
  then show ?thesis
    by cases (use lift_single_alu [OF assms(1) _ assms(4,5)] lift_single_mem [OF assms(1,4,5)]
      lift_single_word [OF assms(1,4,5)] lift_single_upper [OF assms(1,4,5) _ assms(3)] in blast)+
qed

subsection \<open>Writing the registers back\<close>

lemma finalizeRegisterWrite_sim:
  assumes i: "lift_inv ok s0 R (Suc b) s st \<sigma>" and r: "r \<in> dom (cachedRegisterValues st)"
  shows "\<exists>\<sigma>'. lift_inv ok s0 (R(r := rv_x s r)) b s (finalizeRegisterWrite r st) \<sigma>' \<and>
    cachedRegisterValues (finalizeRegisterWrite r st) = cachedRegisterValues st"
proof -
  from r obtain v where v: "cachedRegisterValues st r = Some v" by auto
  with i have e: "ir_env \<sigma> v = Some (i64, rv_x s r)" by (simp add: lift_inv_def)
  let ?inst = "\<lparr>ir_valueId = nextValueId st, ir_kind = RegWrite r v\<rparr>"
  have c: "(cachedRegisterValues st)(r \<mapsto> v) = cachedRegisterValues st" using v by auto
  have f: "finalizeRegisterWrite r st = st\<lparr>nextValueId := nextValueId st + 1,
      currentInstructions := currentInstructions st @ [?inst]\<rparr>"
    using v c i by (simp add: finalizeRegisterWrite_def addInstruction_def Let_def lift_inv_def)
  have "ir_exec1 ok ?inst \<sigma> = Some (\<sigma>\<lparr>ir_regs := R(r := rv_x s r)\<rparr>)"
    using e i by (simp add: ir_exec1.simps lift_inv_def)
  with i show ?thesis unfolding f lift_inv_def by (auto simp: ir_exec_append)
qed

lemma finalizeFold_sim:
  assumes "lift_inv ok s0 R (b + length rs) s st \<sigma>" and "set rs \<subseteq> dom (cachedRegisterValues st)"
  shows "\<exists>\<sigma>'. lift_inv ok s0 (\<lambda>r. if r \<in> set rs then rv_x s r else R r) b s (fold finalizeRegisterWrite rs st) \<sigma>'"
  using assms
proof (induction rs arbitrary: R st \<sigma>)
  case Nil
  then show ?case by auto
next
  case (Cons r rs)
  from finalizeRegisterWrite_sim [of ok s0 R "b + length rs" s st \<sigma> r] Cons.prems
  obtain \<sigma>' where i: "lift_inv ok s0 (R(r := rv_x s r)) (b + length rs) s (finalizeRegisterWrite r st) \<sigma>'"
    and "cachedRegisterValues (finalizeRegisterWrite r st) = cachedRegisterValues st" by auto
  moreover have "(\<lambda>x. if x \<in> set (r # rs) then rv_x s x else R x) =
      (\<lambda>x. if x \<in> set rs then rv_x s x else (R(r := rv_x s r)) x)" by auto
  ultimately show ?case using Cons.IH [OF i] Cons.prems(2) by simp
qed

lemma finalize_sim:
  assumes o: "\<And>xs. mset (order xs) = mset xs" and "sim ok s0 R (b + length (modifiedRegisters st)) s [] st"
  shows "sim ok s0 (rv_x s) b s [] (finalizeRegisterWrites order st)"
proof -
  let ?rs = "order (modifiedRegisters st)"
  have rs: "set ?rs = set (modifiedRegisters st)" "length ?rs = length (modifiedRegisters st)"
    using o [of "modifiedRegisters st"] by (auto dest: mset_eq_setD mset_eq_length)
  from assms(2) obtain \<sigma> where i: "lift_inv ok s0 R (b + length ?rs) s st \<sigma>"
    by (auto simp: sim_def rs)
  then have R: "(\<lambda>r. if r \<in> set ?rs then rv_x s r else R r) = rv_x s"
    by (auto simp: rs lift_inv_def)
  have "set ?rs \<subseteq> dom (cachedRegisterValues st)"
    using i by (simp add: rs lift_inv_def)
  from finalizeFold_sim [OF i this] show ?thesis
    unfolding R by (auto simp: sim_def known_def finalizeRegisterWrites_def)
qed

subsection \<open>Terminators\<close>

definition is_ret :: "rv_instruction \<Rightarrow> bool" where
  "is_ret inst \<longleftrightarrow> opcode inst = rvJALR \<and> operands inst = [RvRegister 0, RvRegister 1, RvImmediate 0]"

definition gives_next :: "(u64 \<Rightarrow> nat \<Rightarrow> bool) \<Rightarrow> ir_state \<Rightarrow> rv_state \<Rightarrow> u64 \<Rightarrow> terminator_kind \<Rightarrow> lifter \<Rightarrow> bool" where
  "gives_next ok s0 s pc term st \<longleftrightarrow>
     (\<exists>\<sigma>. ir_exec ok (currentInstructions st) s0 = Some \<sigma> \<and> ir_next term \<sigma> = Some pc \<and>
        ir_regs \<sigma> = rv_x s \<and> ir_mem \<sigma> = rv_mem s)"

lemma gives_nextI:
  assumes "sim ok s0 (rv_x s) b s K st" and "\<And>\<sigma>. known K \<sigma> \<Longrightarrow> ir_next term \<sigma> = Some pc"
  shows "gives_next ok s0 s pc term st"
  using assms unfolding gives_next_def sim_def lift_inv_def by blast

lemma lift_cond:
  assumes ops: "operands inst = [RvRegister r1, RvRegister r2, RvImmediate i]"
    and f: "\<And>a b. ir_binop irop i1 (i64, a) (i64, b) = Some (of_bool (c a b))"
    and s: "sim ok s0 (rv_x s) (b + 6) s [] st"
  shows "\<exists>term st'. createConditionalBranch irop inst ft st = Inr (term, st') \<and>
    gives_next ok s0 s (if c (rv_get r1 s) (rv_get r2 s) then address inst + i else ft) term st'"
proof -
  obtain v1 st1 where 1: "getRegisterValue r1 st = (v1, st1)" by fastforce
  obtain v2 st2 where 2: "getRegisterValue r2 st1 = (v2, st2)" by fastforce
  obtain v3 st3 where 3: "createBinaryOp irop i1 v1 v2 st2 = (v3, st3)" by fastforce
  let ?x = "of_bool (c (rv_get r1 s) (rv_get r2 s)) :: u64"
  have "sim ok s0 (rv_x s) (Suc (Suc (Suc b))) s [] st" using s by (rule sim_forget) auto
  from sim_binop [OF sim_get [OF sim_get [OF this 1] 2] 3, of "(i64, rv_get r1 s)" "(i64, rv_get r2 s)" ?x]
  have "sim ok s0 (rv_x s) b s [(v3, i1, ?x), (v2, i64, rv_get r2 s), (v1, i64, rv_get r1 s)] st3"
    by (simp add: f)
  then have "gives_next ok s0 s (if c (rv_get r1 s) (rv_get r2 s) then address inst + i else ft)
      (CondBranch v3 (address inst + i) ft) st3"
    by (rule gives_nextI) (simp add: known_Cons)
  then show ?thesis by (simp add: createConditionalBranch_def ops 1 2 3)
qed

lemma gives_next_set: "gives_next ok s0 s pc term (setRegisterValue r v st) = gives_next ok s0 s pc term st"
  by (simp add: gives_next_def setRegisterValue_def)

lemma lift_JAL:
  assumes ops: "operands inst = [RvRegister rd, RvImmediate i]" and o: "opcode inst = rvJAL"
    and s: "sim ok s0 (rv_x s) (b + 6) s [] st"
  shows "\<exists>term st'. liftTerminator inst ft st = Inr (term, st') \<and> gives_next ok s0 s (address inst + i) term st'"
proof -
  obtain v1 st1 where 1: "createConstant i64 (address inst + 4) st = (v1, st1)" by fastforce
  have "sim ok s0 (rv_x s) (Suc b) s [] st" using s by (rule sim_forget) auto
  from sim_const [OF this 1] have "gives_next ok s0 s (address inst + i) (Branch (address inst + i)) st1"
    by (rule gives_nextI) simp
  then show ?thesis by (simp add: liftTerminator_def o ops 1 gives_next_set)
qed

lemma lift_JALR:
  assumes ops: "operands inst = [RvRegister rd, RvRegister r1, RvImmediate i]" and o: "opcode inst = rvJALR"
    and s: "sim ok s0 (rv_x s) (b + 6) s [] st"
  shows "\<exists>term st'. liftTerminator inst ft st = Inr (term, st') \<and>
    gives_next ok s0 s (if is_ret inst then 0 else (rv_get r1 s + i) AND NOT 1) term st'"
proof (cases "is_ret inst")
  case True
  with ops have "rd = 0" "r1 = 1" "i = 0" by (auto simp: is_ret_def)
  moreover have "gives_next ok s0 s 0 (Return None) st" using s by (rule gives_nextI) simp
  ultimately show ?thesis using True by (simp add: liftTerminator_def o ops REG_ZERO_def REG_RA_def)
next
  case False
  then have n: "\<not> (rd = REG_ZERO \<and> r1 = REG_RA \<and> i = 0)"
    by (auto simp: is_ret_def o ops REG_ZERO_def REG_RA_def)
  obtain v1 st1 where 1: "getRegisterValue r1 st = (v1, st1)" by fastforce
  obtain v2 st2 where 2: "createConstant i64 i st1 = (v2, st2)" by fastforce
  obtain v3 st3 where 3: "createBinaryOp irAdd i64 v1 v2 st2 = (v3, st3)" by fastforce
  obtain v4 st4 where 4: "createConstant i64 JALR_ALIGN_MASK st3 = (v4, st4)" by fastforce
  obtain v5 st5 where 5: "createBinaryOp irAnd i64 v3 v4 st4 = (v5, st5)" by fastforce
  obtain v6 st6 where 6: "createConstant i64 (address inst + 4) st5 = (v6, st6)" by fastforce
  let ?t = "rv_get r1 s + i"
  have "sim ok s0 (rv_x s) (Suc (Suc (Suc (Suc (Suc (Suc b)))))) s [] st" using s by (rule sim_forget) auto
  from sim_const [OF lift_address [OF this 1 2 3] 4]
  have "sim ok s0 (rv_x s) (Suc (Suc b)) s [(v4, i64, JALR_ALIGN_MASK), (v3, i64, ?t)] st4"
    by (simp add: take_bit_word_eq_self)
  from sim_binop [OF this 5, of "(i64, ?t)" "(i64, JALR_ALIGN_MASK)" "?t AND NOT 1"]
  have 7: "sim ok s0 (rv_x s) (Suc b) s [(v5, i64, ?t AND NOT 1), (v4, i64, JALR_ALIGN_MASK), (v3, i64, ?t)] st5"
    by (simp add: ir_binop_alu) (simp add: JALR_ALIGN_MASK_def)
  have "gives_next ok s0 s (?t AND NOT 1) (Return (Some v5)) st5"
    using 7 by (rule gives_nextI) (simp add: known_Cons)
  moreover have "gives_next ok s0 s (?t AND NOT 1) (Return (Some v5)) st6"
    using sim_const [OF 7 6] by (rule gives_nextI) (simp add: known_Cons)
  ultimately show ?thesis
    using False n by (auto simp add: liftTerminator_def o ops 1 2 3 4 5 6 gives_next_set Let_def)
qed

text \<open>The IR comparison of each branch opcode.\<close>

definition lift_branch :: "rv_opcode \<rightharpoonup> binary_opcode" where
  "lift_branch = map_of
     [(rvBEQ, irEq), (rvBNE, irNe), (rvBLT, irLt), (rvBGE, irGe), (rvBLTU, irLtU), (rvBGEU, irGeU)]"

lemma lift_branch_sound:
  assumes "lift_branch opc = Some irop"
  shows "\<exists>c. rv_cond opc = Some c \<and> (\<forall>a b. ir_binop irop i1 (i64, a) (i64, b) = Some (of_bool (c a b)))"
    and "rv_load_kind opc = None \<and> rv_store_width opc = None \<and> rv_format_of opc = Some FmtB \<and> opc \<noteq> rvJALR"
    and "opcode inst = opc \<Longrightarrow> liftTerminator inst ft st = createConditionalBranch irop inst ft st"
  using map_of_SomeD [OF assms [unfolded lift_branch_def]]
  by (simp only: opcode_tables, elim disjE conjE, simp_all add: ir_binop_alu rv_load_kind_def
    rv_store_width_def rv_cond_def rv_format_of_def liftTerminator_def)+

lemma isTerminator_cases:
  assumes "isTerminator inst"
  obtains irop where "lift_branch (opcode inst) = Some irop" | "opcode inst = rvJAL" | "opcode inst = rvJALR"
  using assms unfolding isTerminator_def lift_branch_def by auto

lemma lift_terminator:
  assumes "wf_inst inst" and t: "isTerminator inst" and e: "rv_exec ok inst s = Some (pc, s')"
    and s: "sim ok s0 (rv_x s) (b + 6) s [] st"
  shows "\<exists>term st'. liftTerminator inst (address inst + 4) st = Inr (term, st') \<and>
    gives_next ok s0 s (if is_ret inst then 0 else pc) term st'"
  using t
proof (cases rule: isTerminator_cases)
  case (1 irop)
  from lift_branch_sound(1) [OF 1] obtain c where c: "rv_cond (opcode inst) = Some c"
    and f: "\<And>a b. ir_binop irop i1 (i64, a) (i64, b) = Some (of_bool (c a b))" by blast
  from lift_branch_sound(2) [OF 1] wf_instD(4) [OF assms(1)]
  obtain r1 r2 i where ops: "operands inst = [RvRegister r1, RvRegister r2, RvImmediate i]" by blast
  from lift_cond [OF ops f s, of "address inst + 4"] e c lift_branch_sound(2,3) [OF 1] show ?thesis
    by (auto simp: rv_exec_def ops is_ret_def)
next
  case 2
  with wf_instD(6) [OF assms(1)] obtain rd i where ops: "operands inst = [RvRegister rd, RvImmediate i]"
    by (auto simp: rv_format_of_def)
  from lift_JAL [OF ops 2 s] e 2 show ?thesis by (auto simp: rv_exec_def ops is_ret_def)
next
  case 3
  with wf_instD(2) [OF assms(1)] obtain rd r1 i where ops: "operands inst = [RvRegister rd, RvRegister r1, RvImmediate i]"
    by (auto simp: rv_format_of_def)
  from lift_JALR [OF ops 3 s] e 3 show ?thesis
    by (auto simp: rv_exec_def ops rv_load_kind_def rv_store_width_def rv_cond_def split: if_splits)
qed

subsection \<open>A basic block\<close>

fun rv_body :: "(u64 \<Rightarrow> nat \<Rightarrow> bool) \<Rightarrow> rv_instruction list \<Rightarrow> rv_state \<Rightarrow> rv_state option" where
  "rv_body ok [] s = Some s"
| "rv_body ok (inst # rest) s = Option.bind (rv_exec ok inst s) (\<lambda>(_, s). rv_body ok rest s)"

lemma rv_run_snoc:
  "rv_run ok (xs @ [t]) s = Some (pc, s') \<Longrightarrow>
   \<exists>s1. rv_body ok xs s = Some s1 \<and> rv_exec ok t s1 = Some (pc, s')"
proof (induction xs arbitrary: s)
  case Nil
  then show ?case by simp
next
  case (Cons x xs)
  obtain y ys where y: "xs @ [t] = y # ys" by (cases "xs @ [t]") auto
  from Cons.prems obtain pc1 s1 where "rv_exec ok x s = Some (pc1, s1)" and "rv_run ok (xs @ [t]) s1 = Some (pc, s')"
    by (auto simp: y split: option.splits if_splits)
  with Cons.IH show ?case by simp
qed

text \<open>
  What the simulation needs of an instruction: operands of its format, an opcode the lifter
  supports, and none of the two cases the lifter gets wrong (an upper immediate other than
  zero, see \<open>lift_upper\<close>).
\<close>

definition body_ok :: "rv_instruction \<Rightarrow> bool" where
  "body_ok inst \<longleftrightarrow> wf_inst inst \<and> opcode inst \<in> supported_opcodes \<and> upper_ok inst"

lemma body_not_terminator: "body_ok inst \<Longrightarrow> \<not> isTerminator inst"
  by (auto simp: body_ok_def supported_opcodes_def isTerminator_def lift_alu_def lift_load_def lift_store_def
    split: if_split_asm)

lemma lift_body:
  assumes "list_all body_ok xs" and "rv_body ok xs s = Some s'" and "sim ok s0 R (b + 8 * length xs) s [] st"
  shows "\<exists>st'. foldR liftSingleInstruction xs st = Inr st' \<and> sim ok s0 R b s' [] st'"
  using assms
proof (induction xs arbitrary: s st)
  case Nil
  then show ?case by simp
next
  case (Cons x xs)
  from Cons.prems obtain pc s1 where 1: "rv_exec ok x s = Some (pc, s1)" and 2: "rv_body ok xs s1 = Some s'"
    by (auto simp: bind_eq_Some_conv)
  have "sim ok s0 R (b + 8 * length xs + 8) s [] st" using Cons.prems(3) by (simp add: algebra_simps)
  from lift_single [OF _ _ _ 1 this] Cons.prems(1) obtain st1
    where "liftSingleInstruction x st = Inr st1" and "sim ok s0 R (b + 8 * length xs) s1 [] st1"
    by (auto simp: body_ok_def)
  with Cons.IH [OF _ 2] Cons.prems(1) show ?case by simp
qed

lemma liftLoop_body:
  "list_all (\<lambda>i. \<not> isTerminator i) xs \<Longrightarrow>
   liftLoop order (xs @ ys) st = bindR (foldR liftSingleInstruction xs st) (liftLoop order ys)"
  by (induction xs arbitrary: st) (auto simp: bindR_assoc cong: bindR_cong)

lemma body_ok_list: "list_all body_ok xs \<Longrightarrow> list_all (\<lambda>i. \<not> isTerminator i) xs"
  by (auto simp: list_all_iff body_not_terminator)

lemma gives_next_run:
  assumes "gives_next ok \<lparr>ir_env = Map.empty, ir_regs = regs, ir_mem = m\<rparr> s pc term st"
  shows "ir_run ok \<lparr>instructions = currentInstructions st, terminator = term\<rparr> regs m = Some (pc, rv_x s, rv_mem s)"
  using assms by (auto simp: gives_next_def ir_run_def)

lemma sim_init:
  assumes "st = st0\<lparr>currentInstructions := [], cachedRegisterValues := Map.empty, modifiedRegisters := []\<rparr>"
    and "nextValueId st0 + b < 2 ^ 64" and "s = \<lparr>rv_x = regs, rv_mem = m\<rparr>"
  shows "sim ok \<lparr>ir_env = Map.empty, ir_regs = regs, ir_mem = m\<rparr> regs b s [] st"
  using assms by (auto simp: sim_def lift_inv_def known_def)

text \<open>Lifting one instruction modifies at most one register.\<close>

lemma modified_create:
  "modifiedRegisters (snd (addInstruction k st)) = modifiedRegisters st"
  "modifiedRegisters (snd (getRegisterValue r st)) = modifiedRegisters st"
  "modifiedRegisters (snd (createConstant t c st)) = modifiedRegisters st"
  "modifiedRegisters (snd (createBinaryOp opc t v w st)) = modifiedRegisters st"
  "modifiedRegisters (snd (createLoad t v st)) = modifiedRegisters st"
  "modifiedRegisters (snd (createStore v w st)) = modifiedRegisters st"
  "modifiedRegisters (snd (createSext t v st)) = modifiedRegisters st"
  "modifiedRegisters (snd (createZext t v st)) = modifiedRegisters st"
  "modifiedRegisters (snd (createTrunc t v st)) = modifiedRegisters st"
  by (auto simp: addInstruction_def getRegisterValue_def createConstant_def createBinaryOp_def createLoad_def
    createStore_def createSext_def createZext_def createTrunc_def Let_def split: option.splits)

lemma modified_set: "length (modifiedRegisters (setRegisterValue r v st)) \<le> Suc (length (modifiedRegisters st))"
  by (simp add: setRegisterValue_def)

lemma modified_set_of:
  "modifiedRegisters st = modifiedRegisters st0 \<Longrightarrow>
   length (modifiedRegisters (setRegisterValue r v st)) \<le> Suc (length (modifiedRegisters st0))"
  using modified_set [of r v st] by simp

lemma modified_patterns:
  "liftRTypeBinaryOp inst opc t st = Inr st' \<Longrightarrow> length (modifiedRegisters st') \<le> Suc (length (modifiedRegisters st))"
  "liftITypeBinaryOp inst opc t st = Inr st' \<Longrightarrow> length (modifiedRegisters st') \<le> Suc (length (modifiedRegisters st))"
  "liftWTypeBinaryOp inst opc st = Inr st' \<Longrightarrow> length (modifiedRegisters st') \<le> Suc (length (modifiedRegisters st))"
  "liftWTypeImmOp inst opc st = Inr st' \<Longrightarrow> length (modifiedRegisters st') \<le> Suc (length (modifiedRegisters st))"
  "liftLoadInstruction inst t sx st = Inr st' \<Longrightarrow> length (modifiedRegisters st') \<le> Suc (length (modifiedRegisters st))"
  "liftStoreInstruction inst t st = Inr st' \<Longrightarrow> length (modifiedRegisters st') \<le> Suc (length (modifiedRegisters st))"
  by (auto simp: liftRTypeBinaryOp_def liftITypeBinaryOp_def liftWTypeBinaryOp_def liftWTypeImmOp_def
    liftLoadInstruction_def liftStoreInstruction_def bindR_Inr_iff Let_def split_def modified_create
    intro!: modified_set_of)

lemma modified_single:
  "liftSingleInstruction inst st = Inr st' \<Longrightarrow> length (modifiedRegisters st') \<le> Suc (length (modifiedRegisters st))"
  by (cases "opcode inst")
    (auto simp: liftSingleInstruction_def bindR_Inr_iff Let_def split_def modified_create
      dest: modified_patterns intro!: modified_set_of)

lemma modified_body:
  "foldR liftSingleInstruction xs st = Inr st' \<Longrightarrow> length (modifiedRegisters st') \<le> length xs + length (modifiedRegisters st)"
proof (induction xs arbitrary: st)
  case (Cons x xs)
  from Cons.prems obtain st1 where "liftSingleInstruction x st = Inr st1" and "foldR liftSingleInstruction xs st1 = Inr st'"
    by (auto simp: bindR_Inr_iff)
  with Cons.IH [of st1] modified_single [of x st st1] show ?case by simp
qed simp

text \<open>
  The common part of the two block theorems: the body is lifted and the modified registers are
  written back.
\<close>

lemma lift_body_finalize:
  assumes o: "\<And>xs. mset (order xs) = mset xs" and "list_all body_ok xs"
    and "rv_body ok xs s = Some s'" and s: "sim ok s0 R (b + 9 * length xs) s [] st" and m: "modifiedRegisters st = []"
  shows "\<exists>st'. foldR liftSingleInstruction xs st = Inr st' \<and>
    sim ok s0 (rv_x s') b s' [] (finalizeRegisterWrites order st')"
proof -
  from s have "sim ok s0 R ((b + length xs) + 8 * length xs) s [] st" by (simp add: algebra_simps)
  from lift_body [OF assms(2,3) this] obtain st' where f: "foldR liftSingleInstruction xs st = Inr st'"
    and s: "sim ok s0 R (b + length xs) s' [] st'" by blast
  from s modified_body [OF f] m have "sim ok s0 R (b + length (modifiedRegisters st')) s' [] st'"
    by (auto elim: sim_forget)
  from finalize_sim [OF o this] f show ?thesis by blast
qed

lemma liftBasicBlock_fallthrough:
  assumes "\<And>xs. mset (order xs) = mset xs" and "list_all body_ok xs" and "xs \<noteq> []"
    and "rv_body ok xs \<lparr>rv_x = regs, rv_mem = m\<rparr> = Some s" and "nextValueId st + 9 * length xs < 2 ^ 64"
  shows "\<exists>block st'. liftBasicBlock order xs st = Inr (block, st') \<and>
    ir_run ok block regs m = Some (address (last xs) + 4, rv_x s, rv_mem s)"
proof -
  let ?st = "st\<lparr>currentInstructions := [], cachedRegisterValues := Map.empty, modifiedRegisters := []\<rparr>"
  have "sim ok \<lparr>ir_env = Map.empty, ir_regs = regs, ir_mem = m\<rparr> regs (0 + 9 * length xs) \<lparr>rv_x = regs, rv_mem = m\<rparr> [] ?st"
    by (rule sim_init) (use assms(5) in auto)
  from lift_body_finalize [OF assms(1,2,4) this] obtain st' where f: "foldR liftSingleInstruction xs ?st = Inr st'"
    and s: "sim ok \<lparr>ir_env = Map.empty, ir_regs = regs, ir_mem = m\<rparr> (rv_x s) 0 s [] (finalizeRegisterWrites order st')"
    by auto
  have "gives_next ok \<lparr>ir_env = Map.empty, ir_regs = regs, ir_mem = m\<rparr> s (address (last xs) + 4)
      (Branch (address (last xs) + 4)) (finalizeRegisterWrites order st')"
    using s by (rule gives_nextI) simp
  from gives_next_run [OF this] show ?thesis
    using liftLoop_body [OF body_ok_list [OF assms(2)], of order "[]" ?st] f assms(2,3)
    by (simp add: liftBasicBlock_def Let_def body_not_terminator list_all_iff)
qed

lemma liftBasicBlock_terminated:
  assumes "\<And>xs. mset (order xs) = mset xs" and "list_all body_ok xs" and "wf_inst t" and "isTerminator t"
    and "rv_body ok xs \<lparr>rv_x = regs, rv_mem = m\<rparr> = Some s" and "rv_exec ok t s = Some (pc, s')"
    and "nextValueId st + 9 * length xs + 6 < 2 ^ 64"
  shows "\<exists>block st'. liftBasicBlock order (xs @ [t]) st = Inr (block, st') \<and>
    ir_run ok block regs m = Some (if is_ret t then 0 else pc, rv_x s, rv_mem s)"
proof -
  let ?st = "st\<lparr>currentInstructions := [], cachedRegisterValues := Map.empty, modifiedRegisters := []\<rparr>"
  have "sim ok \<lparr>ir_env = Map.empty, ir_regs = regs, ir_mem = m\<rparr> regs (6 + 9 * length xs) \<lparr>rv_x = regs, rv_mem = m\<rparr> [] ?st"
    by (rule sim_init) (use assms(7) in auto)
  from lift_body_finalize [OF assms(1,2,5) this] obtain st' where f: "foldR liftSingleInstruction xs ?st = Inr st'"
    and s: "sim ok \<lparr>ir_env = Map.empty, ir_regs = regs, ir_mem = m\<rparr> (rv_x s) (0 + 6) s [] (finalizeRegisterWrites order st')"
    by auto
  from lift_terminator [OF assms(3,4,6) s] obtain trm st''
    where l: "liftTerminator t (address t + 4) (finalizeRegisterWrites order st') = Inr (trm, st'')"
    and g: "gives_next ok \<lparr>ir_env = Map.empty, ir_regs = regs, ir_mem = m\<rparr> s (if is_ret t then 0 else pc) trm st''"
    by blast
  from gives_next_run [OF g] show ?thesis
    using liftLoop_body [OF body_ok_list [OF assms(2)], of order "[t]" ?st] f l assms(4)
    by (simp add: liftBasicBlock_def Let_def)
qed


definition link_ok :: "rv_instruction \<Rightarrow> bool" where
  "link_ok inst \<longleftrightarrow> (opcode inst \<in> {rvJAL, rvJALR} \<longrightarrow> getRegister inst 0 = Inr 0)"

definition block_ok :: "rv_instruction list \<Rightarrow> bool" where
  "block_ok insts \<longleftrightarrow> insts \<noteq> [] \<and> list_all body_ok (butlast insts) \<and>
     (body_ok (last insts) \<or> wf_inst (last insts) \<and> isTerminator (last insts) \<and> link_ok (last insts))"

lemma terminator_effect:
  assumes "wf_inst t" and "isTerminator t" and "rv_exec ok t s = Some (pc, s')"
  shows "s' = (case getRegister t 0 of Inr rd \<Rightarrow> if opcode t \<in> {rvJAL, rvJALR} then rv_set rd (address t + 4) s else s | _ \<Rightarrow> s)"
  using assms(2)
proof (cases rule: isTerminator_cases)
  case (1 irop)
  from lift_branch_sound(2) [OF 1] wf_instD(4) [OF assms(1)]
  obtain r1 r2 i where ops: "operands t = [RvRegister r1, RvRegister r2, RvImmediate i]" by blast
  from lift_branch_sound(1,2) [OF 1] assms(3) show ?thesis
    by (auto simp: rv_exec_def ops rv_cond_def)
next
  case 2
  with wf_instD(6) [OF assms(1)] obtain r i where ops: "operands t = [RvRegister r, RvImmediate i]"
    by (auto simp: rv_format_of_def)
  from assms(3) 2 show ?thesis by (auto simp: rv_exec_def ops)
next
  case 3
  with wf_instD(2) [OF assms(1)] obtain r r1 i where ops: "operands t = [RvRegister r, RvRegister r1, RvImmediate i]"
    by (auto simp: rv_format_of_def)
  from assms(3) 3 show ?thesis
    by (auto simp: rv_exec_def ops rv_load_kind_def rv_store_width_def rv_cond_def)
qed

lemma terminator_keeps_state:
  assumes "wf_inst t" and "isTerminator t" and "rv_exec ok t s = Some (pc, s')" and "link_ok t"
  shows "s' = s"
  using terminator_effect [OF assms(1-3)] assms(4) by (auto simp: link_ok_def rv_set_def split: sum.splits)

lemma body_next:
  assumes "body_ok t" and "rv_exec ok t s = Some (pc, s')"
  shows "pc = address t + 4"
proof -
  have "sim ok \<lparr>ir_env = Map.empty, ir_regs = rv_x s, ir_mem = rv_mem s\<rparr> (rv_x s) (0 + 8) s []
      (Lifter_init\<lparr>currentInstructions := [], cachedRegisterValues := Map.empty, modifiedRegisters := []\<rparr>)"
    by (rule sim_init [OF refl]) (simp_all add: Lifter_init_def)
  from lift_single [OF _ _ _ assms(2) this] assms(1) show ?thesis by (simp add: body_ok_def)
qed

lemma rv_body_snoc: "rv_body ok (xs @ [t]) s = Option.bind (rv_body ok xs s) (\<lambda>s. map_option snd (rv_exec ok t s))"
  by (induction xs arbitrary: s) (auto split: bind_splits)

lemma block_okE:
  assumes "block_ok insts" and "rv_run ok insts s = Some (pc, s')"
  obtains xs t s1 where "insts = xs @ [t]" and "list_all body_ok xs" and "rv_body ok xs s = Some s1"
    and "rv_exec ok t s1 = Some (pc, s')" and "body_ok t \<or> wf_inst t \<and> isTerminator t \<and> link_ok t"
proof -
  have i: "insts = butlast insts @ [last insts]" using assms(1) by (simp add: block_ok_def)
  from rv_run_snoc [of ok "butlast insts" "last insts" s pc s'] assms i obtain s1
    where "rv_body ok (butlast insts) s = Some s1" and "rv_exec ok (last insts) s1 = Some (pc, s')" by auto
  with that [OF i] assms(1) show thesis by (auto simp: block_ok_def)
qed

lemma liftBasicBlock_sim:
  assumes o: "\<And>xs. mset (order xs) = mset xs" and b: "block_ok insts"
    and r: "rv_run ok insts \<lparr>rv_x = regs, rv_mem = m\<rparr> = Some (pc, s)"
    and n: "nextValueId st + 9 * length insts < 2 ^ 64"
  shows "\<exists>block st'. liftBasicBlock order insts st = Inr (block, st') \<and>
    ir_run ok block regs m = Some (if is_ret (last insts) then 0 else pc, rv_x s, rv_mem s)"
  using b r
proof (rule block_okE)
  fix xs t s1
  assume i: "insts = xs @ [t]" and xs: "list_all body_ok xs" and s1: "rv_body ok xs \<lparr>rv_x = regs, rv_mem = m\<rparr> = Some s1"
    and t: "rv_exec ok t s1 = Some (pc, s)" and "body_ok t \<or> wf_inst t \<and> isTerminator t \<and> link_ok t"
  then consider "body_ok t" | "wf_inst t" "isTerminator t" "link_ok t" by blast
  then show ?thesis
  proof cases
    case 1
    have "\<not> is_ret t" using body_not_terminator [OF 1] by (auto simp: is_ret_def isTerminator_def)
    with liftBasicBlock_fallthrough [OF o, of "xs @ [t]" ok regs m s st] xs 1 s1 t n body_next [OF 1 t] show ?thesis
      by (simp add: i rv_body_snoc)
  next
    case 2
    from liftBasicBlock_terminated [OF o xs 2(1,2) s1 t, of st] n terminator_keeps_state [OF 2(1,2) t 2(3)]
    show ?thesis by (simp add: i)
  qed
qed

subsection \<open>Errors\<close>

lemma lift_single_total:
  assumes w: "wf_inst inst"
  shows "opcode inst \<in> supported_opcodes \<Longrightarrow> \<exists>st'. liftSingleInstruction inst st = Inr st'"
    and "opcode inst \<notin> supported_opcodes \<Longrightarrow> liftSingleInstruction inst st = Inl (unsupported inst)"
proof -
  assume "opcode inst \<in> supported_opcodes"
  then consider irop where "lift_alu (opcode inst) = Some irop"
    | t sx where "lift_load (opcode inst) = Some (t, sx)" | t where "lift_store (opcode inst) = Some t"
    | "opcode inst = rvADDW" | "opcode inst \<in> {rvADDIW, rvSLLIW}" | "opcode inst \<in> {rvLUI, rvAUIPC}"
    unfolding supported_opcodes_def by auto
  then show "\<exists>st'. liftSingleInstruction inst st = Inr st'"
  proof cases
    case (1 irop)
    with lift_alu_sound(2) [OF 1] wf_instD(1,2) [OF w] show ?thesis
      by (auto simp: lift_alu_sound(3) [OF 1] liftRTypeBinaryOp_def liftITypeBinaryOp_def Let_def split_def)
  next
    case (2 t sx)
    with lift_load_sound(1) [OF 2] wf_instD(2) [OF w] show ?thesis
      by (auto simp: lift_load_sound(2) [OF 2] liftLoadInstruction_def Let_def split_def)
  next
    case (3 t)
    with lift_store_sound(1) [OF 3] wf_instD(3) [OF w] show ?thesis
      by (auto simp: lift_store_sound(2) [OF 3] liftStoreInstruction_def Let_def split_def)
  next
    case 4
    with wf_instD(1) [OF w] show ?thesis
      by (auto simp: liftSingleInstruction_def liftWTypeBinaryOp_def Let_def split_def rv_format_of_def)
  next
    case 5
    with wf_instD(2) [OF w] show ?thesis
      by (auto simp: liftSingleInstruction_def liftWTypeImmOp_def Let_def split_def rv_format_of_def)
  next
    case 6
    with wf_instD(5) [OF w] show ?thesis
      by (auto simp: liftSingleInstruction_def Let_def split_def rv_format_of_def)
  qed
next
  assume "opcode inst \<notin> supported_opcodes"
  then show "liftSingleInstruction inst st = Inl (unsupported inst)"
    by (cases "opcode inst")
      (auto simp: liftSingleInstruction_def supported_opcodes_def lift_alu_def lift_load_def lift_store_def dom_def)
qed

lemma lift_terminator_total:
  assumes w: "wf_inst inst" and t: "isTerminator inst"
  shows "\<exists>r. liftTerminator inst ft st = Inr r"
  using t
proof (cases rule: isTerminator_cases)
  case (1 irop)
  with wf_instD(4) [OF w] lift_branch_sound(2) [OF 1] show ?thesis
    by (auto simp: lift_branch_sound(3) [OF 1] createConditionalBranch_def Let_def split_def)
next
  case 2
  with wf_instD(6) [OF w] show ?thesis
    by (auto simp: liftTerminator_def rv_format_of_def Let_def split_def)
next
  case 3
  with wf_instD(2) [OF w] show ?thesis
    by (auto simp: liftTerminator_def rv_format_of_def Let_def split_def)
qed

lemma lift_body_total:
  assumes "list_all wf_inst xs"
  shows "list_all (\<lambda>i. opcode i \<in> supported_opcodes) xs \<Longrightarrow> \<exists>st'. foldR liftSingleInstruction xs st = Inr st'"
    and "\<not> list_all (\<lambda>i. opcode i \<in> supported_opcodes) xs \<Longrightarrow>
      \<exists>i \<in> set xs. opcode i \<notin> supported_opcodes \<and> foldR liftSingleInstruction xs st = Inl (unsupported i)"
  using assms
proof (induction xs arbitrary: st)
  case Nil
  {
    case 1
    then show ?case by simp
  next
    case 2
    then show ?case by simp
  }
next
  case (Cons x xs)
  {
    case 1
    with lift_single_total(1) [of x st] obtain st1 where "liftSingleInstruction x st = Inr st1" by auto
    with 1 Cons.IH(1) [of st1] show ?case by simp
  next
    case 2
    show ?case
    proof (cases "opcode x \<in> supported_opcodes")
      case True
      with 2 lift_single_total(1) [of x st] obtain st1 where "liftSingleInstruction x st = Inr st1" by auto
      with True 2 Cons.IH(2) [of st1] show ?thesis by auto
    next
      case False
      with 2 lift_single_total(2) [of x st] show ?thesis by auto
    qed
  }
qed

definition block_shaped :: "rv_instruction list \<Rightarrow> bool" where
  "block_shaped insts \<longleftrightarrow> list_all wf_inst insts \<and> list_all (\<lambda>i. \<not> isTerminator i) (butlast insts)"

lemma liftBasicBlock_outcome:
  assumes "block_shaped insts"
  shows "(\<exists>r. liftBasicBlock order insts st = Inr r) \<and> list_all (\<lambda>i. isTerminator i \<or> opcode i \<in> supported_opcodes) insts \<or>
    (\<exists>i \<in> set insts. \<not> isTerminator i \<and> opcode i \<notin> supported_opcodes \<and> liftBasicBlock order insts st = Inl (unsupported i))"
proof (cases "insts \<noteq> [] \<and> isTerminator (last insts)")
  case True
  define xs t where "xs = butlast insts" and "t = last insts"
  with True have i: "insts = xs @ [t]" and t: "isTerminator t" by auto
  from assms have w: "list_all wf_inst xs" "wf_inst t" and n: "list_all (\<lambda>i. \<not> isTerminator i) xs"
    by (auto simp: block_shaped_def i)
  let ?st = "st\<lparr>currentInstructions := [], cachedRegisterValues := Map.empty, modifiedRegisters := []\<rparr>"
  note loop = liftLoop_body [OF n, of order "[t]" ?st]
  show ?thesis
  proof (cases "list_all (\<lambda>i. opcode i \<in> supported_opcodes) xs")
    case True
    with lift_body_total(1) [OF w(1), of ?st] obtain st' where f: "foldR liftSingleInstruction xs ?st = Inr st'" by auto
    from lift_terminator_total [OF w(2) t] obtain r where
      "liftTerminator t (address t + 4) (finalizeRegisterWrites order st') = Inr r" by blast
    with f t loop True show ?thesis
      by (auto simp: i liftBasicBlock_def Let_def split_def list_all_iff)
  next
    case False
    from lift_body_total(2) [OF w(1) False, of ?st] loop t n show ?thesis
      by (auto simp: i liftBasicBlock_def Let_def split_def list_all_iff)
  qed
next
  case False
  with assms have n: "list_all (\<lambda>i. \<not> isTerminator i) insts" and w: "list_all wf_inst insts"
    by (cases insts rule: rev_cases; auto simp: block_shaped_def)+
  let ?st = "st\<lparr>currentInstructions := [], cachedRegisterValues := Map.empty, modifiedRegisters := []\<rparr>"
  note loop = liftLoop_body [OF n, of order "[]" ?st]
  show ?thesis
  proof (cases "list_all (\<lambda>i. opcode i \<in> supported_opcodes) insts")
    case True
    with lift_body_total(1) [OF w, of ?st] loop False show ?thesis
      by (auto simp: liftBasicBlock_def Let_def split_def list_all_iff)
  next
    case nsup: False
    from lift_body_total(2) [OF w nsup, of ?st] loop False n show ?thesis
      by (auto simp: liftBasicBlock_def Let_def split_def list_all_iff)
  qed
qed

subsection \<open>The block theorems\<close>

text \<open>
  C5: for a block of supported instructions (upper immediates zero, no return address to keep),
  whatever the iteration order of the set of modified registers, the lifter returns an IR block
  whose execution from the guest registers and memory ends with the registers, the memory and the
  next program counter of the RISC-V semantics; only for \<open>ret\<close> the next program counter is 0.
\<close>

theorem liftBasicBlock_correct:
  assumes "\<And>xs. mset (order xs) = mset xs" and "block_ok insts"
    and "rv_run ok insts \<lparr>rv_x = regs, rv_mem = m\<rparr> = Some (pc, s)"
    and "nextValueId st + 9 * length insts < 2 ^ 64"
  shows "\<exists>block st'. liftBasicBlock order insts st = Inr (block, st') \<and>
    ir_run ok block regs m = Some (if is_ret (last insts) then 0 else pc, rv_x s, rv_mem s)"
  using assms by (rule liftBasicBlock_sim)

theorem liftBasicBlock_correct_witness:
  "\<exists>block st'. liftBasicBlock rev
       [\<lparr>opcode = rvADDI, operands = [RvRegister 7, RvRegister 7, RvImmediate 1], rawInstruction = 0, address = 0x1000\<rparr>,
        \<lparr>opcode = rvBNE, operands = [RvRegister 7, RvRegister 6, RvImmediate (- 4)], rawInstruction = 0, address = 0x1004\<rparr>]
       Lifter_init = Inr (block, st') \<and>
     ir_run (\<lambda>_ _. True) block (\<lambda>_. 3) (\<lambda>_. 0) = Some (0x1000, (\<lambda>_. 3)(7 := 4), \<lambda>_. 0)"
proof -
  let ?insts = "[\<lparr>opcode = rvADDI, operands = [RvRegister 7, RvRegister 7, RvImmediate 1], rawInstruction = 0, address = 0x1000\<rparr>,
        \<lparr>opcode = rvBNE, operands = [RvRegister 7, RvRegister 6, RvImmediate (- 4)], rawInstruction = 0, address = 0x1004\<rparr>]"
  have b: "block_ok ?insts"
    by (simp add: block_ok_def body_ok_def wf_inst_def rv_format_of_def upper_ok_def link_ok_def isTerminator_def
      supported_opcodes_def lift_alu_def)
  have r: "rv_run (\<lambda>_ _. True) ?insts \<lparr>rv_x = \<lambda>_. 3, rv_mem = \<lambda>_. 0\<rparr> =
      Some (0x1000, \<lparr>rv_x = (\<lambda>_. 3)(7 := 4), rv_mem = \<lambda>_. 0\<rparr>)"
    by (simp add: rv_exec_def rv_load_kind_def rv_store_width_def rv_cond_def rv_alu_def rv_set_def rv_get_def)
  have n: "nextValueId Lifter_init + 9 * length ?insts < 2 ^ 64" by (simp add: Lifter_init_def)
  show ?thesis using liftBasicBlock_correct [OF mset_rev b r n] by (simp add: is_ret_def)
qed

text \<open>
  C21: a block of well-formed instructions with no terminator before its end is lifted exactly when
  each of its instructions is a terminator or of a supported opcode; otherwise the lifter throws
  \<open>UnsupportedInstructionError\<close> for an unsupported instruction of the block, and nothing else.
\<close>

theorem liftBasicBlock_errors:
  assumes "block_shaped insts"
  shows "(\<exists>r. liftBasicBlock order insts st = Inr r) \<and> list_all (\<lambda>i. isTerminator i \<or> opcode i \<in> supported_opcodes) insts \<or>
    (\<exists>i \<in> set insts. \<not> isTerminator i \<and> opcode i \<notin> supported_opcodes \<and> liftBasicBlock order insts st = Inl (unsupported i))"
  using assms by (rule liftBasicBlock_outcome)

theorem liftBasicBlock_errors_witness:
  "liftBasicBlock id
     [\<lparr>opcode = rvSB, operands = [RvRegister 7, RvRegister 7, RvImmediate 1], rawInstruction = 0, address = 0x1000\<rparr>]
     Lifter_init =
   Inl (unsupported \<lparr>opcode = rvSB, operands = [RvRegister 7, RvRegister 7, RvImmediate 1], rawInstruction = 0, address = 0x1000\<rparr>)"
proof -
  let ?i = "\<lparr>opcode = rvSB, operands = [RvRegister 7, RvRegister 7, RvImmediate 1], rawInstruction = 0, address = 0x1000\<rparr>"
  have b: "block_shaped [?i]"
    by (simp add: block_shaped_def wf_inst_def rv_format_of_def)
  have u: "rvSB \<notin> supported_opcodes"
    by (simp add: supported_opcodes_def lift_alu_def lift_load_def lift_store_def dom_def)
  from liftBasicBlock_errors [OF b, of id Lifter_init] u show ?thesis
    by (auto simp: isTerminator_def)
qed

text \<open>
  C33: the lifter loses the return address of a call: after a block that ends with JAL or JALR and
  links into \<open>rd\<close>, the RISC-V semantics has the address of the next instruction in \<open>rd\<close>, and the
  lifted block leaves in \<open>rd\<close> what was there before the jump (the write-back runs before the
  terminator is lifted).
\<close>

theorem liftBasicBlock_loses_link:
  assumes "\<And>xs. mset (order xs) = mset xs" and "list_all body_ok xs"
    and "wf_inst t" and "opcode t \<in> {rvJAL, rvJALR}" and "getRegister t 0 = Inr rd" and "rd \<noteq> 0"
    and "rv_body ok xs \<lparr>rv_x = regs, rv_mem = m\<rparr> = Some s" and "rv_exec ok t s = Some (pc, s')"
    and "nextValueId st + 9 * length xs + 6 < 2 ^ 64"
  shows "rv_x s' rd = address t + 4 \<and>
    (\<exists>block st' pc' regs' m'. liftBasicBlock order (xs @ [t]) st = Inr (block, st') \<and>
       ir_run ok block regs m = Some (pc', regs', m') \<and> regs' rd = rv_x s rd)"
proof -
  have t: "isTerminator t" using assms(4) by (auto simp: isTerminator_def)
  have "rv_x s' rd = address t + 4"
    using terminator_effect [OF assms(3) t assms(8)] assms(4-6) by (simp add: rv_set_def)
  with liftBasicBlock_terminated [OF assms(1-3) t assms(7-9)] show ?thesis by blast
qed

theorem liftBasicBlock_loses_link_witness:
  "\<exists>block st' pc' regs' m'. liftBasicBlock id
     [\<lparr>opcode = rvJAL, operands = [RvRegister 1, RvImmediate 64], rawInstruction = 0, address = 0x1000\<rparr>]
     Lifter_init = Inr (block, st') \<and>
   ir_run (\<lambda>_ _. True) block (\<lambda>_. 7) (\<lambda>_. 0) = Some (pc', regs', m') \<and> regs' 1 = 7"
proof -
  let ?t = "\<lparr>opcode = rvJAL, operands = [RvRegister 1, RvImmediate 64], rawInstruction = 0, address = 0x1000\<rparr>"
  have w: "wf_inst ?t" by (simp add: wf_inst_def rv_format_of_def)
  have e: "rv_exec (\<lambda>_ _. True) ?t \<lparr>rv_x = \<lambda>_. 7, rv_mem = \<lambda>_. 0\<rparr> =
      Some (0x1040, \<lparr>rv_x = (\<lambda>_. 7)(1 := 0x1004), rv_mem = \<lambda>_. 0\<rparr>)"
    by (simp add: rv_exec_def rv_set_def)
  show ?thesis
    using liftBasicBlock_loses_link [of id "[]" ?t 1 "\<lambda>_ _. True" "\<lambda>_. 7" "\<lambda>_. 0" "\<lparr>rv_x = \<lambda>_. 7, rv_mem = \<lambda>_. 0\<rparr>"
        "0x1040" "\<lparr>rv_x = (\<lambda>_. 7)(1 := 0x1004), rv_mem = \<lambda>_. 0\<rparr>" Lifter_init] w e
    by (simp add: Lifter_init_def)
qed

text \<open>
  C34: LUI shifts its immediate twice: the decoder's operand is already the upper immediate in its
  place, the RISC-V semantics writes it to \<open>rd\<close>, and the lifted block writes it shifted left by
  another 12 bits.
\<close>

theorem lui_shifted_twice:
  assumes "\<And>xs. mset (order xs) = mset xs" and "rd \<noteq> 0"
  shows "rv_exec ok \<lparr>opcode = rvLUI, operands = [RvRegister rd, RvImmediate i], rawInstruction = w, address = a\<rparr>
       \<lparr>rv_x = regs, rv_mem = m\<rparr> = Some (a + 4, \<lparr>rv_x = regs(rd := i), rv_mem = m\<rparr>) \<and>
    (\<exists>block st'. liftBasicBlock order
       [\<lparr>opcode = rvLUI, operands = [RvRegister rd, RvImmediate i], rawInstruction = w, address = a\<rparr>] Lifter_init =
         Inr (block, st') \<and>
       ir_run ok block regs m = Some (a + 4, regs(rd := push_bit 12 i), m))"
proof -
  let ?t = "\<lparr>opcode = rvLUI, operands = [RvRegister rd, RvImmediate i], rawInstruction = w, address = a\<rparr>"
  let ?init = "\<lparr>ir_env = Map.empty, ir_regs = regs, ir_mem = m\<rparr>"
  let ?s = "\<lparr>rv_x = regs, rv_mem = m\<rparr>"
  have n: "\<not> isTerminator ?t" by (simp add: isTerminator_def)
  have "sim ok ?init regs (1 + 8) ?s [] (Lifter_init\<lparr>currentInstructions := [], cachedRegisterValues := Map.empty, modifiedRegisters := []\<rparr>)"
    by (rule sim_init [OF refl]) (simp_all add: Lifter_init_def)
  then have "sim ok ?init regs (1 + 8) ?s [] Lifter_init" by (simp add: Lifter_init_def)
  from lift_upper(1) [OF _ this, of ?t rd i] obtain st' where l: "liftSingleInstruction ?t Lifter_init = Inr st'"
    and s: "sim ok ?init regs 1 (rv_set rd (push_bit 12 i) ?s) [] st'" by auto
  from modified_single [OF l] s have "sim ok ?init regs (0 + length (modifiedRegisters st')) (rv_set rd (push_bit 12 i) ?s) [] st'"
    by (auto simp: Lifter_init_def elim: sim_forget)
  from finalize_sim [OF assms(1) this]
  have "gives_next ok ?init (rv_set rd (push_bit 12 i) ?s) (a + 4) (Branch (a + 4)) (finalizeRegisterWrites order st')"
    by (rule gives_nextI) simp
  from gives_next_run [OF this] l n assms(2) show ?thesis
    by (simp add: rv_exec_def rv_set_def liftBasicBlock_def Let_def Lifter_init_def)
qed

theorem lui_shifted_twice_witness:
  "\<exists>block st'. liftBasicBlock id
     [\<lparr>opcode = rvLUI, operands = [RvRegister 5, RvImmediate 0x12345000], rawInstruction = 0, address = 0x1000\<rparr>] Lifter_init =
       Inr (block, st') \<and>
   ir_run (\<lambda>_ _. True) block (\<lambda>_. 0) (\<lambda>_. 0) = Some (0x1004, (\<lambda>_. 0)(5 := 0x12345000000), \<lambda>_. 0)"
proof -
  have p: "push_bit 12 (0x12345000 :: u64) = 0x12345000000" by code_simp
  show ?thesis
    using lui_shifted_twice [of id 5 "\<lambda>_ _. True" "0x12345000" 0 "0x1000" "\<lambda>_. 0" "\<lambda>_. 0"] by (simp add: p)
qed

end
