(* ===== verification/LifterShape.thy ===== *)
theory LifterShape
  imports LifterCorrect SelectorCorrect
begin

text \<open>
  The form of lifted IR: the value numbers count from 1, every instruction is one the selector
  handles (registers below 32, word constants in range), the arithmetic operations are among a set
  \<open>S\<close> the block's opcodes allow, and an instruction of the guest gives at most nine of them.
\<close>

definition ir_ok :: "binary_opcode set \<Rightarrow> ir_kind \<Rightarrow> bool" where
  "ir_ok S k \<longleftrightarrow> selectable k \<and> (case k of BinaryOp opc t l r \<Rightarrow> opc \<in> S | _ \<Rightarrow> True)"

definition shaped :: "binary_opcode set \<Rightarrow> lifter \<Rightarrow> bool" where
  "shaped S st \<longleftrightarrow>
     map ir_valueId (currentInstructions st) = map (\<lambda>i. Suc i mod 2 ^ 64) [0..<length (currentInstructions st)] \<and>
     nextValueId st = Suc (length (currentInstructions st)) mod 2 ^ 64 \<and>
     list_all (\<lambda>i. ir_ok S (ir_kind i)) (currentInstructions st) \<and> (\<forall>r \<in> set (modifiedRegisters st). r < 32)"

definition emits :: "binary_opcode set \<Rightarrow> nat \<Rightarrow> lifter \<Rightarrow> lifter \<Rightarrow> bool" where
  "emits S k st st' \<longleftrightarrow>
     (shaped S st \<longrightarrow> shaped S st' \<and> length (currentInstructions st') \<le> length (currentInstructions st) + k)"

lemma emits_refl: "emits S 0 st st"
  by (simp add: emits_def)

lemma emits_mono: "emits S k st st' \<Longrightarrow> k \<le> m \<Longrightarrow> emits S m st st'"
  by (auto simp: emits_def)

lemma emits_trans: "emits S k a b \<Longrightarrow> emits S m b c \<Longrightarrow> emits S (k + m) a c"
  by (auto simp: emits_def)

lemma emits_add: "emits S k a b \<Longrightarrow> ir_ok S kind \<Longrightarrow> emits S (Suc k) a (snd (addInstruction kind b))"
  by (auto simp: emits_def shaped_def addInstruction_def Let_def mod_Suc_eq)

lemma emits_cached: "emits S k a (b\<lparr>cachedRegisterValues := c\<rparr>) = emits S k a b"
  by (simp add: emits_def shaped_def)

lemma emits_create:
  assumes "emits S k a b"
  shows "ir_ok S (Const t c) \<Longrightarrow> emits S (Suc k) a (snd (createConstant t c b))"
    and "ir_ok S (BinaryOp opc t v w) \<Longrightarrow> emits S (Suc k) a (snd (createBinaryOp opc t v w b))"
    and "ir_ok S (Load t v) \<Longrightarrow> emits S (Suc k) a (snd (createLoad t v b))"
    and "emits S (Suc k) a (snd (createStore v w b))"
    and "ir_ok S (Sext t v) \<Longrightarrow> emits S (Suc k) a (snd (createSext t v b))"
    and "ir_ok S (Zext t v) \<Longrightarrow> emits S (Suc k) a (snd (createZext t v b))"
    and "ir_ok S (Trunc t v) \<Longrightarrow> emits S (Suc k) a (snd (createTrunc t v b))"
  using emits_add [OF assms]
  by (simp_all add: createConstant_def createBinaryOp_def createLoad_def createStore_def createSext_def createZext_def
      createTrunc_def ir_ok_def)

lemma emits_get: "emits S k a b \<Longrightarrow> r < 32 \<Longrightarrow> emits S (Suc k) a (snd (getRegisterValue r b))"
proof -
  assume e: "emits S k a b" and r: "r < 32"
  have c: "emits S (Suc k) a (snd (createConstant i64 0 b))" by (rule emits_create(1) [OF e]) (simp add: ir_ok_def const_fits_def)
  have g: "emits S (Suc k) a (snd (addInstruction (RegRead r) b))" by (rule emits_add [OF e]) (use r in \<open>simp add: ir_ok_def\<close>)
  have "emits S (Suc k) a b" by (rule emits_mono [OF e]) simp
  with c g show ?thesis by (simp add: getRegisterValue_def split_def Let_def emits_cached split: option.split)
qed

lemma emits_set: "emits S k a b \<Longrightarrow> r < 32 \<Longrightarrow> emits S k a (setRegisterValue r v b)"
  by (auto simp: emits_def shaped_def setRegisterValue_def)

text \<open>The same rules with the budget counted down.\<close>

lemma emits_rules:
  "emits S m st st"
  "emits S (m - 1) a b \<Longrightarrow> 0 < m \<Longrightarrow> ir_ok S (Const t c) \<Longrightarrow> emits S m a (snd (createConstant t c b))"
  "emits S (m - 1) a b \<Longrightarrow> 0 < m \<Longrightarrow> ir_ok S (BinaryOp opc t v w) \<Longrightarrow> emits S m a (snd (createBinaryOp opc t v w b))"
  "emits S (m - 1) a b \<Longrightarrow> 0 < m \<Longrightarrow> ir_ok S (Load t v) \<Longrightarrow> emits S m a (snd (createLoad t v b))"
  "emits S (m - 1) a b \<Longrightarrow> 0 < m \<Longrightarrow> emits S m a (snd (createStore v w b))"
  "emits S (m - 1) a b \<Longrightarrow> 0 < m \<Longrightarrow> ir_ok S (Sext t v) \<Longrightarrow> emits S m a (snd (createSext t v b))"
  "emits S (m - 1) a b \<Longrightarrow> 0 < m \<Longrightarrow> ir_ok S (Zext t v) \<Longrightarrow> emits S m a (snd (createZext t v b))"
  "emits S (m - 1) a b \<Longrightarrow> 0 < m \<Longrightarrow> ir_ok S (Trunc t v) \<Longrightarrow> emits S m a (snd (createTrunc t v b))"
  "emits S (m - 1) a b \<Longrightarrow> 0 < m \<Longrightarrow> r < 32 \<Longrightarrow> emits S m a (snd (getRegisterValue r b))"
  "emits S m a b \<Longrightarrow> r < 32 \<Longrightarrow> emits S m a (setRegisterValue r x b)"
  by (rule emits_mono [OF emits_refl le0]) (cases m; simp add: emits_create emits_get emits_set)+

lemma const_fits_64 [simp]: "const_fits i64 v"
  by (simp add: const_fits_def)

subsection \<open>Instruction patterns\<close>

lemma pattern_shape:
  shows "liftRTypeBinaryOp inst opc i64 st = Inr st' \<Longrightarrow> operands inst = [RvRegister rd, RvRegister r1, RvRegister r2] \<Longrightarrow>
      rd < 32 \<Longrightarrow> r1 < 32 \<Longrightarrow> r2 < 32 \<Longrightarrow> opc \<in> S \<Longrightarrow> emits S 8 st st'"
    and "liftITypeBinaryOp inst opc i64 st = Inr st' \<Longrightarrow> operands inst = [RvRegister rd, RvRegister r1, RvImmediate i] \<Longrightarrow>
      rd < 32 \<Longrightarrow> r1 < 32 \<Longrightarrow> opc \<in> S \<Longrightarrow> emits S 8 st st'"
    and "liftWTypeBinaryOp inst opc st = Inr st' \<Longrightarrow> operands inst = [RvRegister rd, RvRegister r1, RvRegister r2] \<Longrightarrow>
      rd < 32 \<Longrightarrow> r1 < 32 \<Longrightarrow> r2 < 32 \<Longrightarrow> opc \<in> S \<Longrightarrow> emits S 8 st st'"
    and "liftWTypeImmOp inst opc st = Inr st' \<Longrightarrow> operands inst = [RvRegister rd, RvRegister r1, RvImmediate i] \<Longrightarrow>
      rd < 32 \<Longrightarrow> r1 < 32 \<Longrightarrow> - 2048 \<le> sint i \<Longrightarrow> sint i < 2048 \<Longrightarrow> opc \<in> S \<Longrightarrow> emits S 8 st st'"
    and "liftLoadInstruction inst t sx st = Inr st' \<Longrightarrow> operands inst = [RvRegister rd, RvRegister r1, RvImmediate i] \<Longrightarrow>
      rd < 32 \<Longrightarrow> r1 < 32 \<Longrightarrow> t \<noteq> i1 \<Longrightarrow> irAdd \<in> S \<Longrightarrow> emits S 8 st st'"
    and "liftStoreInstruction inst t st = Inr st' \<Longrightarrow> operands inst = [RvRegister r1, RvRegister r2, RvImmediate i] \<Longrightarrow>
      r1 < 32 \<Longrightarrow> r2 < 32 \<Longrightarrow> t \<noteq> i1 \<Longrightarrow> irAdd \<in> S \<Longrightarrow> emits S 8 st st'"
  by (auto simp: liftRTypeBinaryOp_def liftITypeBinaryOp_def liftWTypeBinaryOp_def liftWTypeImmOp_def
        liftLoadInstruction_def liftStoreInstruction_def Let_def split_def ir_ok_def const_fits_def
        intro!: emits_rules)+


text \<open>The arithmetic operations lifting an instruction can give.\<close>

definition ops_within :: "binary_opcode set \<Rightarrow> rv_instruction \<Rightarrow> bool" where
  "ops_within S inst \<longleftrightarrow> (\<forall>irop. lift_alu (opcode inst) = Some irop \<longrightarrow> irop \<in> S)"

definition base_ops :: "binary_opcode set" where
  "base_ops = {irAdd, irAnd, irShl, irEq, irNe, irLt, irGe, irLtU, irGeU}"

lemma wf_inst_ranges:
  assumes "wf_inst inst"
  shows "rv_format_of (opcode inst) = Some FmtR \<Longrightarrow> \<exists>rd r1 r2. operands inst = [RvRegister rd, RvRegister r1, RvRegister r2] \<and> rd < 32 \<and> r1 < 32 \<and> r2 < 32"
    and "rv_format_of (opcode inst) = Some FmtI \<Longrightarrow> \<exists>rd r1 i. operands inst = [RvRegister rd, RvRegister r1, RvImmediate i] \<and> rd < 32 \<and> r1 < 32 \<and> - 2048 \<le> sint i \<and> sint i < 2048"
    and "rv_format_of (opcode inst) = Some FmtS \<Longrightarrow> \<exists>r1 r2 i. operands inst = [RvRegister r1, RvRegister r2, RvImmediate i] \<and> r1 < 32 \<and> r2 < 32"
    and "rv_format_of (opcode inst) = Some FmtB \<Longrightarrow> \<exists>r1 r2 i. operands inst = [RvRegister r1, RvRegister r2, RvImmediate i] \<and> r1 < 32 \<and> r2 < 32"
    and "rv_format_of (opcode inst) = Some FmtU \<Longrightarrow> \<exists>rd i. operands inst = [RvRegister rd, RvImmediate i] \<and> rd < 32"
    and "rv_format_of (opcode inst) = Some FmtJ \<Longrightarrow> \<exists>rd i. operands inst = [RvRegister rd, RvImmediate i] \<and> rd < 32"
  using assms by (auto simp: wf_inst_def elim: wf_operands.elims)

lemma liftSingle_shape:
  assumes l: "liftSingleInstruction inst st = Inr st'" and w: "wf_inst inst" and "opcode inst \<in> supported_opcodes"
    and S: "ops_within S inst" "base_ops \<subseteq> S"
  shows "emits S 8 st st'"
proof -
  have S': "irAdd \<in> S" "irShl \<in> S" using S(2) by (auto simp: base_ops_def)
  from assms(3) consider irop where "lift_alu (opcode inst) = Some irop"
    | t sx where "lift_load (opcode inst) = Some (t, sx)" | t where "lift_store (opcode inst) = Some t"
    | "opcode inst = rvADDW" | "opcode inst \<in> {rvADDIW, rvSLLIW}" | "opcode inst \<in> {rvLUI, rvAUIPC}"
    by (auto simp: supported_opcodes_def)
  then show ?thesis
  proof cases
    case (1 irop)
    note snd = lift_alu_sound(2,3) [OF 1]
    have "irop \<in> S" using S(1) 1 by (simp add: ops_within_def)
    with snd(1) snd(2) [OF refl, of st] l wf_inst_ranges(1,2) [OF w] pattern_shape(1,2) show ?thesis
      by (auto split: if_splits)
  next
    case (2 t sx)
    with lift_load_sound [OF 2] l wf_inst_ranges(2) [OF w] pattern_shape(5) S' show ?thesis by auto
  next
    case (3 t)
    with lift_store_sound [OF 3] l wf_inst_ranges(3) [OF w] pattern_shape(6) S' show ?thesis by auto
  next
    case 4
    with l wf_inst_ranges(1) [OF w] pattern_shape(3) [of inst irAdd] S' show ?thesis
      by (auto simp: liftSingleInstruction_def rv_format_of_def)
  next
    case 5
    with l wf_inst_ranges(2) [OF w] pattern_shape(4) [of inst irAdd] pattern_shape(4) [of inst irShl] S' show ?thesis
      by (auto simp: liftSingleInstruction_def rv_format_of_def)
  next
    case 6
    with wf_inst_ranges(5) [OF w] obtain rd i where "operands inst = [RvRegister rd, RvImmediate i]" "rd < 32"
      by (auto simp: rv_format_of_def)
    with 6 l S' show ?thesis
      by (auto simp: liftSingleInstruction_def Let_def split_def ir_ok_def intro!: emits_rules)
  qed
qed

lemma liftBody_shape:
  assumes "foldR liftSingleInstruction xs st = Inr st'" and "list_all body_ok xs" and "list_all (ops_within S) xs" and "base_ops \<subseteq> S"
  shows "emits S (8 * length xs) st st'"
  using assms
proof (induction xs arbitrary: st)
  case Nil
  then show ?case by (simp add: emits_refl)
next
  case (Cons x xs)
  from Cons.prems(1) obtain st1 where 1: "liftSingleInstruction x st = Inr st1" "foldR liftSingleInstruction xs st1 = Inr st'"
    by (auto simp: bindR_Inr_iff)
  have "emits S 8 st st1" using liftSingle_shape [OF 1(1)] Cons.prems by (auto simp: body_ok_def)
  moreover have "emits S (8 * length xs) st1 st'" using Cons.IH [OF 1(2)] Cons.prems by simp
  ultimately show ?case using emits_trans by fastforce
qed

lemma finalize_shape:
  assumes "\<And>xs. mset (order xs) = mset xs"
  shows "emits S (length (modifiedRegisters st)) st (finalizeRegisterWrites order st)"
proof -
  have "emits S (length rs) st (fold finalizeRegisterWrite rs st)" if "\<forall>r \<in> set rs. r < 32" for rs
    using that
  proof (induction rs arbitrary: st)
    case Nil
    then show ?case by (simp add: emits_refl)
  next
    case (Cons r rs)
    have "emits S 1 st (finalizeRegisterWrite r st)"
      unfolding finalizeRegisterWrite_def Let_def One_nat_def
      by (rule emits_add) (use Cons.prems in \<open>simp_all add: emits_cached emits_refl ir_ok_def\<close>)
    from emits_trans [OF this Cons.IH] Cons.prems show ?case by simp
  qed
  moreover have "set (order (modifiedRegisters st)) = set (modifiedRegisters st)"
    "length (order (modifiedRegisters st)) = length (modifiedRegisters st)"
    using assms mset_eq_setD mset_eq_length by blast+
  moreover have "\<forall>r \<in> set (modifiedRegisters st). r < 32" if "shaped S st" using that by (simp add: shaped_def)
  ultimately have "shaped S st \<Longrightarrow> emits S (length (modifiedRegisters st)) st (finalizeRegisterWrites order st)"
    by (metis finalizeRegisterWrites_def)
  then show ?thesis by (auto simp: emits_def)
qed

lemma liftTerminator_shape:
  assumes l: "liftTerminator inst ft st = Inr (trm, st')" and w: "wf_inst inst" and t: "isTerminator inst" and S: "base_ops \<subseteq> S"
  shows "emits S 6 st st'"
proof -
  have S': "irAdd \<in> S" "irAnd \<in> S" using S by (auto simp: base_ops_def)
  show ?thesis
    using t
  proof (cases rule: isTerminator_cases)
    case (1 irop)
    from lift_branch_sound(2) [OF 1] wf_inst_ranges(4) [OF w] obtain r1 r2 i where
      ops: "operands inst = [RvRegister r1, RvRegister r2, RvImmediate i]" "r1 < 32" "r2 < 32" by blast
    have "irop \<in> S" "comparisonCondition irop \<noteq> None"
      using map_of_SomeD [OF 1 [unfolded lift_branch_def]] S by (auto simp: base_ops_def comparisonCondition_def)
    with lift_branch_sound(3) [OF 1 refl, of ft st] l ops show ?thesis
      by (auto simp: createConditionalBranch_def Let_def split_def ir_ok_def intro!: emits_rules)
  next
    case 2
    with wf_inst_ranges(6) [OF w] obtain rd i where "operands inst = [RvRegister rd, RvImmediate i]" "rd < 32"
      by (auto simp: rv_format_of_def)
    with 2 l show ?thesis by (auto simp: liftTerminator_def Let_def split_def ir_ok_def intro!: emits_rules)
  next
    case 3
    with wf_inst_ranges(2) [OF w] obtain rd r1 i where "operands inst = [RvRegister rd, RvRegister r1, RvImmediate i]" "rd < 32" "r1 < 32"
      by (auto simp: rv_format_of_def)
    with 3 l S' show ?thesis
      by (auto simp: liftTerminator_def Let_def split_def ir_ok_def intro!: emits_rules split: if_splits)
  qed
qed


subsection \<open>A block\<close>

lemma body_finalize_shape:
  assumes "\<And>xs. mset (order xs) = mset xs" and "list_all body_ok xs" and "list_all (ops_within S) xs" and "base_ops \<subseteq> S"
    and "foldR liftSingleInstruction xs st = Inr st'" and "modifiedRegisters st = []"
  shows "emits S (9 * length xs) st (finalizeRegisterWrites order st')"
proof -
  have "length (modifiedRegisters st') \<le> length xs" using modified_body [OF assms(5)] assms(6) by simp
  then show ?thesis
    by (intro emits_mono [OF emits_trans [OF liftBody_shape [OF assms(5,2-4)] finalize_shape [OF assms(1)]]]) simp
qed

lemma liftBasicBlock_shape:
  assumes o: "\<And>xs. mset (order xs) = mset xs" and b: "block_ok insts" and S: "list_all (ops_within S) insts" "base_ops \<subseteq> S"
    and l: "liftBasicBlock order insts Lifter_init = Inr (block, st')"
  shows "map ir_valueId (instructions block) = map (\<lambda>i. Suc i mod 2 ^ 64) [0..<length (instructions block)]"
    and "list_all (\<lambda>i. ir_ok S (ir_kind i)) (instructions block)"
    and "length (instructions block) \<le> 9 * length insts"
proof -
  let ?st = "Lifter_init\<lparr>currentInstructions := [], cachedRegisterValues := Map.empty, modifiedRegisters := []\<rparr>"
  define xs t where "xs = butlast insts" and "t = last insts"
  with b have i: "insts = xs @ [t]" and xs: "list_all body_ok xs"
    and t: "body_ok t \<or> wf_inst t \<and> isTerminator t" by (auto simp: block_ok_def)
  have Sx: "list_all (ops_within S) xs" "ops_within S t" using S(1) by (simp_all add: i)
  have "\<exists>st1. emits S (9 * length insts) ?st st1 \<and> instructions block = currentInstructions st1"
  proof (cases "isTerminator t")
    case True
    then have w: "wf_inst t" using t body_not_terminator by blast
    from l True liftLoop_body [OF body_ok_list [OF xs], of order "[t]" ?st] obtain st1 trm st2 where
      f: "foldR liftSingleInstruction xs ?st = Inr st1"
      and tr: "liftTerminator t (address t + 4) (finalizeRegisterWrites order st1) = Inr (trm, st2)"
      and bl: "instructions block = currentInstructions st2"
      by (auto simp: liftBasicBlock_def i Let_def bindR_Inr_iff)
    have "emits S (9 * length xs + 6) ?st st2"
      using body_finalize_shape [OF o xs Sx(1) S(2) f] liftTerminator_shape [OF tr w True S(2)] by (simp add: emits_trans)
    then have "emits S (9 * length insts) ?st st2" by (rule emits_mono) (simp add: i)
    with bl show ?thesis by blast
  next
    case False
    then have bt: "list_all body_ok insts" using t xs by (simp add: i)
    from l False liftLoop_body [OF body_ok_list [OF bt], of order "[]" ?st] obtain st1 where
      f: "foldR liftSingleInstruction insts ?st = Inr st1"
      and bl: "instructions block = currentInstructions (finalizeRegisterWrites order st1)"
      by (auto simp: liftBasicBlock_def i Let_def bindR_Inr_iff)
    from body_finalize_shape [OF o bt S f] bl show ?thesis by auto
  qed
  moreover have "shaped S ?st" by (simp add: shaped_def Lifter_init_def)
  ultimately obtain st1 where "shaped S st1" "length (currentInstructions st1) \<le> 9 * length insts"
    "instructions block = currentInstructions st1" by (auto simp: emits_def)
  then show "map ir_valueId (instructions block) = map (\<lambda>i. Suc i mod 2 ^ 64) [0..<length (instructions block)]"
    "list_all (\<lambda>i. ir_ok S (ir_kind i)) (instructions block)" "length (instructions block) \<le> 9 * length insts"
    by (simp_all add: shaped_def)
qed

lemma distinct_value_ids:
  assumes "map ir_valueId insts = map (\<lambda>i. Suc i mod 2 ^ 64) [0..<length insts]" and "length insts < 2 ^ 64 - 1"
  shows "distinct (map ir_valueId insts)"
proof -
  have "map (\<lambda>i. Suc i mod 2 ^ 64) [0..<length insts] = map Suc [0..<length insts]"
    using assms(2) by (intro map_cong) auto
  then show ?thesis by (simp only: assms(1)) (simp add: distinct_map)
qed

end
