(* ===== verification/ELFReader.thy ===== *)
theory ELFReader
  imports Errors
begin

text \<open>
  \<open>lib/ELFReader.cpp\<close>: validation of the guest binary and extraction of its text section and
  symbols. The ELFIO library that parses the file is not part of the sources: what it returns for
  a path is the parameter \<open>elfio_load\<close>, \<open>None\<close> when \<open>load\<close> fails, otherwise the parts of the file
  the code asks for. \<open>get_symbol\<close> fails on an index the section has no symbol for: such an entry is
  \<open>None\<close>.
\<close>

record elf_symbol =
  sym_name :: string
  sym_value :: u64
  sym_size :: u64
  sym_bind :: u8
  sym_type :: u8
  sym_section :: u16
  sym_other :: u8

record elf_section =
  sec_name :: string
  sec_type :: nat
  sec_flags :: nat
  sec_address :: u64
  sec_data :: "u8 list option"
  sec_symbols :: "elf_symbol option list"

record elf_file =
  elf_class :: nat
  elf_machine :: nat
  elf_type :: nat
  elf_entry :: u64
  elf_sections :: "elf_section list"

record text_section =
  virtualAddress :: u64
  text_data :: "u8 list"

record elf_reader =
  reader :: "elf_file option"
  entryPoint :: u64
  textSection :: text_section

text \<open>The constants of the ELF format the code names.\<close>

definition ELFCLASS64 :: nat where "ELFCLASS64 = 2"

definition EM_RISCV :: nat where "EM_RISCV = 243"

definition ET_EXEC :: nat where "ET_EXEC = 2"

definition SHF_EXECINSTR :: nat where "SHF_EXECINSTR = 4"

definition SHT_SYMTAB :: nat where "SHT_SYMTAB = 2"

definition SHT_DYNSYM :: nat where "SHT_DYNSYM = 11"

definition ELFReader_init :: elf_reader where
  "ELFReader_init = \<lparr> reader = None, entryPoint = 0, textSection = \<lparr> virtualAddress = 0, text_data = [] \<rparr> \<rparr>"

definition loadFile :: "(string \<Rightarrow> elf_file option) \<Rightarrow> string \<Rightarrow> elf_reader \<Rightarrow> elf_reader result" where
  "loadFile elfio_load filePath st =
     (case elfio_load filePath of
        None \<Rightarrow> Inl (ELFError (''Failed to load ELF file: '' @ filePath))
      | Some f \<Rightarrow>
          if elf_class f \<noteq> ELFCLASS64 then Inl (ELFError ''Not a 64-bit ELF file'')
          else if elf_machine f \<noteq> EM_RISCV
          then Inl (ELFError (''Not a RISC-V ELF file (machine type: '' @ dec_string (elf_machine f) @ '')''))
          else if elf_type f \<noteq> ET_EXEC then Inl (ELFError ''Not an executable ELF file'')
          else
            (case find (\<lambda>sec. sec_name sec = ''.text'') (elf_sections f) of
               None \<Rightarrow> Inl (ELFError ''No .text section found in ELF file'')
             | Some textSec \<Rightarrow>
                 if sec_flags textSec AND SHF_EXECINSTR = 0 then Inl (ELFError ''.text section is not executable'')
                 else
                   (case sec_data textSec of
                      None \<Rightarrow> Inl (ELFError ''Failed to read .text section data'')
                    | Some d \<Rightarrow>
                        Inr (st\<lparr> reader := Some f, entryPoint := elf_entry f,
                                 textSection := \<lparr> virtualAddress = sec_address textSec, text_data = d \<rparr> \<rparr>))))"

text \<open>
  The two nested loops of \<open>getFunctionAddress\<close>: the first symbol of the name. Its type, binding and section
  are read and not looked at.
\<close>

fun findSymbol :: "string \<Rightarrow> elf_symbol option list \<Rightarrow> u64 option" where
  "findSymbol functionName [] = None"
| "findSymbol functionName (None # rest) = findSymbol functionName rest"
| "findSymbol functionName (Some symbol # rest) =
     (if sym_name symbol = functionName then Some (sym_value symbol) else findSymbol functionName rest)"

fun findInSections :: "string \<Rightarrow> elf_section list \<Rightarrow> u64 option" where
  "findInSections functionName [] = None"
| "findInSections functionName (sec # rest) =
     (if sec_type sec = SHT_SYMTAB \<or> sec_type sec = SHT_DYNSYM then
        (case findSymbol functionName (sec_symbols sec) of
           Some v \<Rightarrow> Some v
         | None \<Rightarrow> findInSections functionName rest)
      else findInSections functionName rest)"

definition getFunctionAddress :: "string \<Rightarrow> elf_reader \<Rightarrow> u64 option" where
  "getFunctionAddress functionName st =
     (case reader st of None \<Rightarrow> None | Some f \<Rightarrow> findInSections functionName (elf_sections f))"

subsection \<open>What a loaded file satisfies\<close>

lemma loadFile_Inr_iff:
  "loadFile elfio_load filePath st = Inr st' \<longleftrightarrow>
   (\<exists>f textSec d. elfio_load filePath = Some f \<and> elf_class f = ELFCLASS64 \<and> elf_machine f = EM_RISCV \<and>
      elf_type f = ET_EXEC \<and> find (\<lambda>sec. sec_name sec = ''.text'') (elf_sections f) = Some textSec \<and>
      sec_flags textSec AND SHF_EXECINSTR \<noteq> 0 \<and> sec_data textSec = Some d \<and>
      st' = st\<lparr> reader := Some f, entryPoint := elf_entry f,
                textSection := \<lparr> virtualAddress = sec_address textSec, text_data = d \<rparr> \<rparr>)"
  unfolding loadFile_def by (auto split: option.splits if_splits)

lemma loadFile_Inl: "loadFile elfio_load filePath st = Inl e \<Longrightarrow> \<exists>m. e = ELFError m"
  unfolding loadFile_def by (auto split: option.splits if_splits)

text \<open>
  The symbols of the symbol tables in the order of the file, as an association list. The nested loops
  look a name up in it.
\<close>

definition symbol_values :: "elf_symbol option list \<Rightarrow> (string \<times> u64) list" where
  "symbol_values syms = map (\<lambda>symbol. (sym_name symbol, sym_value symbol)) (List.map_filter id syms)"

definition elf_symbols :: "elf_file \<Rightarrow> (string \<times> u64) list" where
  "elf_symbols f =
     concat (map (\<lambda>sec. if sec_type sec \<in> {SHT_SYMTAB, SHT_DYNSYM} then symbol_values (sec_symbols sec) else [])
       (elf_sections f))"

lemma findSymbol_map_of: "findSymbol n syms = map_of (symbol_values syms) n"
  by (induction n syms rule: findSymbol.induct) (auto simp: symbol_values_def List.map_filter_simps)

lemma findInSections_map_of:
  "findInSections n secs =
   map_of (concat (map (\<lambda>sec. if sec_type sec \<in> {SHT_SYMTAB, SHT_DYNSYM} then symbol_values (sec_symbols sec) else []) secs)) n"
  by (induction secs) (auto simp: findSymbol_map_of map_add_def split: option.splits)

text \<open>
  C27: a file is loaded exactly when the ELF library can read it, it is a 64-bit RISC-V executable and its first
  \<open>.text\<close> section is executable and has data; then the text section is that section's address and
  bytes. In every other case \<open>ELFError\<close> is thrown, and no other exception ever is.
\<close>

theorem loadFile_outcome:
  "(\<exists>f textSec d. elfio_load filePath = Some f \<and> elf_class f = ELFCLASS64 \<and> elf_machine f = EM_RISCV \<and>
      elf_type f = ET_EXEC \<and> find (\<lambda>sec. sec_name sec = ''.text'') (elf_sections f) = Some textSec \<and>
      sec_flags textSec AND SHF_EXECINSTR \<noteq> 0 \<and> sec_data textSec = Some d \<and>
      loadFile elfio_load filePath st = Inr (st\<lparr> reader := Some f, entryPoint := elf_entry f,
                textSection := \<lparr> virtualAddress = sec_address textSec, text_data = d \<rparr> \<rparr>)) \<or>
   (\<exists>m. loadFile elfio_load filePath st = Inl (ELFError m)) \<and>
   (\<nexists>f textSec d. elfio_load filePath = Some f \<and> elf_class f = ELFCLASS64 \<and> elf_machine f = EM_RISCV \<and>
      elf_type f = ET_EXEC \<and> find (\<lambda>sec. sec_name sec = ''.text'') (elf_sections f) = Some textSec \<and>
      sec_flags textSec AND SHF_EXECINSTR \<noteq> 0 \<and> sec_data textSec = Some d)"
proof (cases "loadFile elfio_load filePath st")
  case (Inl e)
  with loadFile_Inl [OF Inl] loadFile_Inr_iff [of elfio_load filePath st] show ?thesis by auto
next
  case (Inr st')
  with loadFile_Inr_iff [of elfio_load filePath st st'] show ?thesis by auto
qed

text \<open>
  C28: the address of a function is the value of the first symbol of that name among the symbol tables of
  the loaded file, and there is none exactly when no symbol has the name.
\<close>

theorem getFunctionAddress_lookup:
  "getFunctionAddress n st = (case reader st of None \<Rightarrow> None | Some f \<Rightarrow> map_of (elf_symbols f) n)"
  by (simp add: getFunctionAddress_def findInSections_map_of elf_symbols_def split: option.splits)

end
