(* ===== verification/BinaryTranslator.thy ===== *)
theory BinaryTranslator
  imports Decoder Lifter InstructionSelector RegisterAllocator Encoder ExecutionEngine ELFReader
begin

text \<open>
  \<open>lib/BinaryTranslator.cpp\<close>: the dispatcher. The members of the class are the record \<open>translator\<close>;
  its host memory and the address of its \<open>guestState\<close> member are explicit, because the translated
  code accesses them through the pointer it is given. The record \<open>platform\<close> holds the parameters:
  the operating system and the processor (\<open>host\<close>), the ELF library, and the iteration orders of the
  hash tables of the lifter and of the liveness analysis. The progress messages on \<open>std::cout\<close> are
  not modelled.

  The text section (a vector) and the ELF reader are fields of the record beside \<open>hostMemory\<close>, although their
  bytes lie in host memory, too. The model therefore does not follow a guest store that hits them. A guest whose
  accesses stay in the shadow memory cannot: executing a block then changes no other host memory than the guest state and
  the code mapping (\<open>executeBlock_confined\<close>). A guest that stores elsewhere can, since its addresses
  are not checked (\<open>guest_store_unchecked\<close>), and theorems without the assumption on the
  accesses (\<open>TranslatorSafety\<close>) speak of such a guest only up to a store that overwrites the program's own objects.
\<close>

record platform = host +
  elfio_load :: "string \<Rightarrow> elf_file option"
  registerOrder :: "u32 list \<Rightarrow> u32 list"
  vregOrder :: "nat list \<Rightarrow> nat list"

record translator =
  elfReader :: elf_reader
  guestState :: guest_state
  guestAddress :: u64
  hostMemory :: mem
  textSectionData :: "u8 list"
  textBaseAddress :: u64

definition SHADOW_MEMORY_SIZE :: nat where "SHADOW_MEMORY_SIZE = 8 * 1024 * 1024"

definition STACK_RESERVE :: nat where "STACK_RESERVE = 1024"

definition MAX_EXECUTION_BLOCKS :: nat where "MAX_EXECUTION_BLOCKS = 10000"

subsection \<open>Construction\<close>

definition initializeTranslator :: "platform \<Rightarrow> translator \<Rightarrow> translator result" where
  "initializeTranslator p st =
     (case os_mmap p SHADOW_MEMORY_SIZE (hostMemory st) of
        None \<Rightarrow> Inl (RuntimeError ''Failed to allocate shadow memory'')
      | Some shadowMem \<Rightarrow>
          (let gs = (guestState st)\<lparr> gs_shadowMemory := shadowMem,
                      gs_shadowMemorySize := of_nat SHADOW_MEMORY_SIZE, gs_guestMemoryBase := 0 \<rparr>;
               stackTop = of_nat (SHADOW_MEMORY_SIZE - STACK_RESERVE);
               gs = gs\<lparr> gs_x := (gs_x gs)[2 := stackTop] \<rparr>
           in Inr (st\<lparr> elfReader := ELFReader_init, guestState := gs \<rparr>)))"

text \<open>The constructor; the object lies at \<open>g\<close> in the host memory \<open>m\<close>.\<close>

definition BinaryTranslator_init :: "platform \<Rightarrow> u64 \<Rightarrow> mem \<Rightarrow> translator result" where
  "BinaryTranslator_init p g m =
     initializeTranslator p
       \<lparr> elfReader = ELFReader_init, guestState = GuestState_init, guestAddress = g, hostMemory = m,
         textSectionData = [], textBaseAddress = 0 \<rparr>"

definition loadRISCVBinary :: "platform \<Rightarrow> string \<Rightarrow> translator \<Rightarrow> translator result" where
  "loadRISCVBinary p inputPath st =
     bindR (loadFile (elfio_load p) inputPath (elfReader st)) (\<lambda>rd.
       Inr (st\<lparr> elfReader := rd, textSectionData := text_data (textSection rd),
                textBaseAddress := virtualAddress (textSection rd) \<rparr>))"

subsection \<open>A block\<close>

definition isValidPC :: "translator \<Rightarrow> u64 \<Rightarrow> bool" where
  "isValidPC st pc \<longleftrightarrow>
     pc \<ge> textBaseAddress st \<and> pc < textBaseAddress st + of_nat (length (textSectionData st))"

text \<open>The decoding loop of \<open>executeBlock\<close>: up to and including the first terminator.\<close>

function decodeLoop :: "u8 list \<Rightarrow> nat \<Rightarrow> u64 \<Rightarrow> rv_instruction list result" where
  "decodeLoop data offset currentPC =
     (if offset < length data then
        bindR (decode data offset currentPC) (\<lambda>inst.
        if \<not> isValid inst
        then Inl (DecodingError (''Invalid instruction at PC=0x'' @ hex_string (unat currentPC)))
        else if isTerminator inst then Inr [inst]
        else bindR (decodeLoop data (offset + 4) (currentPC + 4)) (\<lambda>rest. Inr (inst # rest)))
      else Inr [])"
  by pat_completeness auto
termination
  by (relation "measure (\<lambda>(data, offset, _). length data - offset)") auto

declare decodeLoop.simps [simp del]

definition decodeBlock :: "translator \<Rightarrow> u64 \<Rightarrow> rv_instruction list result" where
  "decodeBlock st pc =
     (if \<not> isValidPC st pc then Inl (RuntimeError (''PC out of bounds: 0x'' @ hex_string (unat pc)))
      else
        bindR (decodeLoop (textSectionData st) (unat (pc - textBaseAddress st)) pc) (\<lambda>blockInstructions.
        if blockInstructions = []
        then Inl (RuntimeError (''No instructions decoded for block at PC=0x'' @ hex_string (unat pc)))
        else Inr blockInstructions))"

definition translateToARM64 :: "platform \<Rightarrow> basic_block \<Rightarrow> arm_instruction list result" where
  "translateToARM64 p irBlock =
     bindR (selectInstructions irBlock InstructionSelector_init) (\<lambda>(arm64Instructions, _).
     let liveIntervals = computeLiveIntervals (vregOrder p) arm64Instructions
     in bindR (allocateRegisters arm64Instructions liveIntervals) (\<lambda>(_, arm64Instructions, _).
        Inr arm64Instructions))"

definition encodeBlock :: "arm_instruction list \<Rightarrow> u8 list result" where
  "encodeBlock insts =
     bindR (mapR encodeInstruction insts) (\<lambda>encoded.
     let machineCode = concat encoded
     in if machineCode = [] then Inl (EncodingError ''Failed to encode machine code'') else Inr machineCode)"

text \<open>Decoding, lifting, lowering and encoding of the block at \<open>pc\<close>: everything before it is run.\<close>

definition translateBlock :: "platform \<Rightarrow> translator \<Rightarrow> u64 \<Rightarrow> u8 list result" where
  "translateBlock p st pc =
     bindR (decodeBlock st pc) (\<lambda>blockInstructions.
     bindR (liftBasicBlock (registerOrder p) blockInstructions Lifter_init) (\<lambda>(irBlock, _).
     bindR (translateToARM64 p irBlock) encodeBlock))"

definition executeBlock :: "platform \<Rightarrow> u64 \<Rightarrow> translator \<Rightarrow> (u64 \<times> translator) result" where
  "executeBlock p pc st =
     bindR (translateBlock p st pc) (\<lambda>machineCode.
     let g = guestAddress st
     in bindR (executeMachineCode (host.truncate p) machineCode g (write_guest g (guestState st) (hostMemory st)))
          (\<lambda>(nextPC, m). Inr (nextPC, st\<lparr> guestState := read_guest g m, hostMemory := m \<rparr>)))"

subsection \<open>A function\<close>

text \<open>The dispatch loop; the first argument is \<open>maxBlocks - blockCount\<close>.\<close>

fun dispatch :: "platform \<Rightarrow> nat \<Rightarrow> u64 \<Rightarrow> translator \<Rightarrow> translator result" where
  "dispatch p 0 currentPC st = Inr st"
| "dispatch p (Suc n) currentPC st =
     (if currentPC = 0 then Inr st
      else
        (let st = st\<lparr> guestState := (guestState st)\<lparr> gs_pc := currentPC \<rparr> \<rparr>
         in bindR (executeBlock p currentPC st) (\<lambda>(nextPC, st).
            if nextPC = 0 then Inr st else dispatch p n nextPC st)))"

text \<open>\<open>static_cast<int>\<close> keeps the low 32 bits.\<close>

definition getReturnValue :: "translator \<Rightarrow> i32" where
  "getReturnValue st = ucast (gs_x (guestState st) ! 10)"

definition executeFunction :: "platform \<Rightarrow> string \<Rightarrow> string \<Rightarrow> translator \<Rightarrow> (i32 \<times> translator) result" where
  "executeFunction p inputPath functionName st =
     bindR (loadRISCVBinary p inputPath st) (\<lambda>st.
     case getFunctionAddress functionName (elfReader st) of
       None \<Rightarrow> Inl (ELFError (''Function '' @ [CHR 0x27] @ functionName @ [CHR 0x27] @ '' not found in binary''))
     | Some functionAddr \<Rightarrow>
         (let gs = (guestState st)\<lparr> gs_pc := functionAddr \<rparr>;
              gs = gs\<lparr> gs_x := (gs_x gs)[1 := 0] \<rparr>
          in bindR (dispatch p MAX_EXECUTION_BLOCKS functionAddr (st\<lparr> guestState := gs \<rparr>)) (\<lambda>st.
             Inr (getReturnValue st, st))))"

text \<open>The loop of \<open>setArgumentRegisters\<close> over the first eight arguments.\<close>

fun setArguments :: "nat \<Rightarrow> u64 list \<Rightarrow> guest_state \<Rightarrow> guest_state" where
  "setArguments i [] gs = gs"
| "setArguments i (a # args) gs =
     (if i < 8 then setArguments (Suc i) args (writeRegister (of_nat (10 + i)) a gs) else gs)"

definition setArgumentRegisters :: "u64 list \<Rightarrow> translator \<Rightarrow> translator" where
  "setArgumentRegisters args st = st\<lparr> guestState := setArguments 0 args (guestState st) \<rparr>"

end
