(* ===== verification/LoweringCorrect.thy ===== *)
theory LoweringCorrect
  imports SelectorShape LifterShape BinaryTranslator
begin

text \<open>
  Instruction selection and register allocation together, as \<open>translateToARM64\<close> composes them. For
  blocks whose conditional branch does not reuse the register of an earlier value (\<open>branch_safe\<close>)
  the allocated code has the effect of the IR block, or the registers did not suffice and the code
  still names virtual registers, which the encoder rejects. The last theorem is the reuse: a block
  in which the two operands of a comparison get the same register.
\<close>

lemma translateToARM64_cases:
  assumes "selectInstructions blk InstructionSelector_init = Inr (sel, st)" and "scannable (vregOrder p) sel"
  shows "translateToARM64 p blk = Inr (case linear_scan (vregOrder p) sel of Some al \<Rightarrow> map (rename_inst al) sel | None \<Rightarrow> sel)"
  using allocateRegisters_linear_scan [OF assms(2)] assms(1)
  by (auto simp: translateToARM64_def Let_def split: option.splits)

lemma translateToARM64_eval:
  assumes "selectInstructions blk InstructionSelector_init = Inr (sel, st)"
    and "map_sum id (\<lambda>(b, c, st). (b, c)) (allocateRegisters sel (computeLiveIntervals (vregOrder p) sel)) = Inr (b, code)"
  shows "translateToARM64 p blk = Inr code"
  using assms
  by (cases "allocateRegisters sel (computeLiveIntervals (vregOrder p) sel)") (auto simp: translateToARM64_def Let_def)

lemma linear_scan_None:
  assumes "visits_once order" and "linear_scan order code = None"
  shows "\<exists>inst \<in> set code. vregs inst \<noteq> []"
proof -
  have "computeLiveIntervals order code \<noteq> []" using assms(2) by (auto simp: linear_scan_def)
  then have "dom (defSites (computeUseDef code)) \<noteq> {}" using set_computeLiveIntervals(1) [OF assms(1), of code] by auto
  then obtain v k where "defSites (computeUseDef code) v = Some k" by (auto simp: fun_eq_iff)
  then have "k < length code" "v \<in> writes (code ! k)" using defSites_iff [of code v k] by auto
  then have "vregs (code ! k) \<noteq> []" by (cases "code ! k") (auto simp: writes_def vreg_list_def eq_commute [of "Some v"] split: if_splits option.splits)
  with \<open>k < length code\<close> show ?thesis by auto
qed

lemma selected_run:
  assumes o: "visits_once (vregOrder p)"
    and g: "guest_rel g (window g base shadow sz) (members_of regs [pc0, shadow, msize, base]) gm (arm_mem t)"
    and x: "arm_rf t (ArmReg X0) = g" and l: "list_all (\<lambda>i. selectable (ir_kind i)) (instructions blk)"
    and d: "distinct (map ir_valueId (instructions blk))" and room: "4 * length (instructions blk) + 5 < 2 ^ 32"
    and b: "branch_safe blk" and run: "ir_run (guest_ok g base shadow sz) blk regs gm = Some (pc, regs', gm')"
  shows "\<exists>sel st hm. selectInstructions blk InstructionSelector_init = Inr (sel, st) \<and> scannable (vregOrder p) sel \<and>
    arm_run (host_ok g shadow sz) (arm_rf t (ArmReg X30)) sel t = Some (pc, hm) \<and>
    guest_rel g (window g base shadow sz) (members_of regs' [pc0, shadow, msize, base]) gm' hm"
proof -
  from gw.selectInstructions_run [OF g _ _ x refl l d room run] obtain sel st hm where
    s: "selectInstructions blk InstructionSelector_init = Inr (sel, st)"
      "arm_run (host_ok g shadow sz) (arm_rf t (ArmReg X30)) sel t = Some (pc, hm)"
      "guest_rel g (window g base shadow sz) (members_of regs' [pc0, shadow, msize, base]) gm' hm"
    by auto
  moreover have "scannable (vregOrder p) sel"
    using selectInstructions_shape [OF s(1) d room run b] o by (simp add: scannable_def)
  ultimately show ?thesis by blast
qed

lemma lowered_run:
  assumes "visits_once (vregOrder p)"
    and "guest_rel g (window g base shadow sz) (members_of regs [pc0, shadow, msize, base]) gm (arm_mem t)"
    and "arm_rf t (ArmReg X0) = g" and "list_all (\<lambda>i. selectable (ir_kind i)) (instructions blk)"
    and "distinct (map ir_valueId (instructions blk))" and "4 * length (instructions blk) + 5 < 2 ^ 32"
    and "branch_safe blk" and "ir_run (guest_ok g base shadow sz) blk regs gm = Some (pc, regs', gm')"
  shows "\<exists>code. translateToARM64 p blk = Inr code \<and>
    ((\<exists>inst \<in> set code. vregs inst \<noteq> []) \<or>
     (\<forall>inst \<in> set code. vregs inst = []) \<and>
     (\<exists>hm. arm_run (host_ok g shadow sz) (arm_rf t (ArmReg X30)) code t = Some (pc, hm) \<and>
        guest_rel g (window g base shadow sz) (members_of regs' [pc0, shadow, msize, base]) gm' hm))"
proof -
  from selected_run [OF assms] obtain sel st hm where
    s: "selectInstructions blk InstructionSelector_init = Inr (sel, st)" and sc: "scannable (vregOrder p) sel"
    and r: "arm_run (host_ok g shadow sz) (arm_rf t (ArmReg X30)) sel t = Some (pc, hm)"
      "guest_rel g (window g base shadow sz) (members_of regs' [pc0, shadow, msize, base]) gm' hm" by blast
  note tr = translateToARM64_cases [OF s sc]
  show ?thesis
  proof (cases "linear_scan (vregOrder p) sel")
    case None
    with tr linear_scan_None [OF assms(1) None] show ?thesis by auto
  next
    case (Some al)
    have "vregs (rename_inst al inst) = []" if "inst \<in> set sel" for inst
      by (rule vregs_rename [OF ls.assign_vregs [OF sc Some that]])
    moreover have "arm_run (host_ok g shadow sz) (arm_rf t (ArmReg X30)) (map (rename_inst al) sel) t = Some (pc, hm)"
      by (rule ls.allocated_run [OF sc Some r(1)]) simp_all
    ultimately show ?thesis using tr Some r(2) by auto
  qed
qed

lemmas select_defs = selectInstructions_def selectInstruction_def selectRegRead_def selectRegWrite_def selectConst_def
  selectConstIntoRegister_def selectBinaryOp_def selectTerminator_def selectCondBranch_def single_def recordValueType_def
  assignVirtualRegister_def getVirtualRegister_def getVirtualRegisterOrThrow_def freshVirtualRegister_def
  InstructionSelector_init_def comparisonCondition_def irBinaryOpToARM64_def registerOffset_def REGISTER_SIZE_BYTES_def
  retInst_def Let_def

subsection \<open>The reuse of a register by a conditional branch\<close>

definition alias_block :: "rv_instruction list" where
  "alias_block =
     [\<lparr>opcode = rvADDI, operands = [RvRegister 7, RvRegister 7, RvImmediate 1], rawInstruction = 0, address = 0x1000\<rparr>,
      \<lparr>opcode = rvBNE, operands = [RvRegister 5, RvRegister 6, RvImmediate 16], rawInstruction = 0, address = 0x1004\<rparr>]"

lemma alias_lift:
  "\<exists>st. liftBasicBlock id alias_block Lifter_init =
     Inr (\<lparr>instructions = [\<lparr>ir_valueId = 1, ir_kind = RegRead 7\<rparr>, \<lparr>ir_valueId = 2, ir_kind = Const i64 1\<rparr>,
       \<lparr>ir_valueId = 3, ir_kind = BinaryOp irAdd i64 1 2\<rparr>, \<lparr>ir_valueId = 4, ir_kind = RegWrite 7 3\<rparr>,
       \<lparr>ir_valueId = 5, ir_kind = RegRead 5\<rparr>, \<lparr>ir_valueId = 6, ir_kind = RegRead 6\<rparr>,
       \<lparr>ir_valueId = 7, ir_kind = BinaryOp irNe i1 5 6\<rparr>], terminator = CondBranch 7 0x1014 0x1008\<rparr>, st)"
  by (simp add: alias_block_def liftBasicBlock_def isTerminator_def liftSingleInstruction_def liftITypeBinaryOp_def
    getRegisterValue_def createConstant_def createBinaryOp_def addInstruction_def setRegisterValue_def Lifter_init_def
    REG_ZERO_def finalizeRegisterWrites_def finalizeRegisterWrite_def liftTerminator_def createConditionalBranch_def Let_def)

definition alias_selected :: "arm_instruction list" where
  "alias_selected =
     [MemoryInst armLDR SizeX (ArmVReg 0) (ArmReg X0) 56,
      TwoOperandInst armMOV SizeX (ArmVReg 1) (ArmImm 1),
      ThreeOperandInst armADD SizeX (ArmVReg 2) (ArmVReg 0) (ArmVReg 1),
      MemoryInst armSTR SizeX (ArmVReg 2) (ArmReg X0) 56,
      MemoryInst armLDR SizeX (ArmVReg 3) (ArmReg X0) 40,
      MemoryInst armLDR SizeX (ArmVReg 4) (ArmReg X0) 48,
      TwoOperandInst armCMP SizeX (ArmVReg 3) (ArmVReg 4),
      ConditionalInst armCSET SizeX (ArmVReg 5) condNE,
      TwoOperandInst armCMP SizeX (ArmVReg 5) (ArmImm 0),
      TwoOperandInst armMOV SizeX (ArmVReg 4) (ArmImm 0x1014),
      TwoOperandInst armMOV SizeX (ArmVReg 5) (ArmImm 0x1008),
      ConditionalSelectInst armCSEL SizeX (ArmVReg 8) (ArmVReg 4) (ArmVReg 5) condNE,
      TwoOperandInst armMOV SizeX (ArmReg X0) (ArmVReg 8),
      TwoOperandInst armRET SizeX (ArmReg X30) (ArmReg X30)]"

lemma alias_select:
  "\<exists>st. selectInstructions \<lparr>instructions = [\<lparr>ir_valueId = 1, ir_kind = RegRead 7\<rparr>, \<lparr>ir_valueId = 2, ir_kind = Const i64 1\<rparr>,
       \<lparr>ir_valueId = 3, ir_kind = BinaryOp irAdd i64 1 2\<rparr>, \<lparr>ir_valueId = 4, ir_kind = RegWrite 7 3\<rparr>,
       \<lparr>ir_valueId = 5, ir_kind = RegRead 5\<rparr>, \<lparr>ir_valueId = 6, ir_kind = RegRead 6\<rparr>,
       \<lparr>ir_valueId = 7, ir_kind = BinaryOp irNe i1 5 6\<rparr>], terminator = CondBranch 7 0x1014 0x1008\<rparr>
     InstructionSelector_init = Inr (alias_selected, st)"
  by (simp add: alias_selected_def select_defs)

definition alias_allocated :: "arm_instruction list" where
  "alias_allocated =
     [MemoryInst armLDR SizeX (ArmReg X1) (ArmReg X0) 56,
      TwoOperandInst armMOV SizeX (ArmReg X2) (ArmImm 1),
      ThreeOperandInst armADD SizeX (ArmReg X3) (ArmReg X1) (ArmReg X2),
      MemoryInst armSTR SizeX (ArmReg X3) (ArmReg X0) 56,
      MemoryInst armLDR SizeX (ArmReg X1) (ArmReg X0) 40,
      MemoryInst armLDR SizeX (ArmReg X1) (ArmReg X0) 48,
      TwoOperandInst armCMP SizeX (ArmReg X1) (ArmReg X1),
      ConditionalInst armCSET SizeX (ArmReg X2) condNE,
      TwoOperandInst armCMP SizeX (ArmReg X2) (ArmImm 0),
      TwoOperandInst armMOV SizeX (ArmReg X1) (ArmImm 0x1014),
      TwoOperandInst armMOV SizeX (ArmReg X2) (ArmImm 0x1008),
      ConditionalSelectInst armCSEL SizeX (ArmReg X3) (ArmReg X1) (ArmReg X2) condNE,
      TwoOperandInst armMOV SizeX (ArmReg X0) (ArmReg X3),
      TwoOperandInst armRET SizeX (ArmReg X30) (ArmReg X30)]"

lemma alias_allocate:
  "map_sum id (\<lambda>(b, c, st). (b, c)) (allocateRegisters alias_selected (computeLiveIntervals id alias_selected)) = Inr (True, alias_allocated)"
  by code_simp

lemma alias_translate:
  assumes "selectInstructions blk InstructionSelector_init = Inr (alias_selected, st)" and "vregOrder p = id"
  shows "translateToARM64 p blk = Inr alias_allocated"
  using translateToARM64_eval [OF assms(1)] alias_allocate assms(2) by simp

lemma alias_run:
  "\<exists>hm. arm_run (\<lambda>_ _. True) (arm_rf t (ArmReg X30)) alias_allocated t = Some (0x1008, hm)"
  by (simp add: alias_allocated_def arm_exec1.simps arm_set_def arm_move_def arm_alu_def op_width_def Let_def
    compare_flags_def)

subsection \<open>A store to guest memory\<close>

definition store_block :: "rv_instruction list" where
  "store_block =
     [\<lparr>opcode = rvSD, operands = [RvRegister 6, RvRegister 5, RvImmediate 0], rawInstruction = 0, address = 0x1000\<rparr>,
      \<lparr>opcode = rvJALR, operands = [RvRegister 0, RvRegister 1, RvImmediate 0], rawInstruction = 0, address = 0x1004\<rparr>]"

lemma store_lift:
  "\<exists>st. liftBasicBlock id store_block Lifter_init =
     Inr (\<lparr>instructions = [\<lparr>ir_valueId = 1, ir_kind = RegRead 6\<rparr>, \<lparr>ir_valueId = 2, ir_kind = RegRead 5\<rparr>,
       \<lparr>ir_valueId = 3, ir_kind = Const i64 0\<rparr>, \<lparr>ir_valueId = 4, ir_kind = BinaryOp irAdd i64 1 3\<rparr>,
       \<lparr>ir_valueId = 5, ir_kind = Store 2 4\<rparr>], terminator = Return None\<rparr>, st)"
  by (simp add: store_block_def liftBasicBlock_def isTerminator_def liftSingleInstruction_def liftStoreInstruction_def createStore_def
    getRegisterValue_def createConstant_def createBinaryOp_def addInstruction_def setRegisterValue_def Lifter_init_def 
    REG_ZERO_def REG_RA_def finalizeRegisterWrites_def finalizeRegisterWrite_def liftTerminator_def createConditionalBranch_def Let_def)

definition store_selected :: "arm_instruction list" where
  "store_selected =
     [MemoryInst armLDR SizeX (ArmVReg 0) (ArmReg X0) 48,
      MemoryInst armLDR SizeX (ArmVReg 1) (ArmReg X0) 40,
      TwoOperandInst armMOV SizeX (ArmVReg 2) (ArmImm 0),
      ThreeOperandInst armADD SizeX (ArmVReg 3) (ArmVReg 0) (ArmVReg 2),
      MemoryInst armLDR SizeX (ArmVReg 5) (ArmReg X0) 280,
      MemoryInst armLDR SizeX (ArmVReg 6) (ArmReg X0) 264,
      ThreeOperandInst armSUB SizeX (ArmVReg 4) (ArmVReg 3) (ArmVReg 5),
      ThreeOperandInst armADD SizeX (ArmVReg 4) (ArmVReg 4) (ArmVReg 6),
      MemoryInst armSTR SizeX (ArmVReg 1) (ArmVReg 4) 0,
      TwoOperandInst armMOV SizeX (ArmReg X0) (ArmImm 0),
      TwoOperandInst armRET SizeX (ArmReg X30) (ArmReg X30)]"

lemma store_select:
  "\<exists>st. selectInstructions \<lparr>instructions = [\<lparr>ir_valueId = 1, ir_kind = RegRead 6\<rparr>, \<lparr>ir_valueId = 2, ir_kind = RegRead 5\<rparr>,
       \<lparr>ir_valueId = 3, ir_kind = Const i64 0\<rparr>, \<lparr>ir_valueId = 4, ir_kind = BinaryOp irAdd i64 1 3\<rparr>,
       \<lparr>ir_valueId = 5, ir_kind = Store 2 4\<rparr>], terminator = Return None\<rparr>
     InstructionSelector_init = Inr (store_selected, st)"
  by (simp add: store_selected_def select_defs selectStore_def generateAddressTranslation_def getValueType_def
    offset_guestMemoryBase_def offset_shadowMemory_def)

definition store_allocated :: "arm_instruction list" where
  "store_allocated =
     [MemoryInst armLDR SizeX (ArmReg X1) (ArmReg X0) 48,
      MemoryInst armLDR SizeX (ArmReg X2) (ArmReg X0) 40,
      TwoOperandInst armMOV SizeX (ArmReg X3) (ArmImm 0),
      ThreeOperandInst armADD SizeX (ArmReg X4) (ArmReg X1) (ArmReg X3),
      MemoryInst armLDR SizeX (ArmReg X1) (ArmReg X0) 280,
      MemoryInst armLDR SizeX (ArmReg X3) (ArmReg X0) 264,
      ThreeOperandInst armSUB SizeX (ArmReg X1) (ArmReg X4) (ArmReg X1),
      ThreeOperandInst armADD SizeX (ArmReg X1) (ArmReg X1) (ArmReg X3),
      MemoryInst armSTR SizeX (ArmReg X2) (ArmReg X1) 0,
      TwoOperandInst armMOV SizeX (ArmReg X0) (ArmImm 0),
      TwoOperandInst armRET SizeX (ArmReg X30) (ArmReg X30)]"

lemma store_allocate:
  "map_sum id (\<lambda>(b, c, st). (b, c)) (allocateRegisters store_selected (computeLiveIntervals id store_selected)) = Inr (True, store_allocated)"
  by code_simp

lemma store_translate:
  assumes "selectInstructions blk InstructionSelector_init = Inr (store_selected, st)" and "vregOrder p = id"
  shows "translateToARM64 p blk = Inr store_allocated"
  using translateToARM64_eval [OF assms(1)] store_allocate assms(2) by simp

lemma store_run:
  "arm_run (\<lambda>_ _. True) (arm_rf t (ArmReg X30)) store_allocated t =
     Some (0, store_le 8 (load_le 8 (arm_mem t) (slot (arm_rf t (ArmReg X0)) 5))
       (load_le 8 (arm_mem t) (slot (arm_rf t (ArmReg X0)) 6)
         - load_le 8 (arm_mem t) (arm_rf t (ArmReg X0) + of_nat offset_guestMemoryBase)
         + load_le 8 (arm_mem t) (arm_rf t (ArmReg X0) + of_nat offset_shadowMemory)) (arm_mem t))"
  by (simp add: store_allocated_def arm_exec1.simps arm_set_def arm_move_def arm_alu_def op_width_def Let_def
    slot_def offset_guestMemoryBase_def offset_shadowMemory_def take_bit_word_eq_self)

subsection \<open>Properties\<close>

text \<open>
  C10: lowering is correct. For a block in the lifter's form whose terminator does not reuse a register
  that is still needed, \<open>translateToARM64\<close> returns code. Either the registers did not suffice, and
  the code still names a virtual register, or it names none and, called with the guest state in X0,
  returns the next program counter of the IR block and leaves the guest registers and the guest
  memory the block leaves.
\<close>

theorem translateToARM64_correct:
  assumes "visits_once (vregOrder p)"
    and "guest_rel g (window g base shadow sz) (members_of regs [pc0, shadow, msize, base]) gm (arm_mem t)"
    and "arm_rf t (ArmReg X0) = g" and "list_all (\<lambda>i. selectable (ir_kind i)) (instructions blk)"
    and "distinct (map ir_valueId (instructions blk))" and "4 * length (instructions blk) + 5 < 2 ^ 32"
    and "branch_safe blk" and "ir_run (guest_ok g base shadow sz) blk regs gm = Some (pc, regs', gm')"
  shows "\<exists>code. translateToARM64 p blk = Inr code \<and>
    ((\<exists>inst \<in> set code. vregs inst \<noteq> []) \<or>
     (\<forall>inst \<in> set code. vregs inst = []) \<and>
     (\<exists>hm. arm_run (host_ok g shadow sz) (arm_rf t (ArmReg X30)) code t = Some (pc, hm) \<and>
        guest_rel g (window g base shadow sz) (members_of regs' [pc0, shadow, msize, base]) gm' hm))"
  using assms by (rule lowered_run)

definition example_platform :: platform where
  "example_platform =
     \<lparr> os_pagesize = 4096, os_mmap = \<lambda>_ _. None, os_mprotect = \<lambda>_ _. True, cpu = \<lambda>_ _ _. None,
       elfio_load = \<lambda>_. None, registerOrder = id, vregOrder = id \<rparr>"

definition example_block :: basic_block where
  "example_block =
     \<lparr> instructions = [\<lparr>ir_valueId = 1, ir_kind = Const i64 7\<rparr>, \<lparr>ir_valueId = 2, ir_kind = RegWrite 5 1\<rparr>],
       terminator = Branch 0x1040 \<rparr>"

definition example_selected :: "arm_instruction list" where
  "example_selected =
     [TwoOperandInst armMOV SizeX (ArmVReg 0) (ArmImm 7), MemoryInst armSTR SizeX (ArmVReg 0) (ArmReg X0) 40,
      TwoOperandInst armMOV SizeX (ArmReg X0) (ArmImm 0x1040), TwoOperandInst armRET SizeX (ArmReg X30) (ArmReg X30)]"

definition example_allocated :: "arm_instruction list" where
  "example_allocated =
     [TwoOperandInst armMOV SizeX (ArmReg X1) (ArmImm 7), MemoryInst armSTR SizeX (ArmReg X1) (ArmReg X0) 40,
      TwoOperandInst armMOV SizeX (ArmReg X0) (ArmImm 0x1040), TwoOperandInst armRET SizeX (ArmReg X30) (ArmReg X30)]"

lemma example_allocate:
  "map_sum id (\<lambda>(b, c, st). (b, c)) (allocateRegisters example_selected (computeLiveIntervals id example_selected)) = Inr (True, example_allocated)"
  by code_simp

theorem translateToARM64_correct_witness:
  "\<exists>code hm. translateToARM64 example_platform example_block = Inr code \<and>
     arm_run (host_ok 0x8000 0 4096) 0 code (zero_state\<lparr>arm_rf := (\<lambda>_. 0)(ArmReg X0 := 0x8000)\<rparr>) = Some (0x1040, hm) \<and>
     guest_rel 0x8000 (window 0x8000 0 0 4096) (members_of ((\<lambda>_. 0)(5 := 7)) [0, 0, 0, 0]) (\<lambda>_. 0) hm"
proof -
  let ?t = "zero_state\<lparr>arm_rf := (\<lambda>_. 0)(ArmReg X0 := 0x8000)\<rparr>"
  have "visits_once (vregOrder example_platform)" by (simp add: visits_once_def example_platform_def)
  moreover have "guest_rel 0x8000 (window 0x8000 0 0 4096) (members_of (\<lambda>_. 0) [0, 0, 0, 0]) (\<lambda>_. 0) (arm_mem ?t)"
    by (simp add: guest_rel_zero zero_state_def)
  moreover have "arm_rf ?t (ArmReg X0) = 0x8000" by simp
  moreover have "list_all (\<lambda>i. selectable (ir_kind i)) (instructions example_block)" by (simp add: const_fits_def example_block_def)
  moreover have "distinct (map ir_valueId (instructions example_block))" by (simp add: example_block_def)
  moreover have "4 * length (instructions example_block) + 5 < 2 ^ 32" by (simp add: example_block_def)
  moreover have "branch_safe example_block" by (auto simp: branch_safe_def no_alias_def example_block_def split: sum.split)
  moreover have "ir_run (guest_ok 0x8000 0 0 4096) example_block (\<lambda>_. 0) (\<lambda>_. 0) = Some (0x1040, (\<lambda>_. 0)(5 := 7), \<lambda>_. 0)"
    by (simp add: ir_run_def ir_exec1.simps example_block_def)
  ultimately obtain code where c: "translateToARM64 example_platform example_block = Inr code"
    "(\<exists>inst \<in> set code. vregs inst \<noteq> []) \<or> (\<forall>inst \<in> set code. vregs inst = []) \<and>
     (\<exists>hm. arm_run (host_ok 0x8000 0 4096) (arm_rf ?t (ArmReg X30)) code ?t = Some (0x1040, hm) \<and>
        guest_rel 0x8000 (window 0x8000 0 0 4096) (members_of ((\<lambda>_. 0)(5 := 7)) [0, 0, 0, 0]) (\<lambda>_. 0) hm)"
    using translateToARM64_correct [of example_platform "0x8000" 0 0 4096 "\<lambda>_. 0" 0 0 "\<lambda>_. 0" ?t example_block] by blast
  obtain st where "selectInstructions example_block InstructionSelector_init = Inr (example_selected, st)"
    by (simp add: example_block_def example_selected_def select_defs)
  then have "translateToARM64 example_platform example_block = Inr example_allocated"
    by (rule translateToARM64_eval) (simp add: example_platform_def example_allocate)
  moreover have "\<not> (\<exists>inst \<in> set example_allocated. vregs inst \<noteq> [])" by (simp add: example_allocated_def vreg_list_def)
  ultimately show ?thesis using c by auto
qed

text \<open>
  C31: the branch targets take over registers that are still needed. In the code for
  \<open>addi x7, x7, 1; bne x5, x6, 16\<close> at 0x1000, the value numbers of the two branch targets are those
  of values of the block, so the targets get the registers of these values, whose live intervals are then
  wrong, and both operands of the comparison are loaded into one register. The call returns 0x1008
  from every state: the branch is never taken, whatever x5 and x6 hold.
\<close>

theorem bne_never_taken:
  "\<exists>blk st code. liftBasicBlock id
      [\<lparr>opcode = rvADDI, operands = [RvRegister 7, RvRegister 7, RvImmediate 1], rawInstruction = 0, address = 0x1000\<rparr>,
       \<lparr>opcode = rvBNE, operands = [RvRegister 5, RvRegister 6, RvImmediate 16], rawInstruction = 0, address = 0x1004\<rparr>]
      Lifter_init = Inr (blk, st) \<and>
    (\<forall>p t. translateToARM64 (p\<lparr>registerOrder := id, vregOrder := id\<rparr>) blk = Inr code \<and>
       (\<exists>hm. arm_run (\<lambda>_ _. True) (arm_rf t (ArmReg X30)) code t = Some (0x1008, hm)))"
proof -
  from alias_lift obtain blk st where l: "liftBasicBlock id alias_block Lifter_init = Inr (blk, st)"
    and s: "\<exists>st. selectInstructions blk InstructionSelector_init = Inr (alias_selected, st)"
    using alias_select by blast
  from s have "translateToARM64 (p\<lparr>registerOrder := id, vregOrder := id\<rparr>) blk = Inr alias_allocated" for p :: platform
    using alias_translate [of blk _ "p\<lparr>registerOrder := id, vregOrder := id\<rparr>"] by auto
  with l alias_run show ?thesis unfolding alias_block_def by blast
qed

text \<open>
  C32: nothing checks that a guest store stays in guest memory. The code for \<open>sd x5, 0(x6); ret\<close>
  writes x5 at x6 \<open>-\<close> \<open>guestMemoryBase\<close> \<open>+\<close> \<open>shadowMemory\<close> from every state, with whatever values these
  have: \<open>shadowMemorySize\<close> is not read, so an x6 outside the guest's memory makes the translated
  program write to the translator's own memory.
\<close>

theorem guest_store_unchecked:
  "\<exists>blk st code. liftBasicBlock id
      [\<lparr>opcode = rvSD, operands = [RvRegister 6, RvRegister 5, RvImmediate 0], rawInstruction = 0, address = 0x1000\<rparr>,
       \<lparr>opcode = rvJALR, operands = [RvRegister 0, RvRegister 1, RvImmediate 0], rawInstruction = 0, address = 0x1004\<rparr>]
      Lifter_init = Inr (blk, st) \<and>
    (\<forall>p t. translateToARM64 (p\<lparr>registerOrder := id, vregOrder := id\<rparr>) blk = Inr code \<and>
       arm_run (\<lambda>_ _. True) (arm_rf t (ArmReg X30)) code t =
         Some (0, store_le 8 (load_le 8 (arm_mem t) (slot (arm_rf t (ArmReg X0)) 5))
           (load_le 8 (arm_mem t) (slot (arm_rf t (ArmReg X0)) 6)
             - load_le 8 (arm_mem t) (arm_rf t (ArmReg X0) + of_nat offset_guestMemoryBase)
             + load_le 8 (arm_mem t) (arm_rf t (ArmReg X0) + of_nat offset_shadowMemory)) (arm_mem t)))"
proof -
  from store_lift obtain blk st where l: "liftBasicBlock id store_block Lifter_init = Inr (blk, st)"
    and s: "\<exists>st. selectInstructions blk InstructionSelector_init = Inr (store_selected, st)"
    using store_select by blast
  from s have "translateToARM64 (p\<lparr>registerOrder := id, vregOrder := id\<rparr>) blk = Inr store_allocated" for p :: platform
    using store_translate [of blk _ "p\<lparr>registerOrder := id, vregOrder := id\<rparr>"] by auto
  with l store_run show ?thesis unfolding store_block_def by blast
qed

end
