(* ===== verification/EncodableCode.thy ===== *)
theory EncodableCode
  imports EncoderCorrect LoweringCorrect
begin

text \<open>
  The code the selector emits is in the part of the instruction set the encoder handles correctly:
  every operand is a register or an immediate in range, every offset is aligned and small, and XOR and
  logical right shifts apart (their encodings are wrong) an instruction that is encoded at all is encoded as itself.
  So when the encoder accepts the code of a block, the A64 tables read the bytes back as that code.
\<close>

subsection \<open>Encoding leaves no virtual register\<close>

lemma encodeRegister_Inr: "encodeRegister op = Inr n \<Longrightarrow> vreg_list op = []"
  by (cases op) (simp_all add: vreg_list_def)

lemma immediate_vreg_list: "isImmediate op \<Longrightarrow> vreg_list op = []"
  by (cases op) (simp_all add: vreg_list_def)

text \<open>What an accepted instruction looks like.\<close>

lemma encodeShift_Inr:
  "encodeLSL sf s2 rn rd = Inr w \<Longrightarrow> isImmediate s2 \<or> (\<exists>n. encodeRegister s2 = Inr n)"
  "encodeLSR sf s2 rn rd = Inr w \<Longrightarrow> isImmediate s2 \<or> (\<exists>n. encodeRegister s2 = Inr n)"
  "encodeASR sf s2 rn rd = Inr w \<Longrightarrow> isImmediate s2 \<or> (\<exists>n. encodeRegister s2 = Inr n)"
  by (auto simp: encodeLSL_def encodeLSR_def encodeASR_def Let_def split: if_splits elim!: bindR_InrE)

lemma encodeThree_Inr:
  assumes "encodeThreeOperandInst opc sz d s1 s2 = Inr w"
  shows "\<exists>n. encodeRegister d = Inr n" and "\<exists>n. encodeRegister s1 = Inr n"
    and "isImmediate s2 \<or> (\<exists>n. encodeRegister s2 = Inr n)"
    and "opc \<in> {armADD, armSUB, armCMP, armAND, armORR, armEOR, armMUL, armLSL, armLSR, armASR}"
proof -
  from assms obtain rd rn where "encodeRegister d = Inr rd" "encodeRegister s1 = Inr rn"
    by (auto simp: encodeThreeOperandInst_def Let_def elim!: bindR_InrE)
  with assms show "\<exists>n. encodeRegister d = Inr n" "\<exists>n. encodeRegister s1 = Inr n"
    "isImmediate s2 \<or> (\<exists>n. encodeRegister s2 = Inr n)"
    "opc \<in> {armADD, armSUB, armCMP, armAND, armORR, armEOR, armMUL, armLSL, armLSR, armASR}"
    by (simp_all add: encodeThreeOperandInst_def Let_def)
       (cases opc; auto split: if_splits elim!: bindR_InrE dest: encodeShift_Inr)+
qed

lemma encodeTwo_Inr:
  assumes "encodeTwoOperandInst opc sz d s = Inr w"
  shows "\<exists>n. encodeRegister d = Inr n" and "isImmediate s \<or> (\<exists>n. encodeRegister s = Inr n)"
    and "opc \<in> {armMOV, armSXTB, armSXTH, armSXTW, armRET, armMOVN, armCMP}"
    and "opc = armMOVN \<Longrightarrow> isImmediate s"
proof -
  from assms obtain rd where "encodeRegister d = Inr rd"
    by (auto simp: encodeTwoOperandInst_def Let_def elim!: bindR_InrE)
  with assms show "\<exists>n. encodeRegister d = Inr n" "isImmediate s \<or> (\<exists>n. encodeRegister s = Inr n)"
    "opc \<in> {armMOV, armSXTB, armSXTH, armSXTW, armRET, armMOVN, armCMP}" "opc = armMOVN \<Longrightarrow> isImmediate s"
    by (simp_all add: encodeTwoOperandInst_def Let_def split: if_splits) (cases opc; auto split: if_splits elim!: bindR_InrE)+
qed

lemma encodeMemory_Inr:
  assumes "encodeMemoryInst opc sz r b off = Inr w"
  shows "\<exists>n. encodeRegister r = Inr n" and "\<exists>n. encodeRegister b = Inr n" and "opc \<in> {armLDR, armSTR}"
proof -
  from assms obtain rt rn where "encodeRegister r = Inr rt" "encodeRegister b = Inr rn"
    by (auto simp: encodeMemoryInst_def elim!: bindR_InrE)
  with assms show "\<exists>n. encodeRegister r = Inr n" "\<exists>n. encodeRegister b = Inr n" "opc \<in> {armLDR, armSTR}"
    by (simp_all add: encodeMemoryInst_def) (cases opc; simp)
qed

lemma encodeRest_Inr:
  shows "encodeMoveWideInst opc sz d imm16 sh = Inr w \<Longrightarrow> (\<exists>n. encodeRegister d = Inr n) \<and> opc \<in> {armMOVZ, armMOVK}"
    and "encodeConditionalInst opc sz d c = Inr w \<Longrightarrow> (\<exists>n. encodeRegister d = Inr n) \<and> opc = armCSET"
    and "encodeConditionalSelectInst opc sz d s1 s2 c = Inr w \<Longrightarrow>
      (\<exists>n. encodeRegister d = Inr n) \<and> (\<exists>n. encodeRegister s1 = Inr n) \<and> (\<exists>n. encodeRegister s2 = Inr n) \<and> opc = armCSEL"
  by (cases opc; auto simp: encodeMoveWideInst_def encodeConditionalInst_def encodeConditionalSelectInst_def Let_def
    split: if_splits elim!: bindR_InrE)+

lemma encodeWord_allocated:
  assumes "encodeWord inst = Inr w"
  shows "vregs inst = []"
  using assms
  by (cases inst) (auto dest: encodeThree_Inr(1-3) encodeTwo_Inr(1,2) encodeMemory_Inr(1,2) encodeRest_Inr
    simp: encodeRegister_Inr immediate_vreg_list)

subsection \<open>Emitted code\<close>

fun emitted :: "arm_instruction \<Rightarrow> bool" where
  "emitted (ThreeOperandInst opc sz d s1 s2) \<longleftrightarrow>
     is_register d \<and> is_register s1 \<and> is_register s2 \<and> opc \<notin> {armEOR, armLSR}"
| "emitted (TwoOperandInst opc sz d s) \<longleftrightarrow>
     is_register d \<and>
     (is_register s \<or> imm_below 16 s \<and> opc \<in> {armMOV, armMOVN} \<or> imm_below 12 s \<and> opc = armCMP)"
| "emitted (MemoryInst opc sz r b off) \<longleftrightarrow>
     is_register r \<and> is_register b \<and>
     0 \<le> sint off \<and> sint off mod 2 ^ memorySize sz = 0 \<and> sint off < 4096 * 2 ^ memorySize sz"
| "emitted (MoveWideInst opc sz d imm16 sh) \<longleftrightarrow> is_register d \<and> wide_shift sz sh"
| "emitted (BranchInst opc target) \<longleftrightarrow> False"
| "emitted (ConditionalInst opc sz d c) \<longleftrightarrow> is_register d \<and> c \<notin> {condAL, condNV}"
| "emitted (ConditionalSelectInst opc sz d s1 s2 c) \<longleftrightarrow>
     is_register d \<and> is_register s1 \<and> is_register s2 \<and> c \<notin> {condAL, condNV}"

lemma register_phys: "is_register op \<Longrightarrow> encodeRegister op = Inr n \<Longrightarrow> phys op"
  by (cases op) (simp_all add: phys_def)

lemma register_not_immediate: "is_register op \<Longrightarrow> \<not> isImmediate op"
  by (cases op) simp_all

lemma emitted_encodable:
  assumes "emitted inst" and "encodeWord inst = Inr w"
  shows "encodable inst"
proof (cases inst)
  case (ThreeOperandInst opc sz d s1 s2)
  with assms encodeThree_Inr [of opc sz d s1 s2 w] show ?thesis
    by (auto simp: register_not_immediate intro: register_phys)
next
  case (TwoOperandInst opc sz d s)
  with assms encodeTwo_Inr [of opc sz d s w] show ?thesis
    by (auto simp: register_not_immediate intro: register_phys)
next
  case (MemoryInst opc sz r b off)
  with assms encodeMemory_Inr [of opc sz r b off w] show ?thesis
    by (auto intro: register_phys)
qed (use assms in \<open>auto dest!: encodeRest_Inr simp: wide_shift_def intro: register_phys\<close>)

lemma emitted_rename:
  assumes "usable al" and "emitted inst"
  shows "emitted (rename_inst al inst)"
proof -
  have r: "is_register (rename al op)" if "is_register op" for op
    using that assms(1) by (cases op) (auto simp: usable_def ran_def split: option.splits)
  have i: "imm_below n op \<Longrightarrow> rename al op = op" for n op
    by (cases op) (auto simp: imm_below_def)
  show ?thesis using assms(2) r i by (cases inst) auto
qed

subsection \<open>The selector emits such code\<close>

lemma chunks_emitted:
  assumes "is_register op" and "sz = SizeX \<or> take_bit 32 v = v" and "set ks \<subseteq> {0, 16, 32, 48}"
  shows "list_all emitted (fst (selectChunks ks f sz op v))"
  using assms(3)
proof (induction ks arbitrary: f)
  case Nil
  then show ?case by simp
next
  case (Cons k ks)
  have "wide_shift sz (of_nat k)" if "(ucast (drop_bit k v AND 0xFFFF) :: u16) \<noteq> 0"
    using that Cons.prems wide_shift_chunk [of "k div 16" sz v] assms(2) by (auto simp: chunk_zero)
  with Cons assms(1) show ?case by (simp add: Let_def split_def)
qed

lemma sint_NOT: "sint (NOT v :: u64) = - sint v - 1"
  using sint_ge [of v] sint_lt [of v] by (simp add: signed_not_eq not_int_def signed_take_bit_int_eq_self)

lemma const_emitted:
  assumes "is_register op" and "const_fits t v"
  shows "list_all emitted (selectConstIntoRegister t v op)"
proof -
  let ?sz = "irTypeToDataSize t"
  have small: "imm_below 16 (ArmImm w)" if "0 \<le> sint w" "sint w \<le> 0xFFFF" for w
  proof -
    have "nat (uint w) < nat (2 ^ 16)" using that sint_nonneg_uint [of w] by (subst nat_mono_iff) simp_all
    then show ?thesis by (simp add: imm_below_def)
  qed
  have "?sz = SizeX \<or> take_bit 32 v = v" if "\<not> (sint v < 0 \<and> sint v \<ge> - 65536)"
    using that assms(2) sint_small_take_bit [of v] by (auto simp: const_fits_def)
  with chunks_emitted [OF assms(1), of ?sz v "[0, 16, 32, 48]" True] assms(1) small [of v] small [of "NOT v"]
  show ?thesis by (auto simp: selectConstIntoRegister_def Let_def split_def sint_NOT wide_shift_def)
qed

lemma offsets_emitted: "list_all (\<lambda>i. 0 \<le> sint (registerOffset (of_nat i)) \<and> sint (registerOffset (of_nat i)) mod 8 = 0 \<and>
    sint (registerOffset (of_nat i)) < 32768) [0..<32]"
  by code_simp

lemma offset_emitted:
  assumes "q < 32"
  shows "0 \<le> sint (registerOffset q)" and "sint (registerOffset q) mod 8 = 0" and "sint (registerOffset q) < 32768"
proof -
  have "unat q < 32" using assms by (simp add: word_less_nat_alt)
  with offsets_emitted show "0 \<le> sint (registerOffset q)" "sint (registerOffset q) mod 8 = 0" "sint (registerOffset q) < 32768"
    by (auto simp: list_all_iff dest!: bspec [of _ _ "unat q"])
qed

lemma comparison_emitted: "comparisonCondition opc \<noteq> Some condAL" "comparisonCondition opc \<noteq> Some condNV"
  by (cases opc; simp add: comparisonCondition_def)+

lemma binary_emitted: "irBinaryOpToARM64 opc = Inr armEOR \<longleftrightarrow> opc = irXor" "irBinaryOpToARM64 opc = Inr armLSR \<longleftrightarrow> opc = irShr"
  by (cases opc; simp add: irBinaryOpToARM64_def)+

lemma address_emitted: "list_all emitted (fst (generateAddressTranslation a st))"
  by (simp add: generateAddressTranslation_def freshVirtualRegister_def Let_def split_def offset_guestMemoryBase_def offset_shadowMemory_def)

lemma selectInstruction_emitted:
  assumes "selectInstruction inst st = Inr (code, st')" and "ir_ok S (ir_kind inst)" and "S \<inter> {irXor, irShr} = {}"
  shows "list_all emitted code"
proof (cases "ir_kind inst")
  case (BinaryOp opc t l r)
  with assms show ?thesis
    by (auto simp: selectInstruction_def selectBinaryOp_def Let_def split_def ir_ok_def
      comparison_emitted binary_emitted elim!: bindR_InrE split: option.splits)
next
  case (Load t a)
  with assms show ?thesis
    using address_emitted
    by (auto simp: selectInstruction_def selectLoad_def Let_def split_def elim!: bindR_InrE)
next
  case (Store v a)
  with assms show ?thesis
    using address_emitted
    by (auto simp: selectInstruction_def selectStore_def Let_def split_def elim!: bindR_InrE)
next
  case (Const t v)
  with assms show ?thesis
    by (auto simp: selectInstruction_def selectConst_def Let_def split_def ir_ok_def intro: const_emitted)
qed (use assms in \<open>auto simp: selectInstruction_def selectSext_def selectZext_def selectTrunc_def selectRegRead_def
  selectRegWrite_def single_def ir_ok_def Let_def split_def offset_emitted elim!: bindR_InrE\<close>)

lemma selectLoop_emitted:
  assumes "selectLoop insts st = Inr (code, st')" and "list_all (\<lambda>i. ir_ok S (ir_kind i)) insts" and "S \<inter> {irXor, irShr} = {}"
  shows "list_all emitted code"
  using assms(1,2)
proof (induction insts arbitrary: st code)
  case Nil
  then show ?case by simp
next
  case (Cons inst insts)
  then show ?case by (auto elim!: bindR_InrE dest: selectInstruction_emitted [OF _ _ assms(3)])
qed

lemma selectTerminator_emitted:
  assumes "selectTerminator trm st = Inr (code, st')"
  shows "list_all emitted code"
proof -
  have c: "is_register op \<Longrightarrow> list_all emitted (selectConstIntoRegister i64 v op)" for v op
    by (rule const_emitted) (simp_all add: const_fits_def)
  show ?thesis
    using assms
    by (auto simp: selectTerminator_def selectCondBranch_def selectConst_def retInst_def imm_below_def c Let_def split_def
      elim!: bindR_InrE split: terminator_kind.splits option.splits)
qed

lemma selectInstructions_emitted:
  assumes "selectInstructions blk st = Inr (code, st')" and "list_all (\<lambda>i. ir_ok S (ir_kind i)) (instructions blk)"
    and "S \<inter> {irXor, irShr} = {}"
  shows "list_all emitted code"
  using assms selectLoop_emitted [OF _ assms(2,3)] selectTerminator_emitted
  by (auto simp: selectInstructions_def elim!: bindR_InrE)

end
