(* ===== verification/MachineCode.thy ===== *)
theory MachineCode
  imports EncodableCode
begin

text \<open>
  From encoded bytes to a call of them. \<open>cpu_sound\<close> states what is relied on of the processor: code in
  memory that the A64 tables read as instructions whose run returns, and that keeps the registers
  the procedure call standard reserves for the caller, is executed as those instructions. The
  interpreter at the end is a processor of that kind.
\<close>

subsection \<open>What the encoding drops has no effect\<close>

lemma op_width_canon [simp]: "op_width (canon_size sz) = op_width sz"
  by (cases sz) (simp_all add: op_width_def canon_size_def)

lemma wide_shift_canon: "wide_shift sz sh \<Longrightarrow> wide_shift (canon_size sz) sh"
  by (cases sz) (auto simp: wide_shift_def canon_size_def)

lemma canon_return [simp]: "encodable inst \<Longrightarrow> is_return (canon inst) \<longleftrightarrow> is_return inst"
  by (cases inst) auto

lemma take_bit_small: "unat (i :: u64) < 2 ^ n \<Longrightarrow> take_bit n i = i"
  by (simp add: word_unat_eq_iff unsigned_take_bit_eq take_bit_nat_eq_self)

lemma mov_immediate: "unat i < 2 ^ 16 \<Longrightarrow> ucast (ucast i :: u16) = (i :: u64)"
proof -
  have "ucast (ucast i :: u16) = take_bit 16 i" by (rule bit_word_eqI) (auto simp: bit_simps)
  then show "unat i < 2 ^ 16 \<Longrightarrow> ?thesis" by (simp add: take_bit_small)
qed

lemma small_width: "unat i < 2 ^ 16 \<Longrightarrow> take_bit (op_width sz) i = (i :: u64)"
  by (rule take_bit_small) (simp add: op_width_def)

lemma canon_exec:
  assumes "encodable inst"
  shows "arm_exec1 ok (canon inst) s = arm_exec1 ok inst s"
proof (cases inst)
  case (ThreeOperandInst opc sz d s1 s2)
  show ?thesis
    by (cases "arm_value s1 s"; cases "arm_value s2 s") (simp_all add: ThreeOperandInst arm_exec1.simps)
next
  case (TwoOperandInst opc sz d s2)
  then show ?thesis using assms
    by (auto simp: arm_exec1.simps arm_move_def arm_set_def mov_immediate small_width wide_shift_def phys_not_immediate
        elim!: imm_belowE split: arm_operand.splits)
next
  case (MoveWideInst opc sz d imm16 sh)
  then show ?thesis using assms
    by (auto simp: arm_exec1.simps wide_shift_def canon_size_def op_width_def)
qed (simp_all add: arm_exec1.simps)

lemma arm_run_canon:
  "list_all encodable code \<Longrightarrow> arm_run ok lr (map canon code) s = arm_run ok lr code s"
  by (induction code arbitrary: s) (auto simp: canon_exec split: bind_splits)


lemma encodeBlock_words:
  assumes "encodeBlock code = Inr bytes" and "inst \<in> set code"
  shows "\<exists>w. encodeWord inst = Inr w"
proof -
  have "\<exists>w. encodeWord inst = Inr w" if "mapR encodeInstruction code = Inr bss" "inst \<in> set code" for bss
    using that by (induction code arbitrary: bss) (auto simp: encodeInstruction_def elim!: bindR_InrE)
  with assms show ?thesis by (auto simp: encodeBlock_def Let_def elim!: bindR_InrE)
qed

lemma encodeBlock_encodable:
  assumes "list_all encodable code" and "code \<noteq> []"
  shows "\<exists>bytes. encodeBlock code = Inr bytes"
proof -
  from a64.encode_all [OF assms(1)] obtain bss where b: "mapR encodeInstruction code = Inr bss" "length (concat bss) = 4 * length code"
    by blast
  then have "concat bss \<noteq> []" using assms(2) by (metis length_0_conv length_greater_0_conv mult_pos_pos zero_less_numeral)
  with b(1) show ?thesis by (auto simp: encodeBlock_def Let_def)
qed

lemma encodeBlock_disassemble:
  assumes "list_all emitted code" and "encodeBlock code = Inr bytes"
  shows "list_all encodable code" and "disassemble_bytes bytes = Some (map canon code)" and "length bytes = 4 * length code"
proof -
  show e: "list_all encodable code"
    using assms(1) encodeBlock_words [OF assms(2)] emitted_encodable by (fastforce simp: list_all_iff)
  from a64.encode_all [OF e] assms(2)
  show "disassemble_bytes bytes = Some (map canon code)" "length bytes = 4 * length code"
    by (auto simp: encodeBlock_def Let_def split: if_splits)
qed

subsection \<open>The processor\<close>

fun destination :: "arm_instruction \<Rightarrow> arm_operand option" where
  "destination (ThreeOperandInst opc sz d s1 s2) = (if opc = armCMP then None else Some d)"
| "destination (TwoOperandInst opc sz d s) = (if opc \<in> {armCMP, armRET} then None else Some d)"
| "destination (MemoryInst opc sz r b off) = (if opc = armLDR then Some r else None)"
| "destination (MoveWideInst opc sz d imm16 sh) = Some d"
| "destination (BranchInst opc target) = None"
| "destination (ConditionalInst opc sz d c) = Some d"
| "destination (ConditionalSelectInst opc sz d s1 s2 c) = Some d"

text \<open>The registers a call has to keep, and code that does not write them.\<close>

definition callee_saved :: "arm_register set" where
  "callee_saved = {X19, X20, X21, X22, X23, X24, X25, X26, X27, X28, X29}"

definition conforming :: "arm_instruction list \<Rightarrow> bool" where
  "conforming = list_all (\<lambda>inst. case destination inst of Some (ArmReg r) \<Rightarrow> r \<notin> callee_saved | _ \<Rightarrow> True)"

lemma destination_canon: "encodable inst \<Longrightarrow> destination (canon inst) = destination inst"
  by (cases inst) auto

lemma conforming_canon: "list_all encodable code \<Longrightarrow> conforming (map canon code) \<longleftrightarrow> conforming code"
  by (auto simp: conforming_def list_all_iff destination_canon)

definition bytes_at :: "u64 \<Rightarrow> u8 list \<Rightarrow> mem \<Rightarrow> bool" where
  "bytes_at a bs m \<longleftrightarrow> (\<forall>i < length bs. m (a + of_nat i) = bs ! i)"

text \<open>
  \<open>A\<close> is the data the code may access. The call starts in some state \<open>t\<close> with the argument in X0, whose
  other registers are not known; when the run returns whatever they are, the call returns what
  the run from \<open>t\<close> returns. The entry is aligned as instructions are.
\<close>

definition cpu_sound :: "(u64 \<Rightarrow> u64 \<Rightarrow> mem \<Rightarrow> (u64 \<times> mem) option) \<Rightarrow> u64 set \<Rightarrow> bool" where
  "cpu_sound call A \<longleftrightarrow>
     (\<forall>entry arg m bs insts.
        take_bit 2 entry = 0 \<and> bytes_at entry bs m \<and> region entry (length bs) \<inter> A = {} \<and> length bs < 2 ^ 64 \<and>
        disassemble_bytes bs = Some insts \<and> conforming insts \<and>
        (\<forall>t. arm_rf t (ArmReg X0) = arg \<and> arm_mem t = m \<longrightarrow>
           arm_run (\<lambda>a n. region a n \<subseteq> A) (arm_rf t (ArmReg X30)) insts t \<noteq> None) \<longrightarrow>
        (\<exists>t. arm_rf t (ArmReg X0) = arg \<and> arm_mem t = m \<and>
           call entry arg m = arm_run (\<lambda>a n. region a n \<subseteq> A) (arm_rf t (ArmReg X30)) insts t))"

subsection \<open>An interpreter\<close>

definition fetch :: "mem \<Rightarrow> u64 \<Rightarrow> u32" where
  "fetch m pc = ucast (m pc) OR push_bit 8 (ucast (m (pc + 1))) OR push_bit 16 (ucast (m (pc + 2))) OR push_bit 24 (ucast (m (pc + 3)))"

fun run_from :: "nat \<Rightarrow> u64 \<Rightarrow> u64 \<Rightarrow> arm_state \<Rightarrow> (u64 \<times> mem) option" where
  "run_from 0 lr pc s = None"
| "run_from (Suc n) lr pc s =
     Option.bind (disassemble (fetch (arm_mem s) pc)) (\<lambda>inst.
       if is_return inst
       then (if arm_rf s (ArmReg X30) = lr then Some (arm_rf s (ArmReg X0), arm_mem s) else None)
       else Option.bind (arm_exec1 (\<lambda>_ _. True) inst s) (run_from n lr (pc + 4)))"

definition entry_state :: "u64 \<Rightarrow> mem \<Rightarrow> arm_state" where
  "entry_state arg m =
     \<lparr> arm_rf = (\<lambda>_. 0)(ArmReg X0 := arg), arm_flags = \<lparr>flag_n = False, flag_z = False, flag_c = False, flag_v = False\<rparr>,
       arm_mem = m \<rparr>"

definition interpreter :: "u64 \<Rightarrow> u64 \<Rightarrow> mem \<Rightarrow> (u64 \<times> mem) option" where
  "interpreter entry arg m = run_from (2 ^ 62) 0 entry (entry_state arg m)"

lemma arm_exec1_mono:
  assumes "arm_exec1 ok inst s = Some s'"
  shows "arm_exec1 (\<lambda>_ _. True) inst s = Some s'"
  using assms by (cases inst) (auto simp: arm_exec1.simps Let_def bind_eq_Some_conv split: if_splits)

lemma disassemble_bytes_Cons:
  assumes "disassemble_bytes bs = Some (inst # insts)"
  obtains b0 b1 b2 b3 rest where "bs = b0 # b1 # b2 # b3 # rest" "disassemble_bytes rest = Some insts"
    "disassemble (ucast b0 OR push_bit 8 (ucast b1) OR push_bit 16 (ucast b2) OR push_bit 24 (ucast b3)) = Some inst"
  using assms by (cases bs rule: disassemble_bytes.cases) (auto simp: bind_eq_Some_conv)

lemma run_from_arm_run:
  assumes "arm_run (\<lambda>a n. region a n \<subseteq> A) lr insts s = Some res" and "bytes_at pc bs (arm_mem s)"
    and "region pc (length bs) \<inter> A = {}" and "disassemble_bytes bs = Some insts" and "length bs \<le> 4 * n"
  shows "run_from n lr pc s = Some res"
  using assms
proof (induction insts arbitrary: n pc bs s)
  case Nil
  then show ?case by simp
next
  case (Cons inst insts)
  from disassemble_bytes_Cons [OF Cons.prems(4)] obtain b0 b1 b2 b3 rest where
    bs: "bs = b0 # b1 # b2 # b3 # rest" and r: "disassemble_bytes rest = Some insts"
    and d: "disassemble (ucast b0 OR push_bit 8 (ucast b1) OR push_bit 16 (ucast b2) OR push_bit 24 (ucast b3)) = Some inst"
    by blast
  obtain k where n: "n = Suc k" using Cons.prems(5) bs by (cases n) auto
  have b: "arm_mem s (pc + of_nat i) = bs ! i" if "i < length bs" for i
    using that Cons.prems(2) by (simp add: bytes_at_def)
  have f: "disassemble (fetch (arm_mem s) pc) = Some inst"
    using d b [of 0] b [of 1] b [of 2] b [of 3] by (simp add: fetch_def bs)
  show ?case
  proof (cases "is_return inst")
    case True
    with Cons.prems(1) show ?thesis by (simp add: n f)
  next
    case False
    with Cons.prems(1) obtain s1 where e: "arm_exec1 (\<lambda>a n. region a n \<subseteq> A) inst s = Some s1"
      and run: "arm_run (\<lambda>a n. region a n \<subseteq> A) lr insts s1 = Some res" by (auto simp: bind_eq_Some_conv)
    have sub: "region (pc + 4) (length rest) \<subseteq> region pc (length bs)"
      by (auto simp: bs region_Suc algebra_simps)
    have "arm_mem s1 x = arm_mem s x" if "x \<in> region pc (length bs)" for x
      using arm_exec1_frame [OF e] that Cons.prems(3) by blast
    moreover have "pc + 4 + of_nat i \<in> region pc (length bs)" if "i < length rest" for i
      by (rule subsetD [OF sub]) (use that in \<open>auto simp: region_iff\<close>)
    ultimately have "bytes_at (pc + 4) rest (arm_mem s1)"
      using b [of "Suc (Suc (Suc (Suc _)))"] by (auto simp: bytes_at_def bs algebra_simps)
    from Cons.IH [OF run this _ r, of k] sub Cons.prems(3,5) have "run_from k lr (pc + 4) s1 = Some res"
      by (auto simp: bs n)
    with False show ?thesis by (simp add: n f arm_exec1_mono [OF e])
  qed
qed

lemma interpreter_sound: "cpu_sound interpreter A"
  unfolding cpu_sound_def
proof (intro allI impI, elim conjE)
  fix entry arg m bs insts
  assume "take_bit 2 (entry :: u64) = 0" and a: "bytes_at entry bs m" "region entry (length bs) \<inter> A = {}" "length bs < 2 ^ 64" "disassemble_bytes bs = Some insts"
    and r: "\<forall>t. arm_rf t (ArmReg X0) = arg \<and> arm_mem t = m \<longrightarrow>
       arm_run (\<lambda>a n. region a n \<subseteq> A) (arm_rf t (ArmReg X30)) insts t \<noteq> None"
  have t: "arm_rf (entry_state arg m) (ArmReg X0) = arg" "arm_mem (entry_state arg m) = m"
    "arm_rf (entry_state arg m) (ArmReg X30) = 0" by (simp_all add: entry_state_def)
  with r obtain res where "arm_run (\<lambda>a n. region a n \<subseteq> A) 0 insts (entry_state arg m) = Some res" by fastforce
  moreover from run_from_arm_run [OF this] a t have "interpreter entry arg m = Some res" by (simp add: interpreter_def)
  ultimately show "\<exists>t. arm_rf t (ArmReg X0) = arg \<and> arm_mem t = m \<and>
      interpreter entry arg m = arm_run (\<lambda>a n. region a n \<subseteq> A) (arm_rf t (ArmReg X30)) insts t"
    using t by (intro exI [of _ "entry_state arg m"]) simp
qed

subsection \<open>The execution engine\<close>

text \<open>
  The operating system: mappings of \<open>n\<close> bytes are granted, do not overlap the data in use, and can be
  made executable; their address, being that of a page, is a multiple of 4.
\<close>

definition mappable :: "'a host_scheme \<Rightarrow> u64 set \<Rightarrow> nat \<Rightarrow> bool" where
  "mappable h A n \<longleftrightarrow>
     (\<forall>m. \<exists>a. os_mmap h n m = Some a \<and> take_bit 2 a = 0 \<and> region a n \<inter> A = {} \<and> os_mprotect h a n)"

lemma bytes_at_memcpy:
  assumes "length bs < 2 ^ 64"
  shows "bytes_at a bs (memcpy a bs m)"
  using assms
proof (induction bs arbitrary: a m)
  case Nil
  then show ?case by (simp add: bytes_at_def)
next
  case (Cons b bs)
  have "a \<notin> region (a + 1) (length bs)"
    using Cons.prems by (simp add: region_iff_offset unsigned_minus_1_eq_mask mask_eq_exp_minus_1)
  then have "memcpy (a + 1) bs (m(a := b)) a = b" by (simp add: memcpy_other)
  moreover have "bytes_at (a + 1) bs (memcpy (a + 1) bs (m(a := b)))" using Cons by simp
  ultimately show ?case by (auto simp: bytes_at_def nth_Cons algebra_simps split: nat.splits)
qed

lemma round_up: "0 < (p :: nat) \<Longrightarrow> n \<le> (n + p - 1) div p * p" "(n + p - 1) div p * p \<le> n + p - 1"
proof -
  assume p: "0 < p"
  have "(n + p - 1) div p * p + (n + p - 1) mod p = n + p - 1" by simp
  moreover have "(n + p - 1) mod p < p" using p by simp
  ultimately show "n \<le> (n + p - 1) div p * p" by linarith
qed (rule div_times_less_eq_dividend)

text \<open>The call the engine makes: the code lies in a mapping of whole pages, away from the data.\<close>

lemma executeMachineCode_call:
  assumes cpu: "cpu_sound (cpu h) A" and os: "0 < os_pagesize h" "\<forall>n. 0 < n \<and> n < L \<longrightarrow> mappable h A n"
    and len: "length bytes + os_pagesize h \<le> L" "L < 2 ^ 64"
    and code: "disassemble_bytes bytes = Some insts" "conforming insts"
    and run: "\<And>t. (\<And>x. x \<in> A \<Longrightarrow> arm_mem t x = m x) \<Longrightarrow> arm_rf t (ArmReg X0) = arg \<Longrightarrow>
      arm_run (\<lambda>a n. region a n \<subseteq> A) (arm_rf t (ArmReg X30)) insts t \<noteq> None"
  obtains a n t res where "os_mmap h n m = Some a" "length bytes \<le> n" "n < L" "region a n \<inter> A = {}"
    "arm_rf t (ArmReg X0) = arg" "arm_mem t = memcpy a bytes m" "\<And>x. x \<in> A \<Longrightarrow> arm_mem t x = m x"
    "arm_run (\<lambda>a n. region a n \<subseteq> A) (arm_rf t (ArmReg X30)) insts t = Some res" "executeMachineCode h bytes arg m = Inr res"
proof -
  let ?n = "(length bytes + os_pagesize h - 1) div os_pagesize h * os_pagesize h"
  have n: "length bytes \<le> ?n" "?n < L"
    using round_up(1) [of "os_pagesize h" "length bytes"] round_up(2) [of "length bytes" "os_pagesize h"] os(1) len(1) by linarith+
  have "arm_rf (entry_state arg m) (ArmReg X0) = arg" "arm_mem (entry_state arg m) = m" by (simp_all add: entry_state_def)
  with run [of "entry_state arg m"] have "insts \<noteq> []" by auto
  with code(1) have "0 < length bytes" by auto
  with n os(2) have "mappable h A ?n" by (meson less_le_trans)
  then obtain a where a: "os_mmap h ?n m = Some a" "take_bit 2 a = 0" "region a ?n \<inter> A = {}" "os_mprotect h a ?n"
    unfolding mappable_def by blast
  let ?m = "memcpy a bytes m"
  have ap: "region a (length bytes) \<inter> A = {}" using a(3) region_mono [OF n(1), of a] by blast
  have other: "?m x = m x" if "x \<in> A" for x by (rule memcpy_other) (use that ap in blast)
  have r: "arm_run (\<lambda>a n. region a n \<subseteq> A) (arm_rf t (ArmReg X30)) insts t \<noteq> None"
    if "arm_rf t (ArmReg X0) = arg" "arm_mem t = ?m" for t
    by (rule run) (use that other in simp_all)
  have "bytes_at a bytes ?m" "length bytes < 2 ^ 64" using bytes_at_memcpy len by auto
  with cpu a(2) ap code r obtain t where t: "arm_rf t (ArmReg X0) = arg" "arm_mem t = ?m"
    "cpu h a arg ?m = arm_run (\<lambda>a n. region a n \<subseteq> A) (arm_rf t (ArmReg X30)) insts t"
    unfolding cpu_sound_def by metis
  from r [OF t(1,2)] obtain res where res: "arm_run (\<lambda>a n. region a n \<subseteq> A) (arm_rf t (ArmReg X30)) insts t = Some res" by blast
  have "executeMachineCode h bytes arg m = Inr res"
    using a(1,4) t(3) res by (simp add: executeMachineCode_def Let_def)
  with that [OF a(1) n a(3) t(1,2) _ res] t(2) other show thesis by simp
qed

lemma executeMachineCode_run:
  assumes cpu: "cpu_sound (cpu h) A" and os: "0 < os_pagesize h" "\<forall>n. 0 < n \<and> n < L \<longrightarrow> mappable h A n"
    and len: "length bytes + os_pagesize h \<le> L" "L < 2 ^ 64"
    and code: "disassemble_bytes bytes = Some insts" "conforming insts"
    and run: "\<And>t. (\<And>x. x \<in> A \<Longrightarrow> arm_mem t x = m x) \<Longrightarrow> arm_rf t (ArmReg X0) = arg \<Longrightarrow>
      \<exists>res. arm_run (\<lambda>a n. region a n \<subseteq> A) (arm_rf t (ArmReg X30)) insts t = Some res \<and> P res"
  shows "\<exists>res a n. executeMachineCode h bytes arg m = Inr res \<and> P res \<and> os_mmap h n m = Some a \<and> n < L \<and>
    (\<forall>x. x \<notin> A \<union> region a n \<longrightarrow> snd res x = m x)"
proof -
  obtain a n t res where c: "os_mmap h n m = Some a" "length bytes \<le> n" "n < L" "arm_rf t (ArmReg X0) = arg"
      "arm_mem t = memcpy a bytes m" "\<And>x. x \<in> A \<Longrightarrow> arm_mem t x = m x"
      "arm_run (\<lambda>a n. region a n \<subseteq> A) (arm_rf t (ArmReg X30)) insts t = Some res" "executeMachineCode h bytes arg m = Inr res"
    by (rule executeMachineCode_call [OF cpu os len code]) (use run in fastforce)+
  have "snd res x = m x" if x: "x \<notin> A \<union> region a n" for x
  proof -
    have "snd res x = arm_mem t x"
    proof (rule arm_run_frame)
      show "arm_run (\<lambda>a n. region a n \<subseteq> A) (arm_rf t (ArmReg X30)) insts t = Some (fst res, snd res)" using c(7) by simp
    qed (use x in blast)
    moreover have "x \<notin> region a (length bytes)" using x region_mono [OF c(2), of a] by blast
    ultimately show ?thesis by (simp add: c(5) memcpy_other)
  qed
  with c run [OF c(6,4)] show ?thesis by auto
qed

end
