(* ===== verification/TranslatorCorrect.thy ===== *)
theory TranslatorCorrect
  imports MachineCode
begin

text \<open>
  The whole pipeline: the translated code of a block, run by the execution engine, has the effect of the
  block's RISC-V instructions on the guest registers and the guest memory and returns the next
  program counter. The dispatch loop follows the blocks.
\<close>

subsection \<open>Blocks of the text section\<close>

lemma decode_Inr:
  assumes "decode data offset pc = Inr inst"
  shows "address inst = pc" and "offset + 4 \<le> length data" and "wf_inst inst"
proof -
  from assms show "address inst = pc" by (auto simp: decode_def Let_def elim!: bindR_InrE)
  from assms readInstruction_short [of data offset] show "offset + 4 \<le> length data"
    by (cases "length data < offset + 4") (auto simp: decode_def)
  from assms show "wf_inst inst" by (rule decode_wf)
qed

lemma decodeLoop_cases:
  assumes "decodeLoop data offset pc = Inr insts"
  obtains (stop) "length data \<le> offset" "insts = []"
  | (last) inst where "decode data offset pc = Inr inst" "isTerminator inst" "insts = [inst]"
  | (further) inst rest where "decode data offset pc = Inr inst" "\<not> isTerminator inst"
      "decodeLoop data (offset + 4) (pc + 4) = Inr rest" "insts = inst # rest"
  using assms by (subst (asm) decodeLoop.simps) (auto split: if_splits elim!: bindR_InrE)

lemma decodeLoop_shape:
  assumes "decodeLoop data offset pc = Inr insts"
  shows "list_all wf_inst insts \<and> list_all (\<lambda>i. \<not> isTerminator i) (butlast insts) \<and>
    (\<forall>i < length insts. address (insts ! i) = pc + of_nat (4 * i)) \<and> 4 * length insts \<le> length data - offset"
  using assms
proof (induction insts arbitrary: offset pc)
  case Nil
  then show ?case by simp
next
  case (Cons inst insts)
  from Cons.prems show ?case
  proof (cases rule: decodeLoop_cases)
    case (last i)
    with decode_Inr [OF last(1)] show ?thesis by simp
  next
    case (further i rest)
    with Cons.IH [of "offset + 4" "pc + 4"] decode_Inr [OF further(1)]
    have "list_all wf_inst insts" "list_all (\<lambda>i. \<not> isTerminator i) (butlast insts)" "4 * length insts \<le> length data - offset - 4"
      and a: "\<forall>i < length insts. address (insts ! i) = pc + 4 + of_nat (4 * i)" by simp_all
    moreover have "address ((inst # insts) ! k) = pc + of_nat (4 * k)" if "k < length (inst # insts)" for k
      using a that further decode_Inr(1) [OF further(1)] by (cases k) (auto simp: algebra_simps)
    ultimately show ?thesis using further decode_Inr [OF further(1)] by auto
  qed simp
qed

lemma decodeBlock_shape:
  assumes "decodeBlock st pc = Inr insts"
  shows "insts \<noteq> []" and "list_all wf_inst insts" and "list_all (\<lambda>i. \<not> isTerminator i) (butlast insts)"
    and "\<And>i. i < length insts \<Longrightarrow> address (insts ! i) = pc + of_nat (4 * i)"
    and "isValidPC st pc" and "4 * length insts \<le> length (textSectionData st) - unat (pc - textBaseAddress st)"
proof -
  from assms have "decodeLoop (textSectionData st) (unat (pc - textBaseAddress st)) pc = Inr insts" "insts \<noteq> []" "isValidPC st pc"
    by (auto simp: decodeBlock_def elim!: bindR_InrE split: if_splits)
  with decodeLoop_shape show "insts \<noteq> []" "list_all wf_inst insts" "list_all (\<lambda>i. \<not> isTerminator i) (butlast insts)"
    "\<And>i. i < length insts \<Longrightarrow> address (insts ! i) = pc + of_nat (4 * i)" "isValidPC st pc"
    "4 * length insts \<le> length (textSectionData st) - unat (pc - textBaseAddress st)" by blast+
qed

text \<open>The instructions are those of the text section, up to a terminator or its end.\<close>

lemma decodeLoop_text:
  assumes "decodeLoop data offset pc = Inr insts"
  shows "(\<forall>i < length insts. decode data (offset + 4 * i) (pc + of_nat (4 * i)) = Inr (insts ! i)) \<and>
    (insts \<noteq> [] \<longrightarrow> isTerminator (last insts) \<or> length data = offset + 4 * length insts)"
  using assms
proof (induction insts arbitrary: offset pc)
  case Nil
  then show ?case by simp
next
  case (Cons inst insts)
  from Cons.prems show ?case
  proof (cases rule: decodeLoop_cases)
    case (further i rest)
    with Cons.IH [of "offset + 4" "pc + 4"] have
      r: "\<forall>i < length insts. decode data (offset + 4 + 4 * i) (pc + 4 + of_nat (4 * i)) = Inr (insts ! i)"
        "insts \<noteq> [] \<longrightarrow> isTerminator (last insts) \<or> length data = offset + 4 + 4 * length insts" by simp_all
    have "decode data (offset + 4 * k) (pc + of_nat (4 * k)) = Inr ((inst # insts) ! k)" if "k < length (inst # insts)" for k
      using r(1) that further by (cases k) (auto simp: algebra_simps)
    moreover have "length data = offset + 4" if "insts = []"
      using further that decode_Inr(2) [OF further(1)] by (auto elim: decodeLoop_cases)
    ultimately show ?thesis using r(2) by auto
  qed auto
qed

lemma decodeBlock_text:
  assumes "decodeBlock st pc = Inr insts"
  shows "(\<forall>i < length insts. decode (textSectionData st) (unat (pc - textBaseAddress st) + 4 * i) (pc + of_nat (4 * i)) = Inr (insts ! i)) \<and>
    (isTerminator (last insts) \<or> length (textSectionData st) = unat (pc - textBaseAddress st) + 4 * length insts)"
  using assms decodeLoop_text [of "textSectionData st" "unat (pc - textBaseAddress st)" pc insts]
  by (auto simp: decodeBlock_def elim!: bindR_InrE split: if_splits)

subsection \<open>The guest state of a translator\<close>

abbreviation shadow_base :: "translator \<Rightarrow> u64" where
  "shadow_base st \<equiv> gs_shadowMemory (guestState st)"

abbreviation shadow_size :: "translator \<Rightarrow> nat" where
  "shadow_size st \<equiv> unat (gs_shadowMemorySize (guestState st))"

abbreviation guest_base :: "translator \<Rightarrow> u64" where
  "guest_base st \<equiv> gs_guestMemoryBase (guestState st)"

text \<open>The bytes of the host the translated code works on; the guest addresses it can reach.\<close>

definition data_area :: "translator \<Rightarrow> u64 set" where
  "data_area st = region (guestAddress st) sizeof_GuestState \<union> {x. unat (x - shadow_base st) < shadow_size st}"

definition guest_area :: "translator \<Rightarrow> u64 set" where
  "guest_area st = window (guestAddress st) (guest_base st) (shadow_base st) (shadow_size st)"

definition accessible :: "translator \<Rightarrow> u64 \<Rightarrow> nat \<Rightarrow> bool" where
  "accessible st a n \<longleftrightarrow> region a n \<subseteq> guest_area st"

text \<open>The translator holds the RISC-V state \<open>s\<close>.\<close>

definition represents :: "translator \<Rightarrow> rv_state \<Rightarrow> bool" where
  "represents st s \<longleftrightarrow>
     wf_guest (guestState st) \<and> (\<forall>r < 32. guest_reg (guestState st) r = rv_x s r) \<and>
     (\<forall>x \<in> guest_area st. hostMemory st (x - guest_base st + shadow_base st) = rv_mem s x)"

lemma store_words_frame:
  "(\<And>i. i < length ws \<Longrightarrow> x \<notin> region (slot a i) 8) \<Longrightarrow> store_words a ws m x = m x"
proof (induction ws arbitrary: a m)
  case Nil
  then show ?case by simp
next
  case (Cons w ws)
  have "store_words (a + 8) ws (store_le 8 w a m) x = store_le 8 w a m x"
    by (rule Cons.IH) (use Cons.prems [of "Suc _"] in \<open>simp add: slot_Suc\<close>)
  also have "\<dots> = m x" by (rule store_le_other) (use Cons.prems [of 0] in simp)
  finally show ?case by simp
qed

lemma write_guest_other:
  assumes "wf_guest gs" and "x \<notin> region g sizeof_GuestState"
  shows "write_guest g gs m x = m x"
  unfolding write_guest_def
  by (rule store_words_frame) (use assms slot_in_GuestState [of _ g] in \<open>auto simp: guest_members_def wf_guest_def\<close>)

lemma guest_members_of:
  assumes "wf_guest gs" and "\<forall>r < 32. guest_reg gs r = regs r"
  shows "members_of regs [gs_pc gs, gs_shadowMemory gs, gs_shadowMemorySize gs, gs_guestMemoryBase gs] = guest_members gs"
proof -
  have "map (\<lambda>i. regs (of_nat i)) [0..<32] = gs_x gs"
  proof (rule nth_equalityI)
    fix i assume "i < length (map (\<lambda>i. regs (of_nat i)) [0..<32])"
    then have i: "i < 32" by simp
    then have "unat (of_nat i :: u32) = i" by (intro unat_of_nat_small) simp
    moreover from this i have "(of_nat i :: u32) < 32" by (simp add: word_less_nat_alt)
    ultimately show "map (\<lambda>i. regs (of_nat i)) [0..<32] ! i = gs_x gs ! i"
      using assms i by (auto simp: guest_reg_def wf_guest_def dest!: spec [of _ "of_nat i"])
  qed (use assms in \<open>simp add: wf_guest_def\<close>)
  then show ?thesis by (simp add: members_of_def guest_members_def)
qed

text \<open>Before the code runs, the guest state is written to memory.\<close>

lemma represents_written:
  assumes "represents st s" and "\<And>x. x \<in> data_area st \<Longrightarrow> m x = write_guest (guestAddress st) (guestState st) (hostMemory st) x"
  shows "guest_rel (guestAddress st) (guest_area st)
    (members_of (rv_x s) [gs_pc (guestState st), shadow_base st, gs_shadowMemorySize (guestState st), guest_base st])
    (rv_mem s) m"
proof -
  let ?g = "guestAddress st" and ?gs = "guestState st"
  have wf: "wf_guest ?gs" using assms(1) by (simp add: represents_def)
  have ms: "members_of (rv_x s) [gs_pc ?gs, shadow_base st, gs_shadowMemorySize ?gs, guest_base st] = guest_members ?gs"
    using guest_members_of [OF wf] assms(1) by (simp add: represents_def)
  have len: "length (guest_members ?gs) = 36" using wf by (simp add: guest_members_def wf_guest_def)
  have "load_le 8 m (slot ?g i) = guest_members ?gs ! i" if i: "i < 36" for i
  proof -
    have "load_le 8 m (slot ?g i) = load_le 8 (write_guest ?g ?gs (hostMemory st)) (slot ?g i)"
      using load_le_agree [of "slot ?g i" 8 m 0 "write_guest ?g ?gs (hostMemory st)"] slot_in_GuestState [OF i, of ?g] assms(2)
      by (auto simp: data_area_def)
    also have "\<dots> = guest_members ?gs ! i"
      unfolding write_guest_def by (rule load_store_words) (simp_all add: len i)
    finally show ?thesis .
  qed
  moreover have "m (x - guest_base st + shadow_base st) = rv_mem s x" if x: "x \<in> guest_area st" for x
  proof -
    let ?y = "x - guest_base st + shadow_base st"
    have y: "unat (?y - shadow_base st) < shadow_size st" "?y \<notin> region ?g sizeof_GuestState"
      using x by (auto simp: guest_area_def window_def)
    have "?y \<notin> region (slot ?g i) 8" if "i < length (guest_members ?gs)" for i
      using that y(2) slot_in_GuestState [of i ?g] by (auto simp: len)
    then have "write_guest ?g ?gs (hostMemory st) ?y = hostMemory st ?y"
      unfolding write_guest_def by (rule store_words_frame)
    with assms x y(1) show ?thesis by (auto simp: data_area_def represents_def)
  qed
  ultimately show ?thesis
    unfolding ms guest_rel_def using guest_members_nth [OF wf]
    by (simp add: len offset_shadowMemory_def offset_guestMemoryBase_def)
qed

text \<open>After it, it is read back.\<close>

lemma guest_rel_read:
  assumes "guest_rel g W (members_of regs [pc, sh, sz, base]) gm hm"
  shows "read_guest g hm =
    \<lparr> gs_x = map (\<lambda>i. regs (of_nat i)) [0..<32], gs_pc = pc, gs_shadowMemory = sh, gs_shadowMemorySize = sz, gs_guestMemoryBase = base \<rparr>"
proof -
  have l: "i < 36 \<Longrightarrow> load_le 8 hm (slot g i) = members_of regs [pc, sh, sz, base] ! i" for i
    using assms by (simp add: guest_rel_def)
  have "load_words g 32 hm = map (\<lambda>i. regs (of_nat i)) [0..<32]"
    by (auto simp: load_words_def l members_of_def nth_append)
  then show ?thesis by (simp add: read_guest_def slot_numerals l) (simp add: members_of_def nth_append)
qed

subsection \<open>A block\<close>

text \<open>
  What is relied on of the platform: the processor executes code, the operating system grants
  mappings smaller than the shadow memory outside the data in use, and the hash tables are visited
  completely.
\<close>

definition platform_ok :: "platform \<Rightarrow> u64 set \<Rightarrow> bool" where
  "platform_ok p A \<longleftrightarrow>
     cpu_sound (cpu p) A \<and> 0 < os_pagesize p \<and> (\<forall>n. 0 < n \<and> n < SHADOW_MEMORY_SIZE \<longrightarrow> mappable p A n) \<and>
     visits_once (vregOrder p) \<and> (\<forall>xs. mset (registerOrder p xs) = mset xs)"

text \<open>
  The blocks the theorem covers. The instructions are ones the lifter supports, without an upper
  immediate or a return address (\<open>block_ok\<close>), and use neither XOR nor a logical right shift, whose encodings are
  wrong; the conditional branch does not reuse a register that is needed; the allocated code
  keeps the registers reserved for the caller; and the encoder accepts it.
\<close>

definition sound_ops :: "binary_opcode set" where
  "sound_ops = - {irXor, irShr}"

definition translatable :: "platform \<Rightarrow> rv_instruction list \<Rightarrow> bool" where
  "translatable p insts \<longleftrightarrow>
     block_ok insts \<and> list_all (ops_within sound_ops) insts \<and> length insts < 2 ^ 26 \<and>
     (case liftBasicBlock (registerOrder p) insts Lifter_init of
        Inl _ \<Rightarrow> False
      | Inr (irBlock, _) \<Rightarrow>
          branch_safe irBlock \<and>
          (case translateToARM64 p irBlock of
             Inl _ \<Rightarrow> False
           | Inr code \<Rightarrow>
               conforming code \<and>
               (case encodeBlock code of
                  Inl _ \<Rightarrow> False
                | Inr machineCode \<Rightarrow> length machineCode + os_pagesize p \<le> SHADOW_MEMORY_SIZE)))"

lemma translateToARM64_emitted:
  assumes "translateToARM64 p blk = Inr code" and "selectInstructions blk InstructionSelector_init = Inr (sel, sst)"
    and "scannable (vregOrder p) sel" and "list_all emitted sel"
  shows "list_all emitted code"
proof (cases "linear_scan (vregOrder p) sel")
  case None
  with translateToARM64_cases [OF assms(2,3)] assms(1,4) show ?thesis by simp
next
  case (Some al)
  then have "usable al" using ls.assign_usable [OF assms(3)] by simp
  with translateToARM64_cases [OF assms(2,3)] assms(1,4) Some emitted_rename show ?thesis by (auto simp: list_all_iff)
qed

lemma host_ok_data_area: "host_ok (guestAddress st) (shadow_base st) (shadow_size st) = (\<lambda>a n. region a n \<subseteq> data_area st)"
  by (simp add: fun_eq_iff host_ok_def data_area_def)

lemma guest_ok_accessible: "guest_ok (guestAddress st) (guest_base st) (shadow_base st) (shadow_size st) = accessible st"
  by (simp add: fun_eq_iff guest_ok_def accessible_def guest_area_def)

definition guest_related :: "translator \<Rightarrow> rv_state \<Rightarrow> mem \<Rightarrow> bool" where
  "guest_related st s m \<longleftrightarrow>
     guest_rel (guestAddress st) (guest_area st)
       (members_of (rv_x s) [gs_pc (guestState st), shadow_base st, gs_shadowMemorySize (guestState st), guest_base st])
       (rv_mem s) m"

lemma represents_read:
  assumes g: "guest_related st s m"
  shows "represents (st\<lparr>guestState := read_guest (guestAddress st) m, hostMemory := m\<rparr>) s"
proof -
  note gs = guest_rel_read [OF g [unfolded guest_related_def]]
  have "guest_reg (read_guest (guestAddress st) m) r = rv_x s r" if "r < 32" for r
    using that by (simp add: guest_reg_def gs word_less_nat_alt)
  moreover have "m (x - guest_base st + shadow_base st) = rv_mem s x" if "x \<in> guest_area st" for x
    using g that by (simp add: guest_related_def guest_rel_def members_of_nth)
  ultimately show ?thesis by (simp add: represents_def guest_area_def gs wf_guest_def)
qed

text \<open>The IR of a block, what it computes and that it can be selected and lowered.\<close>

lemma lifted_block:
  assumes p: "platform_ok p A" and b: "block_ok insts" and S: "list_all (ops_within sound_ops) insts" and n: "length insts < 2 ^ 26"
    and r: "rv_run ok insts s = Some (npc, s')"
  obtains blk lst where "liftBasicBlock (registerOrder p) insts Lifter_init = Inr (blk, lst)"
    "ir_run ok blk (rv_x s) (rv_mem s) = Some (if is_ret (last insts) then 0 else npc, rv_x s', rv_mem s')"
    "list_all (\<lambda>i. ir_ok sound_ops (ir_kind i)) (instructions blk)" "list_all (\<lambda>i. selectable (ir_kind i)) (instructions blk)"
    "distinct (map ir_valueId (instructions blk))" "4 * length (instructions blk) + 5 < 2 ^ 32"
proof -
  from p have o: "\<And>xs. mset (registerOrder p xs) = mset xs" by (simp add: platform_ok_def)
  have "rv_run ok insts \<lparr>rv_x = rv_x s, rv_mem = rv_mem s\<rparr> = Some (npc, s')" using r by (cases s) simp
  from liftBasicBlock_sim [OF o b this, of Lifter_init] n obtain blk lst where
    l: "liftBasicBlock (registerOrder p) insts Lifter_init = Inr (blk, lst)"
    and run: "ir_run ok blk (rv_x s) (rv_mem s) = Some (if is_ret (last insts) then 0 else npc, rv_x s', rv_mem s')"
    by (auto simp: Lifter_init_def)
  have "base_ops \<subseteq> sound_ops" by (auto simp: base_ops_def sound_ops_def)
  note shape = liftBasicBlock_shape [OF o b S this l]
  from shape(2) have sel: "list_all (\<lambda>i. selectable (ir_kind i)) (instructions blk)" by (simp add: list_all_iff ir_ok_def)
  from shape(3) n have room: "4 * length (instructions blk) + 5 < 2 ^ 32" by simp
  have d: "distinct (map ir_valueId (instructions blk))" by (rule distinct_value_ids [OF shape(1)]) (use room in simp)
  show thesis by (rule that [OF l run shape(2) sel d room])
qed

lemma translated_run:
  assumes p: "platform_ok p A" and t: "translatable p insts" and r: "rv_run (accessible st) insts s = Some (npc, s')"
    and m: "guest_related st s m"
  obtains code machineCode where
    "bindR (liftBasicBlock (registerOrder p) insts Lifter_init) (\<lambda>(irBlock, _). bindR (translateToARM64 p irBlock) encodeBlock) = Inr machineCode"
    "disassemble_bytes machineCode = Some code" "conforming code" "length machineCode + os_pagesize p \<le> SHADOW_MEMORY_SIZE"
    "\<forall>t. guest_related st s (arm_mem t) \<longrightarrow> arm_rf t (ArmReg X0) = guestAddress st \<longrightarrow>
      (\<exists>hm. arm_run (\<lambda>a n. region a n \<subseteq> data_area st) (arm_rf t (ArmReg X30)) code t =
        Some (if is_ret (last insts) then 0 else npc, hm) \<and> guest_related st s' hm)"
proof -
  let ?npc = "if is_ret (last insts) then 0 else npc"
  from p have vo: "visits_once (vregOrder p)" by (simp add: platform_ok_def)
  from t have b: "block_ok insts" "list_all (ops_within sound_ops) insts" "length insts < 2 ^ 26"
    by (simp_all add: translatable_def)
  obtain blk lst where l: "liftBasicBlock (registerOrder p) insts Lifter_init = Inr (blk, lst)"
    and run: "ir_run (accessible st) blk (rv_x s) (rv_mem s) = Some (?npc, rv_x s', rv_mem s')"
    and ok: "list_all (\<lambda>i. ir_ok sound_ops (ir_kind i)) (instructions blk)"
    and sel: "list_all (\<lambda>i. selectable (ir_kind i)) (instructions blk)" "distinct (map ir_valueId (instructions blk))"
      "4 * length (instructions blk) + 5 < 2 ^ 32"
    by (rule lifted_block [OF p b r])
  from t l obtain code machineCode where c: "translateToARM64 p blk = Inr code" "branch_safe blk" "conforming code"
    "encodeBlock code = Inr machineCode" "length machineCode + os_pagesize p \<le> SHADOW_MEMORY_SIZE"
    by (auto simp: translatable_def split: sum.splits)
  have low: "(\<exists>inst \<in> set code. vregs inst \<noteq> []) \<or>
      (\<exists>hm. arm_run (\<lambda>a n. region a n \<subseteq> data_area st) (arm_rf t (ArmReg X30)) code t = Some (?npc, hm) \<and> guest_related st s' hm)"
    if g: "guest_related st s (arm_mem t)" and x: "arm_rf t (ArmReg X0) = guestAddress st" for t
    using lowered_run [OF vo g [unfolded guest_related_def guest_area_def] x sel c(2) run [folded guest_ok_accessible]] c(1)
    unfolding host_ok_data_area by (auto simp: guest_related_def guest_area_def)
  have "arm_rf (entry_state (guestAddress st) m) (ArmReg X0) = guestAddress st" by (simp add: entry_state_def)
  from selected_run [OF vo _ this sel c(2) run [folded guest_ok_accessible]] m obtain code0 sst where
    s: "selectInstructions blk InstructionSelector_init = Inr (code0, sst)" "scannable (vregOrder p) code0"
    by (fastforce simp: guest_related_def guest_area_def entry_state_def)
  have "list_all emitted code0"
    by (rule selectInstructions_emitted [OF s(1) ok]) (simp add: sound_ops_def)
  from translateToARM64_emitted [OF c(1) s this] have "list_all emitted code" .
  note enc = encodeBlock_disassemble [OF this c(4)]
  have "\<not> (\<exists>inst \<in> set code. vregs inst \<noteq> [])"
    using enc(1) encodeWord_disassemble encodeWord_allocated by (metis list_all_iff)
  with low have "\<forall>t. guest_related st s (arm_mem t) \<longrightarrow> arm_rf t (ArmReg X0) = guestAddress st \<longrightarrow>
      (\<exists>hm. arm_run (\<lambda>a n. region a n \<subseteq> data_area st) (arm_rf t (ArmReg X30)) (map canon code) t = Some (?npc, hm) \<and>
        guest_related st s' hm)"
    by (simp add: arm_run_canon [OF enc(1)])
  from that [OF _ enc(2) _ c(5) this] c enc(1) show thesis by (simp add: l conforming_canon)
qed

text \<open>
  What executing a block does. The last part confines it: outside the guest state, the shadow memory and
  the mapping of the code, the host memory keeps its contents.
\<close>

lemma executeBlock_run:
  assumes p: "platform_ok p (data_area st)" and s: "represents st s" and d: "decodeBlock st pc = Inr insts"
    and t: "translatable p insts" and r: "rv_run (accessible st) insts s = Some (npc, s')"
  shows "\<exists>gs m. executeBlock p pc st = Inr (if is_ret (last insts) then 0 else npc, st\<lparr>guestState := gs, hostMemory := m\<rparr>) \<and>
    represents (st\<lparr>guestState := gs, hostMemory := m\<rparr>) s' \<and>
    gs = (guestState st)\<lparr>gs_x := gs_x gs\<rparr> \<and>
    (\<exists>n a. n < SHADOW_MEMORY_SIZE \<and> os_mmap p n (write_guest (guestAddress st) (guestState st) (hostMemory st)) = Some a \<and>
       (\<forall>x. x \<notin> data_area st \<union> region a n \<longrightarrow> m x = hostMemory st x))"
proof -
  let ?g = "guestAddress st" and ?npc = "if is_ret (last insts) then 0 else npc"
  let ?m = "write_guest ?g (guestState st) (hostMemory st)"
  have w: "guest_related st s m" if "\<And>x. x \<in> data_area st \<Longrightarrow> m x = ?m x" for m
    unfolding guest_related_def by (rule represents_written [OF s that])
  obtain machineCode code where
    tr: "bindR (liftBasicBlock (registerOrder p) insts Lifter_init) (\<lambda>(irBlock, _). bindR (translateToARM64 p irBlock) encodeBlock) = Inr machineCode"
    and c: "disassemble_bytes machineCode = Some code" "conforming code" "length machineCode + os_pagesize p \<le> SHADOW_MEMORY_SIZE"
    and run: "\<forall>t. guest_related st s (arm_mem t) \<longrightarrow> arm_rf t (ArmReg X0) = ?g \<longrightarrow>
      (\<exists>hm. arm_run (\<lambda>a n. region a n \<subseteq> data_area st) (arm_rf t (ArmReg X30)) code t = Some (?npc, hm) \<and> guest_related st s' hm)"
    by (rule translated_run [OF p t r w [of ?m, OF refl]]) blast
  have "\<exists>res a n. executeMachineCode (host.truncate p) machineCode ?g ?m = Inr res \<and>
      (fst res = ?npc \<and> guest_related st s' (snd res)) \<and> os_mmap (host.truncate p) n ?m = Some a \<and> n < SHADOW_MEMORY_SIZE \<and>
      (\<forall>x. x \<notin> data_area st \<union> region a n \<longrightarrow> snd res x = ?m x)"
    by (rule executeMachineCode_run [where A = "data_area st" and L = SHADOW_MEMORY_SIZE, OF _ _ _ _ _ c(1,2)])
       (use p c(3) run w in \<open>auto simp: platform_ok_def mappable_def host.truncate_def SHADOW_MEMORY_SIZE_def\<close>)
  then obtain hm a n where e: "executeMachineCode (host.truncate p) machineCode ?g ?m = Inr (?npc, hm)"
    and g: "guest_related st s' hm" and mm: "os_mmap p n ?m = Some a" "n < SHADOW_MEMORY_SIZE"
    and f: "\<And>x. x \<notin> data_area st \<union> region a n \<Longrightarrow> hm x = ?m x"
    by (auto simp: host.truncate_def)
  have "?m x = hostMemory st x" if "x \<notin> data_area st" for x
    using write_guest_other [of "guestState st" x ?g] that s by (simp add: represents_def data_area_def)
  with f have f: "\<forall>x. x \<notin> data_area st \<union> region a n \<longrightarrow> hm x = hostMemory st x" by auto
  let ?gs = "read_guest ?g hm"
  have "executeBlock p pc st = Inr (?npc, st\<lparr>guestState := ?gs, hostMemory := hm\<rparr>)"
    using e by (simp add: executeBlock_def translateBlock_def d tr Let_def)
  moreover have gs: "?gs = (guestState st)\<lparr>gs_x := gs_x ?gs\<rparr>" "gs_x ?gs = map (\<lambda>i. rv_x s' (of_nat i)) [0..<32]"
    using guest_rel_read [OF g [unfolded guest_related_def]] by simp_all
  moreover have "represents (st\<lparr>guestState := ?gs, hostMemory := hm\<rparr>) s'"
    by (rule represents_read [OF g])
  ultimately show ?thesis using mm f by blast
qed

lemma executeBlock_sim:
  assumes "platform_ok p (data_area st)" and "represents st s" and "decodeBlock st pc = Inr insts"
    and "translatable p insts" and "rv_run (accessible st) insts s = Some (npc, s')"
  shows "\<exists>gs m. executeBlock p pc st = Inr (if is_ret (last insts) then 0 else npc, st\<lparr>guestState := gs, hostMemory := m\<rparr>) \<and>
    represents (st\<lparr>guestState := gs, hostMemory := m\<rparr>) s' \<and>
    gs = (guestState st)\<lparr>gs_x := gs_x gs\<rparr>"
  using executeBlock_run [OF assms] by blast

end
