(* ===== verification/DispatcherCorrect.thy ===== *)
theory DispatcherCorrect
  imports TranslatorCorrect
begin

text \<open>
  The dispatch loop against the guest as a machine. \<open>guest_step\<close> executes the instruction at the program
  counter; \<open>guest_blocks\<close> follows the blocks the translator decodes, each of them one the pipeline handles.
  A function whose blocks lead to program counter 0 within the block limit is executed as the
  machine executes it, and its result is the machine's register x10.
\<close>

subsection \<open>What the blocks depend on\<close>

definition same_context :: "translator \<Rightarrow> translator \<Rightarrow> bool" where
  "same_context st st' \<longleftrightarrow>
     textSectionData st' = textSectionData st \<and> textBaseAddress st' = textBaseAddress st \<and>
     guestAddress st' = guestAddress st \<and> shadow_base st' = shadow_base st \<and>
     gs_shadowMemorySize (guestState st') = gs_shadowMemorySize (guestState st) \<and> guest_base st' = guest_base st"

lemma same_context_refl: "same_context st st"
  by (simp add: same_context_def)

lemma same_context_trans: "same_context a b \<Longrightarrow> same_context b c \<Longrightarrow> same_context a c"
  by (simp add: same_context_def)

lemma same_context_eqs:
  assumes "same_context st st'"
  shows "decodeBlock st' pc = decodeBlock st pc" and "accessible st' = accessible st" and "data_area st' = data_area st"
  using assms
  by (auto simp: same_context_def decodeBlock_def isValidPC_def accessible_def guest_area_def data_area_def fun_eq_iff)

subsection \<open>The guest machine\<close>

inductive guest_step :: "translator \<Rightarrow> u64 \<times> rv_state \<Rightarrow> u64 \<times> rv_state \<Rightarrow> bool" for st where
  step: "decode (textSectionData st) (unat (pc - textBaseAddress st)) pc = Inr inst \<Longrightarrow>
    rv_exec (accessible st) inst s = Some (pc', s') \<Longrightarrow> guest_step st (pc, s) (pc', s')"

inductive_cases guest_stepE: "guest_step st (pc, s) (pc', s')"

lemma guest_step_deterministic:
  "guest_step st c d \<Longrightarrow> guest_step st c e \<Longrightarrow> d = e"
  by (cases c; cases d; cases e) (auto elim!: guest_stepE)

lemma unat_add_small: "unat (x :: u64) + k < 2 ^ 64 \<Longrightarrow> unat (x + of_nat k) = unat x + k"
proof -
  assume a: "unat x + k < 2 ^ 64"
  have "x + of_nat k = of_nat (unat x + k)" by simp
  with a show ?thesis using unat_of_nat_small [where 'a = 64, of "unat x + k"] by simp
qed

text \<open>The straight run over a decoded block is a sequence of steps of the machine.\<close>

lemma decodeLoop_steps:
  assumes "decodeLoop (textSectionData st) offset pc = Inr insts" and "offset = unat (pc - textBaseAddress st)"
    and "rv_run (accessible st) insts s = Some (npc, s')" and "length (textSectionData st) < 2 ^ 64 - 4"
  shows "(guest_step st)\<^sup>+\<^sup>+ (pc, s) (npc, s')"
  using assms(1-3)
proof (induction insts arbitrary: offset pc s)
  case Nil
  then show ?case by simp
next
  case (Cons inst insts)
  note prems = Cons.prems and IH = Cons.IH
  from prems(1) show ?case
  proof (cases rule: decodeLoop_cases)
    case (last i)
    with prems have "guest_step st (pc, s) (npc, s')" by (auto intro: guest_step.step)
    then show ?thesis by simp
  next
    case (further i rest)
    show ?thesis
    proof (cases rest)
      case Nil
      with further prems have "guest_step st (pc, s) (npc, s')" by (auto intro: guest_step.step)
      then show ?thesis by simp
    next
      case nxt: (Cons nxt others)
      from nxt further prems(3) obtain pc1 s1 where e: "rv_exec (accessible st) inst s = Some (pc1, s1)"
        and a: "pc1 = address nxt" and r: "rv_run (accessible st) rest s1 = Some (npc, s')"
        by (auto split: option.splits prod.splits if_splits)
      have "address nxt = pc + 4" using decodeLoop_shape [OF further(3)] nxt by auto
      with a e further prems(2) have 1: "guest_step st (pc, s) (pc + 4, s1)" by (auto intro: guest_step.step)
      have "unat (pc - textBaseAddress st) + 4 < 2 ^ 64"
        using decode_Inr(2) [OF further(1)] prems(2) assms(4) by linarith
      then have "offset + 4 = unat (pc + 4 - textBaseAddress st)"
        unfolding prems(2) add_diff_eq [symmetric] using unat_add_small [of "pc - textBaseAddress st" 4] by (simp add: algebra_simps)
      with IH [of "offset + 4" "pc + 4" s1] further r have "(guest_step st)\<^sup>+\<^sup>+ (pc + 4, s1) (npc, s')" by simp
      with 1 show ?thesis by (rule tranclp_into_tranclp2)
    qed
  qed simp
qed

lemma block_steps:
  assumes "decodeBlock st pc = Inr insts" and "rv_run (accessible st) insts s = Some (npc, s')"
    and "length (textSectionData st) < 2 ^ 64 - 4"
  shows "(guest_step st)\<^sup>+\<^sup>+ (pc, s) (npc, s')"
  using assms by (intro decodeLoop_steps [OF _ refl]) (auto simp: decodeBlock_def elim!: bindR_InrE split: if_splits)

subsection \<open>Blocks\<close>

text \<open>\<open>guest_blocks p st n pc s s'\<close>: \<open>n\<close> blocks lead from \<open>pc\<close> to program counter 0.\<close>

inductive guest_blocks :: "platform \<Rightarrow> translator \<Rightarrow> nat \<Rightarrow> u64 \<Rightarrow> rv_state \<Rightarrow> rv_state \<Rightarrow> bool" for p st where
  finish: "decodeBlock st pc = Inr insts \<Longrightarrow> translatable p insts \<Longrightarrow> rv_run (accessible st) insts s = Some (0, s') \<Longrightarrow>
    guest_blocks p st 1 pc s s'"
| follow: "decodeBlock st pc = Inr insts \<Longrightarrow> translatable p insts \<Longrightarrow> rv_run (accessible st) insts s = Some (npc, s1) \<Longrightarrow>
    npc \<noteq> 0 \<Longrightarrow> \<not> is_ret (last insts) \<Longrightarrow> guest_blocks p st n npc s1 s' \<Longrightarrow> guest_blocks p st (Suc n) pc s s'"

lemma guest_blocks_steps:
  assumes "guest_blocks p st n pc s s'" and "length (textSectionData st) < 2 ^ 64 - 4"
  shows "(guest_step st)\<^sup>+\<^sup>+ (pc, s) (0, s')"
  using assms(1)
proof induction
  case (finish pc insts s s')
  then show ?case using assms(2) by (intro block_steps)
next
  case (follow pc insts s npc s1 n s')
  then show ?case using block_steps [OF follow(1,3) assms(2)] by (auto intro: tranclp_trans)
qed

lemma represents_pc [simp]: "represents (st\<lparr>guestState := (guestState st)\<lparr>gs_pc := pc\<rparr>\<rparr>) s \<longleftrightarrow> represents st s"
  by (simp add: represents_def guest_area_def wf_guest_def guest_reg_def)

lemma same_context_regs:
  assumes "same_context st0 st" and "gs = (guestState st)\<lparr>gs_x := xs\<rparr>"
  shows "same_context st0 (st\<lparr>guestState := gs, hostMemory := m\<rparr>)"
  using assms by (simp add: same_context_def)

text \<open>
  What the dispatch loop relies on of the execution of a block: \<open>holds st s\<close> relates the translator to the state of
  the guest, \<open>block\<close> is a step of the guest by a block from a program counter other than 0, and a translator
  that holds the state before such a step executes the block and holds the state after it. The loop then follows
  the guest, whether it reaches program counter 0 or not.
\<close>

locale block_loop =
  fixes run_block :: "u64 \<Rightarrow> 't \<Rightarrow> 'e + u64 \<times> 't" and loop :: "nat \<Rightarrow> u64 \<Rightarrow> 't \<Rightarrow> 'e + 't"
    and holds :: "'t \<Rightarrow> 's \<Rightarrow> bool" and block :: "u64 \<times> 's \<Rightarrow> u64 \<times> 's \<Rightarrow> bool"
  assumes loop_0: "loop 0 pc st = Inr st"
    and loop_Suc: "loop (Suc k) pc st =
      (if pc = 0 then Inr st else bindR (run_block pc st) (\<lambda>(npc, st'). if npc = 0 then Inr st' else loop k npc st'))"
    and block_from: "block (pc, s) c \<Longrightarrow> pc \<noteq> 0"
    and block_run: "block (pc, s) (npc, s') \<Longrightarrow> holds st s \<Longrightarrow> \<exists>st'. run_block pc st = Inr (npc, st') \<and> holds st' s'"
begin

lemma loop_zero: "loop k 0 st = Inr st"
  by (cases k) (simp_all add: loop_0 loop_Suc)

lemma loop_block:
  assumes "block (pc, s) (npc, s')" and "holds st s"
  shows "\<exists>st'. loop (Suc k) pc st = loop k npc st' \<and> holds st' s'"
  using block_run [OF assms] block_from [OF assms(1)] by (auto simp: loop_Suc loop_zero)

lemma loop_follows:
  assumes "(block ^^ n) (pc, s) (0, s')" and "holds st s" and "n \<le> k"
  shows "\<exists>st'. loop k pc st = Inr st' \<and> holds st' s'"
  using assms
proof (induction n arbitrary: pc s st k)
  case 0
  then show ?case by (auto simp: loop_zero)
next
  case (Suc n)
  then obtain j where k: "k = Suc j" "n \<le> j" by (cases k) auto
  from relpowp_Suc_D2 [OF Suc.prems(1)] obtain npc s1 where "block (pc, s) (npc, s1)" "(block ^^ n) (npc, s1) (0, s')" by auto
  with loop_block [of pc s npc s1 st j] Suc.IH [of npc s1 _ j] Suc.prems(2) k show ?case by auto
qed

lemma loop_forever:
  assumes "block (pc, s) (pc, s)" and "holds st s"
  shows "\<exists>st'. loop k pc st = Inr st' \<and> holds st' s"
  using assms(2)
proof (induction k arbitrary: st)
  case 0
  then show ?case by (auto simp: loop_0)
next
  case (Suc k)
  from loop_block [OF assms(1) Suc.prems, of k] Suc.IH show ?case by auto
qed

end

text \<open>The loop of the translator, on the blocks it handles.\<close>

definition held :: "platform \<Rightarrow> translator \<Rightarrow> translator \<Rightarrow> rv_state \<Rightarrow> bool" where
  "held p st0 st s \<longleftrightarrow> platform_ok p (data_area st0) \<and> same_context st0 st \<and> represents st s"

inductive guest_block :: "platform \<Rightarrow> translator \<Rightarrow> u64 \<times> rv_state \<Rightarrow> u64 \<times> rv_state \<Rightarrow> bool" for p st where
  block: "pc \<noteq> 0 \<Longrightarrow> decodeBlock st pc = Inr insts \<Longrightarrow> translatable p insts \<Longrightarrow> rv_run (accessible st) insts s = Some (npc, s') \<Longrightarrow>
    guest_block p st (pc, s) (if is_ret (last insts) then 0 else npc, s')"

inductive_cases guest_blockE: "guest_block p st (pc, s) c"

interpretation disp: block_loop "\<lambda>pc st. executeBlock p pc (st\<lparr>guestState := (guestState st)\<lparr>gs_pc := pc\<rparr>\<rparr>)" "dispatch p"
  "held p st0" "guest_block p st0" for p st0
proof
  show "dispatch p 0 pc st = Inr st" for pc st by simp
  show "dispatch p (Suc k) pc st = (if pc = 0 then Inr st
      else bindR (executeBlock p pc (st\<lparr>guestState := (guestState st)\<lparr>gs_pc := pc\<rparr>\<rparr>))
        (\<lambda>(npc, st'). if npc = 0 then Inr st' else dispatch p k npc st'))" for k pc st
    by (simp add: Let_def)
  show "guest_block p st0 (pc, s) c \<Longrightarrow> pc \<noteq> 0" for pc s c by (auto elim: guest_blockE)
  fix pc npc s s' and st :: translator
  let ?st = "st\<lparr>guestState := (guestState st)\<lparr>gs_pc := pc\<rparr>\<rparr>"
  assume b: "guest_block p st0 (pc, s) (npc, s')" and h: "held p st0 st s"
  then obtain insts npc' where i: "decodeBlock st0 pc = Inr insts" "translatable p insts"
    "rv_run (accessible st0) insts s = Some (npc', s')" "npc = (if is_ret (last insts) then 0 else npc')"
    by (auto elim!: guest_blockE)
  have c: "same_context st0 ?st" using h by (simp add: held_def same_context_def)
  note q = same_context_eqs [OF c]
  have "platform_ok p (data_area ?st)" "represents ?st s" using h q(3) by (simp_all add: held_def)
  from executeBlock_sim [OF this i(1) [folded q(1)] i(2) i(3) [folded q(2)], folded i(4)] obtain gs m where
    e: "executeBlock p pc ?st = Inr (npc, ?st\<lparr>guestState := gs, hostMemory := m\<rparr>)"
      "represents (?st\<lparr>guestState := gs, hostMemory := m\<rparr>) s'"
    and g: "gs = (guestState ?st)\<lparr>gs_x := gs_x gs\<rparr>" by blast
  from same_context_regs [OF c g] e h show "\<exists>st'. executeBlock p pc ?st = Inr (npc, st') \<and> held p st0 st' s'"
    unfolding held_def by blast
qed

lemma guest_blocks_chain:
  assumes "guest_blocks p st n pc s s'" and "pc \<noteq> 0"
  shows "(guest_block p st ^^ n) (pc, s) (0, s')"
  using assms
proof induction
  case (finish pc insts s s')
  from guest_block.block [OF finish(4,1,2,3)] show ?case by (simp add: OO_def split: if_splits)
next
  case (follow pc insts s npc s1 n s')
  with guest_block.block [OF follow(8,1,2,3)] show ?case by (auto intro: relpowp_Suc_I2 simp del: relpowp.simps)
qed

subsection \<open>A function\<close>

text \<open>The state of the guest when a function is entered: the return address is 0.\<close>

definition guest_start :: "translator \<Rightarrow> rv_state" where
  "guest_start st =
     \<lparr> rv_x = (\<lambda>r. if r = 1 then 0 else guest_reg (guestState st) r),
       rv_mem = (\<lambda>x. hostMemory st (x - guest_base st + shadow_base st)) \<rparr>"

lemma unat_eq_1: "Suc 0 = unat (r :: u32) \<longleftrightarrow> r = 1"
  by (metis One_nat_def unsigned_1 word_unat_eq_iff)

lemma represents_start:
  assumes "wf_guest (guestState st)"
  shows "represents (st\<lparr>guestState := (guestState st)\<lparr>gs_pc := pc, gs_x := (gs_x (guestState st))[1 := 0]\<rparr>\<rparr>) (guest_start st)"
  using assms
  by (auto simp: represents_def guest_start_def guest_area_def wf_guest_def guest_reg_def nth_list_update
    word_less_nat_alt unat_eq_1)

lemma represents_result: "represents st s \<Longrightarrow> gs_x (guestState st) ! 10 = rv_x s 10"
  by (auto simp: represents_def guest_reg_def wf_guest_def dest!: spec [of _ 10])

lemma executeFunction_sim:
  assumes "loadRISCVBinary p inputPath st = Inr st1" and "getFunctionAddress f (elfReader st1) = Some addr" and "addr \<noteq> 0"
    and "wf_guest (guestState st1)" and "platform_ok p (data_area st1)"
    and "guest_blocks p st1 n addr (guest_start st1) s'" and "n \<le> MAX_EXECUTION_BLOCKS"
  shows "\<exists>st'. executeFunction p inputPath f st = Inr (ucast (rv_x s' 10), st') \<and> represents st' s' \<and> same_context st1 st'"
proof -
  let ?st = "st1\<lparr>guestState := (guestState st1)\<lparr>gs_pc := addr, gs_x := (gs_x (guestState st1))[1 := 0]\<rparr>\<rparr>"
  have "held p st1 ?st (guest_start st1)"
    using assms(5) represents_start [OF assms(4)] by (simp add: held_def same_context_def)
  from disp.loop_follows [OF guest_blocks_chain [OF assms(6,3)] this assms(7)] obtain st' where
    d: "dispatch p MAX_EXECUTION_BLOCKS addr ?st = Inr st'" "represents st' s'" "same_context st1 st'" by (auto simp: held_def)
  from d(1) have "executeFunction p inputPath f st = Inr (getReturnValue st', st')"
    by (simp add: executeFunction_def assms(1,2) Let_def)
  with d(2,3) represents_result [OF d(2)] show ?thesis by (simp add: getReturnValue_def)
qed

end
