(* ===== verification/DinoRISCMain.thy ===== *)
theory DinoRISCMain
  imports BinaryTranslator
begin

text \<open>
  \<open>tools/dinorisc/DinoRISCMain.cpp\<close>: the command line. \<open>main\<close> returns the exit code with what it has
  written last to the standard output and to the standard error stream; an exception outside
  \<open>dinorisc::Error\<close> ends the process (\<open>Terminated\<close>). Without any argument, not even the name of the
  program, \<open>argv[0]\<close> is a null pointer, and printing it is \<open>Undefined\<close>. \<open>stoull\<close> is the conversion of the C++ library
  with base ten: leading white space, an optional sign, digits as long as there are some; a
  negative number wraps around, a number of more than 64 bits is \<open>std::out_of_range\<close>.
\<close>

definition is_space :: "char \<Rightarrow> bool" where
  "is_space c \<longleftrightarrow> c \<in> {CHR '' '', CHR 0x09, CHR 0x0A, CHR 0x0B, CHR 0x0C, CHR 0x0D}"

definition digit_value :: "char \<Rightarrow> nat option" where
  "digit_value c = (let n = of_char c :: nat in if 48 \<le> n \<and> n \<le> 57 then Some (n - 48) else None)"

fun digits_value :: "nat \<Rightarrow> string \<Rightarrow> nat" where
  "digits_value acc [] = acc"
| "digits_value acc (c # cs) = (case digit_value c of Some d \<Rightarrow> digits_value (10 * acc + d) cs | None \<Rightarrow> acc)"

definition parse_sign :: "string \<Rightarrow> bool \<times> string" where
  "parse_sign s =
     (case s of
        [] \<Rightarrow> (False, [])
      | c # cs \<Rightarrow> if c = CHR ''-'' then (True, cs) else if c = CHR ''+'' then (False, cs) else (False, s))"

definition stoull :: "string \<Rightarrow> u64 option" where
  "stoull s =
     (let (neg, ds) = parse_sign (dropWhile is_space s)
      in case ds of
           [] \<Rightarrow> None
         | c # _ \<Rightarrow>
             (if digit_value c = None then None
              else let n = digits_value 0 ds
                   in if n \<ge> 2 ^ 64 then None else Some (if neg then - of_nat n else of_nat n)))"

fun what :: "error \<Rightarrow> string" where
  "what (ELFError m) = m"
| "what (DecodingError m) = m"
| "what (UnsupportedInstructionError m) = m"
| "what (EncodingError m) = m"
| "what (LoweringError m) = m"
| "what (RuntimeError m) = m"
| "what BadVariantAccess = ''std::bad_variant_access''"
| "what OutOfBounds = []"
| "what HostTrap = []"

datatype exit_status = Exited nat string string | Terminated error | Undefined

definition newline :: string where "newline = [CHR 0x0A]"

definition quote :: string where "quote = [CHR 0x27]"

definition printUsage :: "string \<Rightarrow> string" where
  "printUsage programName =
     ''Usage: '' @ programName @ '' <riscv_binary> <function_name> [arg1] [arg2] ...'' @ newline @
     ''Executes RISC-V 64-bit binaries using dynamic binary translation'' @ newline @
     ''Arguments are passed to the function as integer parameters (max 8)'' @ newline"

text \<open>The argument loop: at most eight arguments are read, the first bad one ends it.\<close>

fun parseArguments :: "string list \<Rightarrow> u64 list \<Rightarrow> string + u64 list" where
  "parseArguments [] functionArgs = Inr functionArgs"
| "parseArguments (a # rest) functionArgs =
     (if length functionArgs < 8 then
        (case stoull a of
           Some arg \<Rightarrow> parseArguments rest (functionArgs @ [arg])
         | None \<Rightarrow> Inl a)
      else Inr functionArgs)"

definition runTranslator :: "platform \<Rightarrow> u64 \<Rightarrow> mem \<Rightarrow> string \<Rightarrow> string \<Rightarrow> u64 list \<Rightarrow> i32 result" where
  "runTranslator p g m inputPath functionName functionArgs =
     bindR (BinaryTranslator_init p g m) (\<lambda>st.
     bindR (executeFunction p inputPath functionName (setArgumentRegisters functionArgs st)) (\<lambda>(r, _). Inr r))"

text \<open>What follows the call: the result is printed, an exception of the program is reported.\<close>

definition reportResult :: "string \<Rightarrow> i32 result \<Rightarrow> exit_status" where
  "reportResult functionName r =
     (case r of
        Inr functionResult \<Rightarrow>
          Exited 0 (''Function '' @ functionName @ '' returned: '' @ int_string (sint functionResult) @ newline) []
      | Inl e \<Rightarrow> if is_dinorisc_error e then Exited 1 [] (''Error: '' @ what e @ newline) else Terminated e)"

definition invalidArgument :: "string \<Rightarrow> exit_status" where
  "invalidArgument a = Exited 1 [] (''Error: Invalid argument '' @ quote @ a @ quote @ ''. Arguments must be integers.'' @ newline)"

fun main :: "platform \<Rightarrow> u64 \<Rightarrow> mem \<Rightarrow> string list \<Rightarrow> exit_status" where
  "main p g m (programName # inputPath # functionName # args) =
     (case parseArguments args [] of
        Inl a \<Rightarrow> invalidArgument a
      | Inr functionArgs \<Rightarrow>
          reportResult functionName (runTranslator p g m inputPath functionName functionArgs))"
| "main p g m (programName # _) = Exited 1 (printUsage programName) []"
| "main p g m [] = Undefined"

subsection \<open>Reading numbers\<close>

lemma digit_values: "list_all (\<lambda>d. digit_value (digit_char d) = Some d \<and> \<not> is_space (digit_char d) \<and>
    digit_char d \<noteq> CHR ''-'' \<and> digit_char d \<noteq> CHR ''+'') [0..<10]"
  by code_simp

lemma digit_value_digit_char:
  assumes "d < 10"
  shows "digit_value (digit_char d) = Some d" "\<not> is_space (digit_char d)" "digit_char d \<noteq> CHR ''-''" "digit_char d \<noteq> CHR ''+''"
  using digit_values assms by (auto simp: list_all_iff)

lemma digits_value_snoc:
  "list_all (\<lambda>c. digit_value c \<noteq> None) ds \<Longrightarrow> d < 10 \<Longrightarrow> digits_value acc (ds @ [digit_char d]) = 10 * digits_value acc ds + d"
  by (induction ds arbitrary: acc) (auto simp: digit_value_digit_char(1))

lemma dec_string_digits:
  "digits_value 0 (dec_string n) = n \<and> list_all (\<lambda>c. digit_value c \<noteq> None) (dec_string n) \<and>
   (\<exists>d ds. d < 10 \<and> dec_string n = digit_char d # ds)"
proof (induction n rule: less_induct)
  case (less n)
  show ?case
  proof (cases "n < 10")
    case True
    then show ?thesis by (auto simp: dec_string_def to_base.simps [of 10 n] digit_value_digit_char(1))
  next
    case False
    then have "dec_string n = dec_string (n div 10) @ [digit_char (n mod 10)]"
      by (simp add: dec_string_def to_base.simps [of 10 n])
    with less [of "n div 10"] False show ?thesis
      by (auto simp: digits_value_snoc digit_value_digit_char(1))
  qed
qed

lemma stoull_dec_string:
  assumes "n < 2 ^ 64"
  shows "stoull (dec_string n) = Some (of_nat n)" and "stoull (CHR ''-'' # dec_string n) = Some (- of_nat n)"
proof -
  from dec_string_digits [of n] obtain d ds where d: "d < 10" "dec_string n = digit_char d # ds" "digits_value 0 (dec_string n) = n"
    by auto
  then have p: "parse_sign (dropWhile is_space (dec_string n)) = (False, dec_string n)"
    by (simp add: parse_sign_def digit_value_digit_char)
  show "stoull (dec_string n) = Some (of_nat n)"
    using assms d(1,3) unfolding stoull_def p by (simp add: d(2) digit_value_digit_char(1))
  have "parse_sign (dropWhile is_space (CHR ''-'' # dec_string n)) = (True, dec_string n)"
    by (simp add: parse_sign_def is_space_def)
  then show "stoull (CHR ''-'' # dec_string n) = Some (- of_nat n)"
    using assms d(1,3) by (simp add: stoull_def d(2) digit_value_digit_char(1))
qed

lemma stoull_int_string:
  assumes "- (2 ^ 64) < i" and "i < 2 ^ 64"
  shows "stoull (int_string i) = Some (word_of_int i)"
proof (cases "i < 0")
  case True
  with assms have "nat (- i) < 2 ^ 64" by (simp add: nat_less_iff)
  with True stoull_dec_string(2) [OF this] show ?thesis by (simp add: int_string_def)
next
  case False
  with assms have "nat i < 2 ^ 64" by (simp add: nat_less_iff)
  with False stoull_dec_string(1) [OF this] show ?thesis by (simp add: int_string_def)
qed

subsection \<open>The arguments\<close>

text \<open>The argument loop reads as many arguments as fit into the eight argument registers.\<close>

lemma parseArguments_take:
  assumes "length vals \<le> 8"
  shows "parseArguments args vals =
    (case find (\<lambda>a. stoull a = None) (take (8 - length vals) args) of
       Some a \<Rightarrow> Inl a
     | None \<Rightarrow> Inr (vals @ map (the \<circ> stoull) (take (8 - length vals) args)))"
  using assms
proof (induction args arbitrary: vals)
  case Nil
  then show ?case by simp
next
  case (Cons a args)
  show ?case
  proof (cases "length vals < 8")
    case True
    then have "take (8 - length vals) (a # args) = a # take (8 - Suc (length vals)) args"
      by (simp add: take_Cons' Suc_diff_Suc)
    with Cons.IH [of "vals @ [_]"] True show ?thesis by (simp split: option.split)
  qed (use Cons.prems in simp)
qed

lemma parseArguments_printed:
  assumes "\<forall>i \<in> set (take 8 is). - (2 ^ 64) < i \<and> i < 2 ^ 64"
  shows "parseArguments (map int_string is) [] = Inr (map word_of_int (take 8 is))"
proof -
  have s: "stoull (int_string i) = Some (word_of_int i)" if "i \<in> set (take 8 is)" for i
    using that assms stoull_int_string by blast
  then have "find (\<lambda>a. stoull a = None) (map int_string (take 8 is)) = None" by (auto simp: find_None_iff)
  moreover have "map (the \<circ> stoull \<circ> int_string) (take 8 is) = map word_of_int (take 8 is)"
    by (rule map_cong [OF refl]) (simp add: s)
  ultimately show ?thesis by (simp add: parseArguments_take take_map del: find_None_iff)
qed


end
