(* ===== verification/TranslatorSafety.thy ===== *)
theory TranslatorSafety
  imports DispatcherCorrect DinoRISCMain
begin

text \<open>
  What holds of the translator without any assumption on the platform: which exceptions its stages can throw,
  that a block is decoded from the text section only, and what the dispatch loop does as a sequence of steps.
  Guest stores that overwrite the objects of the translator are outside the model (see \<open>BinaryTranslator\<close>).
\<close>

subsection \<open>Exceptions\<close>

definition throws_only :: "('e \<Rightarrow> bool) \<Rightarrow> 'e + 'a \<Rightarrow> bool" where
  "throws_only P m \<longleftrightarrow> (\<forall>e. m = Inl e \<longrightarrow> P e)"

named_theorems throws

lemma throws_only_Inr [simp]: "throws_only P (Inr x)"
  by (simp add: throws_only_def)

lemma throws_only_Inl [simp]: "throws_only P (Inl e) \<longleftrightarrow> P e"
  by (simp add: throws_only_def)

lemma throws_only_bind [throws]:
  "throws_only P m \<Longrightarrow> (\<And>x. throws_only P (f x)) \<Longrightarrow> throws_only P (bindR m f)"
  by (cases m) auto

lemma throws_only_bind_Inr: "throws_only P m \<Longrightarrow> (\<And>x. m = Inr x \<Longrightarrow> throws_only P (f x)) \<Longrightarrow> throws_only P (bindR m f)"
  by (cases m) auto

lemma throws_only_mapR [throws]: "(\<And>x. throws_only P (f x)) \<Longrightarrow> throws_only P (mapR f xs)"
  by (induction xs) (auto intro!: throws)

lemma throws_only_mono: "throws_only P m \<Longrightarrow> (\<And>e. P e \<Longrightarrow> Q e) \<Longrightarrow> throws_only Q m"
  by (simp add: throws_only_def)

fun is_lowering_error :: "error \<Rightarrow> bool" where
  "is_lowering_error (LoweringError m) = True"
| "is_lowering_error _ = False"

fun is_encoding_error :: "error \<Rightarrow> bool" where
  "is_encoding_error (EncodingError m) = True"
| "is_encoding_error _ = False"

lemma getVirtualRegisterOrThrow_throws [throws]: "throws_only is_lowering_error (getVirtualRegisterOrThrow v st)"
  by (simp add: getVirtualRegisterOrThrow_def split: option.splits)

lemma irBinaryOpToARM64_throws [throws]: "throws_only is_lowering_error (irBinaryOpToARM64 opc)"
  by (simp add: irBinaryOpToARM64_def split: binary_opcode.splits)

lemma selectInstruction_throws [throws]: "throws_only is_lowering_error (selectInstruction inst st)"
  by (auto simp: selectInstruction_def selectBinaryOp_def selectLoad_def selectStore_def selectSext_def selectZext_def
    selectTrunc_def selectRegWrite_def single_def Let_def split_def split: ir_kind.splits option.splits intro!: throws)

lemma selectLoop_throws [throws]: "throws_only is_lowering_error (selectLoop insts st)"
  by (induction insts arbitrary: st) (auto simp: split_def intro!: throws)

lemma selectTerminator_throws [throws]: "throws_only is_lowering_error (selectTerminator trm st)"
  by (auto simp: selectTerminator_def selectCondBranch_def Let_def split_def split: terminator_kind.splits option.splits
    intro!: throws)

lemma selectInstructions_throws [throws]: "throws_only is_lowering_error (selectInstructions blk st)"
  by (auto simp: selectInstructions_def split_def intro!: throws)

lemma replaceOperandRegister_throws [throws]: "throws_only is_lowering_error (replaceOperandRegister op st)"
  by (cases op) (auto simp: getPhysicalRegisterOrThrow_def intro!: throws split: option.splits)

lemma replaceVirtualRegisters_throws [throws]: "throws_only is_lowering_error (replaceVirtualRegisters inst st)"
  by (cases inst) (auto intro!: throws)

lemma allocateRegisters_throws [throws]: "throws_only is_lowering_error (allocateRegisters insts intervals)"
  by (auto simp: allocateRegisters_def Let_def split_def intro!: throws)

lemma translateToARM64_throws: "throws_only is_lowering_error (translateToARM64 p blk)"
  by (auto simp: translateToARM64_def Let_def split_def intro!: throws)

lemma encodeRegister_throws [throws]: "throws_only is_encoding_error (encodeRegister op)"
  by (cases op) simp_all

lemma encodeAddSubImmediate_throws [throws]: "throws_only is_encoding_error (encodeAddSubImmediate msg pat sf i rn rd)"
  by (simp add: encodeAddSubImmediate_def Let_def)

lemma encodeMoveImmediate_throws [throws]: "throws_only is_encoding_error (encodeMoveImmediate msg pat sf i rd)"
  by (simp add: encodeMoveImmediate_def Let_def)

lemma encodeMemoryForms_throws [throws]: "throws_only is_encoding_error (encodeMemoryForms l r pat ix sz off rn rt)"
  by (simp add: encodeMemoryForms_def Let_def)

lemma getConditionCode_throws [throws]: "throws_only is_encoding_error (getConditionCode opc)"
  by (cases opc) (simp_all add: getConditionCode_def)

lemma throws_only_if [throws]: "throws_only P a \<Longrightarrow> throws_only P b \<Longrightarrow> throws_only P (if c then a else b)"
  by simp

lemma encodeThree_throws [throws]: "throws_only is_encoding_error (encodeThreeOperandInst opc sz d s1 s2)"
  unfolding three_operand_defs Let_def by (cases opc) (auto simp del: bindR_simps intro!: throws)

lemma encodeTwo_throws [throws]: "throws_only is_encoding_error (encodeTwoOperandInst opc sz d s)"
  unfolding encodeTwoOperandInst_def Let_def by (cases opc) (auto simp del: bindR_simps intro!: throws)

lemma encodeMemory_throws [throws]: "throws_only is_encoding_error (encodeMemoryInst opc sz r b off)"
  unfolding encodeMemoryInst_def Let_def by (cases opc) (auto intro!: throws)

lemma encodeRest_throws [throws]:
  "throws_only is_encoding_error (encodeMoveWideInst opc sz d imm16 sh)"
  "throws_only is_encoding_error (encodeBranchInst opc target)"
  "throws_only is_encoding_error (encodeConditionalInst opc sz d c)"
  "throws_only is_encoding_error (encodeConditionalSelectInst opc sz d s1 s2 c)"
  unfolding encodeMoveWideInst_def encodeBranchInst_def encodeConditionalInst_def encodeConditionalSelectInst_def Let_def
  by (cases opc; auto intro!: throws)+

lemma encodeInstruction_throws [throws]: "throws_only is_encoding_error (encodeInstruction inst)"
  unfolding encodeInstruction_def by (cases inst) (auto intro!: throws)

lemma encodeBlock_throws: "throws_only is_encoding_error (encodeBlock code)"
  unfolding encodeBlock_def Let_def by (auto intro!: throws)

subsection \<open>Decoding and lifting\<close>

lemma decode_Inl:
  assumes "decode data offset pc = Inl e"
  shows "(\<exists>m. e = DecodingError m) \<or> e = OutOfBounds \<and> length data < offset + 4"
  using decode_outcome [of data offset pc] assms by auto

lemma decodeLoop_Inl:
  assumes "decodeLoop data offset pc = Inl e"
  shows "(\<exists>m. e = DecodingError m) \<or> e = OutOfBounds \<and> (length data - offset) mod 4 \<noteq> 0"
  using assms
proof (induction data offset pc rule: decodeLoop.induct)
  case (1 data offset pc)
  have o: "offset < length data" using 1(2) by (subst (asm) decodeLoop.simps) (auto split: if_splits)
  show ?case
  proof (cases "decode data offset pc")
    case (Inl e')
    with 1(2) o have "e' = e" by (subst (asm) decodeLoop.simps) simp
    with decode_Inl [OF Inl] o show ?thesis by auto
  next
    case (Inr inst)
    show ?thesis
    proof (cases "isValid inst \<and> \<not> isTerminator inst")
      case True
      with 1(2) o Inr have "decodeLoop data (offset + 4) (pc + 4) = Inl e"
        by (subst (asm) decodeLoop.simps) (auto simp: bindR_Inl_iff)
      with 1(1) [OF o Inr] True have "(\<exists>m. e = DecodingError m) \<or> e = OutOfBounds \<and> (length data - (offset + 4)) mod 4 \<noteq> 0" by auto
      moreover have "(length data - offset) mod 4 = (length data - (offset + 4)) mod 4"
        using decode_Inr(2) [OF Inr] le_mod_geq [of 4 "length data - offset"] by simp
      ultimately show ?thesis by simp
    next
      case False
      with 1(2) o Inr show ?thesis by (subst (asm) decodeLoop.simps) (auto split: if_splits)
    qed
  qed
qed

lemma decodeBlock_Inl:
  assumes "decodeBlock st pc = Inl e"
  shows "is_dinorisc_error e \<or> e = OutOfBounds \<and> (length (textSectionData st) - unat (pc - textBaseAddress st)) mod 4 \<noteq> 0"
  using assms
  by (auto simp: decodeBlock_def bindR_Inl_iff split: if_splits dest!: decodeLoop_Inl)

lemma decodeBlock_shaped: "decodeBlock st pc = Inr insts \<Longrightarrow> block_shaped insts"
  using decodeBlock_shape(2,3) by (simp add: block_shaped_def)

lemma unsupported_caught [simp]: "is_dinorisc_error (unsupported i)"
  by (simp add: unsupported_def)

lemma translateBlock_Inl:
  assumes "translateBlock p st pc = Inl e"
  shows "is_dinorisc_error e \<or> e = OutOfBounds \<and> (length (textSectionData st) - unat (pc - textBaseAddress st)) mod 4 \<noteq> 0"
proof -
  have 1: "is_lowering_error e \<Longrightarrow> is_dinorisc_error e" "is_encoding_error e \<Longrightarrow> is_dinorisc_error e"
    by (cases e; simp)+
  have "translateToARM64 p blk = Inl e \<Longrightarrow> is_dinorisc_error e" "encodeBlock code = Inl e \<Longrightarrow> is_dinorisc_error e" for blk code
    using translateToARM64_throws [of p blk] encodeBlock_throws [of code] 1 by (auto simp: throws_only_def)
  moreover have "is_dinorisc_error e"
    if "decodeBlock st pc = Inr insts" "liftBasicBlock (registerOrder p) insts Lifter_init = Inl e" for insts
    using liftBasicBlock_outcome [OF decodeBlock_shaped [OF that(1)], of "registerOrder p" Lifter_init] that(2) by auto
  ultimately show ?thesis
    using assms decodeBlock_Inl [of st pc e] by (auto simp: translateBlock_def bindR_Inl_iff split: prod.splits)
qed

lemma executeBlock_throws:
  "throws_only (\<lambda>e. is_dinorisc_error e \<or> e = OutOfBounds \<or> e = HostTrap) (executeBlock p pc st)"
  unfolding executeBlock_def Let_def
  by (intro throws_only_bind)
     (auto simp: throws_only_def executeMachineCode_def Let_def split: option.splits if_splits dest: translateBlock_Inl)

lemma dispatch_throws:
  "throws_only (\<lambda>e. is_dinorisc_error e \<or> e = OutOfBounds \<or> e = HostTrap) (dispatch p k pc st)"
  by (induction p k pc st rule: dispatch.induct) (auto simp: Let_def intro!: throws_only_bind_Inr executeBlock_throws)

subsection \<open>The dispatch loop as steps\<close>

inductive dispatch_step :: "platform \<Rightarrow> u64 \<times> translator \<Rightarrow> u64 \<times> translator \<Rightarrow> bool" for p where
  block: "pc \<noteq> 0 \<Longrightarrow> executeBlock p pc (st\<lparr>guestState := (guestState st)\<lparr>gs_pc := pc\<rparr>\<rparr>) = Inr (npc, st') \<Longrightarrow>
    dispatch_step p (pc, st) (npc, st')"

inductive_simps dispatch_step_simps: "dispatch_step p (pc, st) (npc, st')"

lemma dispatch_zero [simp]: "dispatch p k 0 st = Inr st"
  by (cases k) simp_all

lemma dispatch_Suc:
  "dispatch p (Suc k) pc st = Inr st' \<longleftrightarrow>
     (if pc = 0 then st' = st else \<exists>npc st1. dispatch_step p (pc, st) (npc, st1) \<and> dispatch p k npc st1 = Inr st')"
  by (cases "executeBlock p pc (st\<lparr>guestState := (guestState st)\<lparr>gs_pc := pc\<rparr>\<rparr>)") (auto simp: Let_def dispatch_step_simps split: if_splits)

lemma dispatch_steps_iff:
  "dispatch p k pc st = Inr st' \<longleftrightarrow>
     (\<exists>n pc'. n \<le> k \<and> (dispatch_step p ^^ n) (pc, st) (pc', st') \<and> (pc' = 0 \<or> n = k))"
proof (induction k arbitrary: pc st)
  case 0
  then show ?case by auto
next
  case (Suc k)
  have none: "\<not> dispatch_step p (0, st) c" for st c by (cases c) (simp add: dispatch_step_simps)
  have z: "(dispatch_step p ^^ n) (0, st) (pc', st') \<longleftrightarrow> n = 0 \<and> pc' = 0 \<and> st' = st" for n pc'
  proof (cases n)
    case (Suc j)
    with none show ?thesis by (auto simp del: relpowp.simps dest!: relpowp_Suc_D2)
  qed auto
  show ?case
  proof (cases "pc = 0")
    case True
    then show ?thesis by (auto simp: z)
  next
    case False
    have "dispatch p (Suc k) pc st = Inr st' \<longleftrightarrow>
        (\<exists>c n pc'. dispatch_step p (pc, st) c \<and> n \<le> k \<and> (dispatch_step p ^^ n) c (pc', st') \<and> (pc' = 0 \<or> n = k))"
      unfolding dispatch_Suc using False Suc.IH by auto
    also have "\<dots> \<longleftrightarrow> (\<exists>n pc'. n \<le> Suc k \<and> (dispatch_step p ^^ n) (pc, st) (pc', st') \<and> (pc' = 0 \<or> n = Suc k))" (is "?l \<longleftrightarrow> ?r")
    proof
      assume ?l
      then obtain c n pc' where "dispatch_step p (pc, st) c" "n \<le> k" "(dispatch_step p ^^ n) c (pc', st')" "pc' = 0 \<or> n = k" by blast
      then show ?r by (intro exI [of _ "Suc n"] exI [of _ pc']) (auto intro: relpowp_Suc_I2 simp del: relpowp.simps)
    next
      assume ?r
      then obtain n pc' where n: "n \<le> Suc k" "(dispatch_step p ^^ n) (pc, st) (pc', st')" "pc' = 0 \<or> n = Suc k" by blast
      show ?l
      proof (cases n)
        case 0
        with n False show ?thesis by simp
      next
        case (Suc j)
        with n(2) obtain c where "dispatch_step p (pc, st) c" "(dispatch_step p ^^ j) c (pc', st')" by (metis relpowp_Suc_D2)
        moreover have "j \<le> k" "pc' = 0 \<or> j = k" using n(1,3) Suc by auto
        ultimately show ?thesis by blast
      qed
    qed
    finally show ?thesis .
  qed
qed

subsection \<open>Construction and arguments\<close>

lemma wf_setArguments [simp]: "wf_guest gs \<Longrightarrow> wf_guest (setArguments i args gs)"
  by (induction i args gs rule: setArguments.induct) auto

lemma setArguments_other: "setArguments i args gs = gs\<lparr>gs_x := gs_x (setArguments i args gs)\<rparr>"
proof (induction i args gs rule: setArguments.induct)
  case (2 i a args gs)
  show ?case
  proof (cases "i < 8")
    case True
    let ?gs = "writeRegister (of_nat (10 + i)) a gs"
    have "gs\<lparr>gs_x := xs\<rparr> = ?gs\<lparr>gs_x := xs\<rparr>" for xs by (simp add: writeRegister_def)
    with 2 [OF True] True show ?thesis by simp
  qed simp
qed simp

lemma setArguments_nth:
  assumes "wf_guest gs" and "i \<le> 8" and "j < 32"
  shows "gs_x (setArguments i args gs) ! j =
    (if 10 + i \<le> j \<and> j < 10 + min 8 (i + length args) then args ! (j - (10 + i)) else gs_x gs ! j)"
  using assms(1,2)
proof (induction i args gs rule: setArguments.induct)
  case (1 i gs)
  then show ?case by auto
next
  case (2 i a args gs)
  show ?case
  proof (cases "i < 8")
    case True
    have "unat (of_nat (10 + i) :: u8) = 10 + i" using True by (intro unat_of_nat_small) simp
    then have "gs_x (writeRegister (of_nat (10 + i)) a gs) = (gs_x gs)[10 + i := a]"
      using True by (simp add: writeRegister_def word_le_nat_alt unat_eq_0 [symmetric] del: unat_eq_0)
    with 2 True assms(3) show ?thesis by (auto simp: nth_Cons' wf_guest_def)
  next
    case False
    with 2 show ?thesis by auto
  qed
qed

lemma BinaryTranslator_init_wf: "BinaryTranslator_init p g m = Inr st \<Longrightarrow> wf_guest (guestState st)"
  by (auto simp: BinaryTranslator_init_def initializeTranslator_def GuestState_init_def wf_guest_def Let_def split: option.splits)

lemma loadRISCVBinary_guest: "loadRISCVBinary p path st = Inr st' \<Longrightarrow> guestState st' = guestState st"
  by (auto simp: loadRISCVBinary_def bindR_Inr_iff)

lemma runTranslator_throws:
  "throws_only (\<lambda>e. is_dinorisc_error e \<or> e = OutOfBounds \<or> e = HostTrap) (runTranslator p g m inputPath f vals)"
proof -
  let ?caught = "\<lambda>e. is_dinorisc_error e \<or> e = OutOfBounds \<or> e = HostTrap"
  have "throws_only ?caught (BinaryTranslator_init p g m)"
    by (simp add: BinaryTranslator_init_def initializeTranslator_def Let_def split: option.splits)
  moreover have "throws_only ?caught (loadRISCVBinary p inputPath st)" for st
    by (auto simp: loadRISCVBinary_def throws_only_def bindR_Inl_iff dest!: loadFile_Inl)
  ultimately show ?thesis
    unfolding runTranslator_def executeFunction_def Let_def
    by (auto intro!: throws_only_bind dispatch_throws split: option.splits)
qed

end
