(* ===== verification/TranslationSucceeds.thy ===== *)
theory TranslationSucceeds
  imports TranslatorCorrect
begin

text \<open>
  When a block can be translated. The encoder has fewer opcodes than the selector knows (UXTB, UXTH, UDIV and
  SDIV are missing), the allocator has 28 registers and does not spill, and no register the host's calling
  convention preserves is saved. The lifter widens with zeros only words it has loaded and lifts no
  division, so the code of a lifted block has no opcode the encoder lacks, and lowering succeeds
  exactly when the linear scan finds registers. When at most 18 live intervals meet at any point, the registers are X1 to
  X18 and the code is one the execution engine can call.
\<close>

subsection \<open>The opcodes of the encoder\<close>

text \<open>The selector emits no \<open>BranchInst\<close>; all other forms have the opcodes of the encoder's case distinctions.\<close>

fun encoder_has :: "arm_instruction \<Rightarrow> bool" where
  "encoder_has (ThreeOperandInst opc sz d s1 s2) \<longleftrightarrow>
     opc \<in> {armADD, armSUB, armCMP, armAND, armORR, armEOR, armMUL, armLSL, armLSR, armASR}"
| "encoder_has (TwoOperandInst opc sz d s) \<longleftrightarrow>
     opc \<in> {armMOV, armSXTB, armSXTH, armSXTW, armRET, armMOVN, armCMP} \<and> (opc = armMOVN \<longrightarrow> isImmediate s)"
| "encoder_has (MemoryInst opc sz r b off) \<longleftrightarrow> opc \<in> {armLDR, armSTR}"
| "encoder_has (MoveWideInst opc sz d imm16 sh) \<longleftrightarrow> opc \<in> {armMOVZ, armMOVK}"
| "encoder_has (BranchInst opc target) \<longleftrightarrow> True"
| "encoder_has (ConditionalInst opc sz d c) \<longleftrightarrow> opc = armCSET"
| "encoder_has (ConditionalSelectInst opc sz d s1 s2 c) \<longleftrightarrow> opc = armCSEL"

lemma isImmediate_rename [simp]: "isImmediate (rename al op) \<longleftrightarrow> isImmediate op"
  by (cases op) (simp_all split: option.split)

lemma encoder_has_rename [simp]: "encoder_has (rename_inst al inst) \<longleftrightarrow> encoder_has inst"
  by (cases inst) simp_all

lemma encodeWord_has: "encodeWord inst = Inr w \<Longrightarrow> encoder_has inst"
  by (cases inst) (auto dest: encodeThree_Inr(4) encodeTwo_Inr(3,4) encodeMemory_Inr(3) encodeRest_Inr)

lemma rename_phys:
  assumes "usable al" and "plain_operand op" and "is_register op" and "set (vreg_list op) \<subseteq> dom al"
  shows "phys (rename al op)"
  using assms by (cases op) (auto simp: usable_def ran_def phys_def)

lemma rename_immediate: "imm_below n op \<Longrightarrow> rename al op = op"
  by (cases op) (auto simp: imm_below_def)

lemma renamed_encodable:
  assumes e: "emitted inst" and h: "encoder_has inst" and p: "plain inst" and al: "usable al" and d: "set (vregs inst) \<subseteq> dom al"
  shows "encodable (rename_inst al inst)"
proof (cases inst)
  case (TwoOperandInst opc sz a s)
  have "phys (rename al a)"
    by (rule rename_phys [OF al]) (use TwoOperandInst e p d in \<open>auto simp del: set_vreg_list\<close>)
  moreover have "phys (rename al s)" if "is_register s"
    by (rule rename_phys [OF al]) (use that TwoOperandInst e p d in \<open>auto simp del: set_vreg_list\<close>)
  ultimately show ?thesis using TwoOperandInst e h rename_immediate [of _ s al] register_not_immediate [of s] by auto
qed (use e h p d rename_phys [OF al] in \<open>auto simp: wide_shift_def simp del: set_vreg_list\<close>)

subsection \<open>Lowering\<close>

text \<open>The code of a block ends with the return.\<close>

lemma selectInstructions_nonempty:
  assumes "selectInstructions blk st = Inr (code, st')"
  shows "code \<noteq> []"
  using assms
  by (auto simp: selectInstructions_def selectTerminator_def selectCondBranch_def Let_def split_def
      elim!: bindR_InrE split: terminator_kind.splits option.splits)

lemma allocated_encodable:
  assumes sc: "scannable order sel" and al: "linear_scan order sel = Some al"
    and e: "list_all emitted sel" and h: "list_all encoder_has sel"
  shows "list_all encodable (map (rename_inst al) sel)"
proof -
  have "encodable (rename_inst al inst)" if "inst \<in> set sel" for inst
    by (rule renamed_encodable [OF _ _ _ ls.assign_usable [OF sc al] ls.assign_vregs [OF sc al that]])
       (use that e h ls.suitable_plain [OF sc] in \<open>auto simp: list_all_iff\<close>)
  then show ?thesis by (simp add: list_all_iff)
qed

lemma lowering_iff:
  assumes s: "selectInstructions blk InstructionSelector_init = Inr (sel, st)" and sc: "scannable (vregOrder p) sel"
    and e: "list_all emitted sel"
  shows "(\<exists>machineCode. bindR (translateToARM64 p blk) encodeBlock = Inr machineCode) \<longleftrightarrow>
    list_all encoder_has sel \<and> linear_scan (vregOrder p) sel \<noteq> None"
proof (cases "linear_scan (vregOrder p) sel")
  case None
  moreover have "visits_once (vregOrder p)" using sc by (simp add: scannable_def)
  ultimately obtain inst where i: "inst \<in> set sel" "vregs inst \<noteq> []" using linear_scan_None by blast
  have "translateToARM64 p blk = Inr sel" using translateToARM64_cases [OF s sc] None by simp
  with None i encodeBlock_words [of sel _ inst] encodeWord_allocated [of inst] show ?thesis by fastforce
next
  case (Some al)
  let ?code = "map (rename_inst al) sel"
  have tr: "translateToARM64 p blk = Inr ?code" using translateToARM64_cases [OF s sc] Some by simp
  have "list_all encoder_has sel" if "encodeBlock ?code = Inr bytes" for bytes
    using encodeBlock_words [OF that] encodeWord_has by (fastforce simp: list_all_iff)
  moreover have "\<exists>bytes. encodeBlock ?code = Inr bytes" if "list_all encoder_has sel"
    by (rule encodeBlock_encodable [OF allocated_encodable [OF sc Some e that]]) (simp add: selectInstructions_nonempty [OF s])
  ultimately show ?thesis using tr Some by auto
qed

text \<open>With the registers X1 to X18 only, nothing the caller of the code relies on is overwritten.\<close>

lemma destination_plain: "plain inst \<Longrightarrow> destination inst = Some (ArmReg r) \<Longrightarrow> r \<in> {X0, X30}"
  by (cases inst) (auto split: if_splits)

lemma destination_rename: "destination (rename_inst al inst) = map_option (rename al) (destination inst)"
  by (cases inst) simp_all

lemma low_registers: "set (take 18 availableRegisters) \<inter> callee_saved = {}"
  by (simp add: availableRegisters_def callee_saved_def)

lemma conforming_rename:
  assumes "list_all plain sel" and "ran al \<subseteq> set (take 18 availableRegisters)"
  shows "conforming (map (rename_inst al) sel)"
proof -
  have "r \<notin> callee_saved" if i: "inst \<in> set sel" "destination (rename_inst al inst) = Some (ArmReg r)" for inst r
  proof -
    from i(2) obtain d where d: "destination inst = Some d" "rename al d = ArmReg r" by (auto simp: destination_rename)
    show ?thesis
    proof (cases d)
      case (ArmReg q)
      with d destination_plain [of inst q] assms(1) i(1) show ?thesis by (auto simp: list_all_iff callee_saved_def)
    next
      case (ArmVReg v)
      with d(2) have "r \<in> ran al" by (auto simp: ran_def split: option.splits)
      with assms(2) low_registers show ?thesis by auto
    qed (use d(2) in simp)
  qed
  then show ?thesis by (auto simp: conforming_def list_all_iff split: option.split arm_operand.split)
qed

lemma linear_scan_pressure:
  assumes "\<forall>i \<in> set (computeLiveIntervals order sel). pressure (computeLiveIntervals order sel) (li_start i) \<le> n" and "n \<le> 28"
  shows "\<exists>al. linear_scan order sel = Some al \<and> ran al \<subseteq> set (take n availableRegisters)"
proof -
  have "fst (scanIntervals (computeLiveIntervals order sel) RegisterAllocator_init) \<and>
    ran (allocation (snd (scanIntervals (computeLiveIntervals order sel) RegisterAllocator_init))) \<subseteq> set (take n availableRegisters)"
    using scanIntervals_total [of "computeLiveIntervals order sel" "[]" n RegisterAllocator_init]
      sorted_computeLiveIntervals [of order sel] assms
    by (simp add: RegisterAllocator_init_def availableRegisters_def)
  then show ?thesis by (auto simp: linear_scan_def split: prod.split)
qed

subsection \<open>The opcodes of lifted code\<close>

text \<open>The lifter widens a value with zeros only after a load of a 32-bit word.\<close>

definition zexts_ok :: "ir_instruction list \<Rightarrow> bool" where
  "zexts_ok insts \<longleftrightarrow>
     (\<forall>k < length insts. \<forall>t v. ir_kind (insts ! k) = Zext t v \<longrightarrow>
        (\<exists>i \<in> set (take k insts). ir_valueId i = v \<and> (\<exists>a. ir_kind i = Load i32 a)))"

lemma zexts_ok_snoc:
  "zexts_ok (xs @ [x]) \<longleftrightarrow>
     zexts_ok xs \<and> (\<forall>t v. ir_kind x = Zext t v \<longrightarrow> (\<exists>i \<in> set xs. ir_valueId i = v \<and> (\<exists>a. ir_kind i = Load i32 a)))"
  by (auto simp: zexts_ok_def nth_append less_Suc_eq)

definition zexts :: "lifter \<Rightarrow> bool" where
  "zexts st \<longleftrightarrow> zexts_ok (currentInstructions st)"

lemma zexts_add:
  "zexts st \<Longrightarrow> (\<And>t v. kind = Zext t v \<Longrightarrow> \<exists>i \<in> set (currentInstructions st). ir_valueId i = v \<and> (\<exists>a. ir_kind i = Load i32 a)) \<Longrightarrow>
    zexts (snd (addInstruction kind st))"
  by (simp add: addInstruction_def Let_def zexts_ok_snoc zexts_def)

lemma zexts_add_other: "zexts st \<Longrightarrow> \<forall>t v. kind \<noteq> Zext t v \<Longrightarrow> zexts (snd (addInstruction kind st))"
  by (rule zexts_add) auto

lemma zexts_fields [simp]:
  "zexts (st\<lparr>cachedRegisterValues := c\<rparr>) = zexts st" "zexts (st\<lparr>modifiedRegisters := m\<rparr>) = zexts st"
  by (simp_all add: zexts_def)

lemma zexts_rules:
  "zexts st \<Longrightarrow> zexts (snd (createConstant t c st))"
  "zexts st \<Longrightarrow> zexts (snd (createBinaryOp opc t v w st))"
  "zexts st \<Longrightarrow> zexts (snd (createLoad t v st))"
  "zexts st \<Longrightarrow> zexts (snd (createStore v w st))"
  "zexts st \<Longrightarrow> zexts (snd (createSext t v st))"
  "zexts st \<Longrightarrow> zexts (snd (createTrunc t v st))"
  "zexts st \<Longrightarrow> zexts (setRegisterValue r v st)"
  by (simp_all add: createConstant_def createBinaryOp_def createLoad_def createStore_def createSext_def createTrunc_def
      setRegisterValue_def zexts_add_other)

lemma zexts_load_zext: "zexts st \<Longrightarrow> zexts (snd (createZext t (fst (createLoad i32 v st)) (snd (createLoad i32 v st))))"
  unfolding createZext_def by (rule zexts_add [OF zexts_rules(3)]) (auto simp: createLoad_def addInstruction_def Let_def)

lemma zexts_get: "zexts st \<Longrightarrow> zexts (snd (getRegisterValue r st))"
  by (simp add: getRegisterValue_def split_def Let_def zexts_rules zexts_add_other split: option.split)

lemma zexts_finalize: "zexts st \<Longrightarrow> zexts (finalizeRegisterWrites order st)"
proof -
  have "zexts st \<Longrightarrow> zexts (fold finalizeRegisterWrite rs st)" for rs
    by (induction rs arbitrary: st) (simp_all add: finalizeRegisterWrite_def Let_def zexts_add_other)
  then show "zexts st \<Longrightarrow> ?thesis" by (simp add: finalizeRegisterWrites_def)
qed

lemmas zexts_intros = zexts_rules zexts_load_zext zexts_get

lemma zexts_pattern:
  shows "liftRTypeBinaryOp inst opc t st = Inr st' \<Longrightarrow> zexts st \<Longrightarrow> zexts st'"
    and "liftITypeBinaryOp inst opc t st = Inr st' \<Longrightarrow> zexts st \<Longrightarrow> zexts st'"
    and "liftWTypeBinaryOp inst opc st = Inr st' \<Longrightarrow> zexts st \<Longrightarrow> zexts st'"
    and "liftWTypeImmOp inst opc st = Inr st' \<Longrightarrow> zexts st \<Longrightarrow> zexts st'"
    and "liftStoreInstruction inst t st = Inr st' \<Longrightarrow> zexts st \<Longrightarrow> zexts st'"
    and "createConditionalBranch opc inst ft st = Inr (trm, st') \<Longrightarrow> zexts st \<Longrightarrow> zexts st'"
  by (auto simp: liftRTypeBinaryOp_def liftITypeBinaryOp_def liftWTypeBinaryOp_def liftWTypeImmOp_def
      liftStoreInstruction_def createConditionalBranch_def Let_def split_def bindR_Inr_iff intro!: zexts_intros)

lemma zexts_load:
  "liftLoadInstruction inst t sx st = Inr st' \<Longrightarrow> sx \<or> t \<in> {i32, i64} \<Longrightarrow> zexts st \<Longrightarrow> zexts st'"
  by (auto simp: liftLoadInstruction_def Let_def split_def bindR_Inr_iff intro!: zexts_intros split: if_splits)

lemma zexts_single: "liftSingleInstruction inst st = Inr st' \<Longrightarrow> zexts st \<Longrightarrow> zexts st'"
  by (cases "opcode inst"; simp add: liftSingleInstruction_def)
     (auto simp: Let_def split_def bindR_Inr_iff intro: zexts_pattern zexts_load intro!: zexts_intros)

lemma zexts_terminator: "liftTerminator inst ft st = Inr (trm, st') \<Longrightarrow> zexts st \<Longrightarrow> zexts st'"
  by (cases "opcode inst"; simp add: liftTerminator_def)
     (auto simp: Let_def split_def bindR_Inr_iff intro: zexts_pattern intro!: zexts_intros split: if_splits)

lemma zexts_loop: "liftLoop order insts st = Inr (trm, st') \<Longrightarrow> zexts st \<Longrightarrow> zexts st'"
proof (induction insts arbitrary: st)
  case (Cons inst insts)
  show ?case
  proof (cases "isTerminator inst")
    case True
    with Cons.prems zexts_finalize show ?thesis by (fastforce simp: Let_def bindR_Inr_iff intro: zexts_terminator)
  next
    case False
    with Cons.prems(1) obtain st1 where "liftSingleInstruction inst st = Inr st1" "liftLoop order insts st1 = Inr (trm, st')"
      by (auto simp: bindR_Inr_iff)
    with Cons.IH Cons.prems(2) show ?thesis by (blast intro: zexts_single)
  qed
qed simp

lemma liftBasicBlock_zexts:
  assumes "liftBasicBlock order insts st = Inr (blk, st')"
  shows "zexts_ok (instructions blk)"
proof -
  let ?st = "st\<lparr>currentInstructions := [], cachedRegisterValues := Map.empty, modifiedRegisters := []\<rparr>"
  have z: "zexts ?st" by (simp add: zexts_ok_def zexts_def)
  from assms obtain trm st1 where l: "liftLoop order insts ?st = Inr (trm, st1)"
    and i: "instructions blk = currentInstructions st1 \<or> instructions blk = currentInstructions (finalizeRegisterWrites order st1)"
    by (cases "liftLoop order insts ?st") (auto simp: liftBasicBlock_def Let_def split: if_splits)
  from zexts_loop [OF l z] have "zexts st1" .
  with zexts_finalize [OF this, of order] i show ?thesis unfolding zexts_def by auto
qed

subsection \<open>The opcodes of selected code\<close>

lemma chunks_has: "list_all encoder_has (fst (selectChunks ks f sz op v))"
  by (induction ks arbitrary: f) (simp_all add: Let_def split_def)

lemma const_has: "list_all encoder_has (selectConstIntoRegister t v op)"
  using chunks_has by (simp add: selectConstIntoRegister_def Let_def split_def)

lemma address_has: "list_all encoder_has (fst (generateAddressTranslation a st))"
  by (simp add: generateAddressTranslation_def freshVirtualRegister_def Let_def split_def)

lemma binary_has: "irBinaryOpToARM64 opc = Inr a \<Longrightarrow> opc \<notin> {irDiv, irDivU} \<Longrightarrow>
    a \<in> {armADD, armSUB, armAND, armORR, armEOR, armMUL, armLSL, armLSR, armASR}"
  by (cases opc) (simp_all add: irBinaryOpToARM64_def)

lemma valueTypes_fresh: "valueTypes (snd (freshVirtualRegister st)) = valueTypes st"
  by (simp add: freshVirtualRegister_def)

lemma valueTypes_assign: "valueTypes (snd (assignVirtualRegister v st)) = valueTypes st"
  by (simp add: assignVirtualRegister_def freshVirtualRegister_def Let_def split_def split: option.split)

lemma selectInstruction_has:
  assumes s: "selectInstruction inst st = Inr (code, st')" and ok: "ir_ok (- {irDiv, irDivU}) (ir_kind inst)"
    and z: "\<And>t v. ir_kind inst = Zext t v \<Longrightarrow> v \<noteq> ir_valueId inst \<and> valueTypes st v = Some i32"
  shows "list_all encoder_has code"
proof (cases "ir_kind inst")
  case (BinaryOp opc t l r)
  with s ok binary_has [of opc] show ?thesis
    by (auto simp: selectInstruction_def selectBinaryOp_def ir_ok_def Let_def split_def bindR_Inr_iff split: option.splits)
next
  case (Load t a)
  with s address_has show ?thesis
    by (auto simp: selectInstruction_def selectLoad_def Let_def split_def bindR_Inr_iff)
next
  case (Store v a)
  with s address_has show ?thesis
    by (auto simp: selectInstruction_def selectStore_def Let_def split_def bindR_Inr_iff)
next
  case (Const t v)
  with s const_has show ?thesis by (auto simp: selectInstruction_def selectConst_def Let_def split_def)
next
  case (Zext t v)
  have "getValueType v (snd (assignVirtualRegister n (recordValueType (ir_valueId inst) t st))) = i32" for n
    using z [OF Zext] by (simp add: getValueType_def valueTypes_assign) (simp add: recordValueType_def)
  with s Zext show ?thesis
    by (auto simp: selectInstruction_def selectZext_def single_def Let_def split_def bindR_Inr_iff)
qed (use s in \<open>auto simp: selectInstruction_def selectSext_def selectTrunc_def selectRegRead_def selectRegWrite_def
  single_def Let_def split_def bindR_Inr_iff split: ir_type.split\<close>)

lemma selectTerminator_has:
  assumes "selectTerminator trm st = Inr (code, st')"
  shows "list_all encoder_has code"
  using assms const_has
  by (auto simp: selectTerminator_def selectCondBranch_def selectConst_def retInst_def Let_def split_def bindR_Inr_iff
      split: terminator_kind.splits option.splits)

text \<open>The selector records the type of each value and forgets none.\<close>

lemma selectInstruction_types:
  assumes "selectInstruction inst st = Inr (code, st')"
  shows "v \<noteq> ir_valueId inst \<Longrightarrow> valueTypes st' v = valueTypes st v"
    and "ir_kind inst = Load t a \<Longrightarrow> valueTypes st' (ir_valueId inst) = Some t"
  using assms
  by (cases "ir_kind inst"; auto simp: selectInstruction_def selectBinaryOp_def selectLoad_def selectStore_def selectConst_def
      selectSext_def selectZext_def selectTrunc_def selectRegRead_def selectRegWrite_def single_def generateAddressTranslation_def
      Let_def split_def bindR_Inr_iff valueTypes_assign valueTypes_fresh split: option.splits; simp add: recordValueType_def)+

lemma selectLoop_has:
  assumes "selectLoop rest st = Inr (code, st')" and "distinct (map ir_valueId (done @ rest))" and "zexts_ok (done @ rest)"
    and "list_all (\<lambda>i. ir_ok (- {irDiv, irDivU}) (ir_kind i)) rest"
    and "\<forall>i \<in> set done. \<forall>t a. ir_kind i = Load t a \<longrightarrow> valueTypes st (ir_valueId i) = Some t"
  shows "list_all encoder_has code"
  using assms
proof (induction rest arbitrary: "done" st code)
  case Nil
  then show ?case by simp
next
  case (Cons inst rest)
  from Cons.prems(1) obtain c1 st1 c2 where c: "selectInstruction inst st = Inr (c1, st1)" "selectLoop rest st1 = Inr (c2, st')" "code = c1 @ c2"
    by (auto simp: bindR_Inr_iff)
  have "list_all encoder_has c1"
  proof (rule selectInstruction_has [OF c(1)])
    fix t v assume k: "ir_kind inst = Zext t v"
    have "(done @ inst # rest) ! length done = inst" "take (length done) (done @ inst # rest) = done" by simp_all
    with k Cons.prems(3) obtain i a where "i \<in> set done" "ir_valueId i = v" "ir_kind i = Load i32 a"
      unfolding zexts_ok_def by (metis length_append less_add_same_cancel1 list.size(4) zero_less_Suc add_Suc_right)
    moreover from this Cons.prems(2) have "v \<noteq> ir_valueId inst" by (auto simp: image_iff)
    ultimately show "v \<noteq> ir_valueId inst \<and> valueTypes st v = Some i32" using Cons.prems(5) by auto
  qed (use Cons.prems(4) in simp)
  moreover have "list_all encoder_has c2"
  proof (rule Cons.IH [OF c(2), of "done @ [inst]"])
    have "valueTypes st1 (ir_valueId i) = Some t" if "i \<in> set done" "ir_kind i = Load t a" for i t a
      using that Cons.prems(2,5) selectInstruction_types(1) [OF c(1), of "ir_valueId i"] by (auto simp: image_iff)
    with selectInstruction_types(2) [OF c(1)]
    show "\<forall>i \<in> set (done @ [inst]). \<forall>t a. ir_kind i = Load t a \<longrightarrow> valueTypes st1 (ir_valueId i) = Some t" by auto
  qed (use Cons.prems(2-4) in simp_all)
  ultimately show ?case by (simp add: c(3))
qed

lemma no_division:
  "ops_within (- {irDiv, irDivU}) inst"
proof -
  have "irop \<notin> {irDiv, irDivU}" if "lift_alu (opcode inst) = Some irop" for irop
    using map_of_SomeD [OF that [unfolded lift_alu_def]] by auto
  then show ?thesis by (simp add: ops_within_def)
qed

lemma lifted_has:
  assumes o: "\<And>xs. mset (order xs) = mset xs" and b: "block_ok insts" and n: "length insts < 2 ^ 26"
    and l: "liftBasicBlock order insts Lifter_init = Inr (blk, lst)"
    and s: "selectInstructions blk InstructionSelector_init = Inr (sel, st)"
  shows "list_all encoder_has sel"
proof -
  have "list_all (ops_within (- {irDiv, irDivU})) insts" using no_division by (simp add: list_all_iff)
  moreover have "base_ops \<subseteq> - {irDiv, irDivU}" by (simp add: base_ops_def)
  ultimately have shape: "map ir_valueId (instructions blk) = map (\<lambda>i. Suc i mod 2 ^ 64) [0..<length (instructions blk)]"
      "list_all (\<lambda>i. ir_ok (- {irDiv, irDivU}) (ir_kind i)) (instructions blk)"
      "length (instructions blk) \<le> 9 * length insts"
    using liftBasicBlock_shape [OF o b _ _ l] by blast+
  have d: "distinct (map ir_valueId (instructions blk))" by (rule distinct_value_ids [OF shape(1)]) (use shape(3) n in simp)
  from s obtain c1 st1 c2 where c: "selectLoop (instructions blk) InstructionSelector_init = Inr (c1, st1)"
    "selectTerminator (terminator blk) st1 = Inr (c2, st)" "sel = c1 @ c2"
    by (auto simp: selectInstructions_def bindR_Inr_iff)
  have "list_all encoder_has c1"
    by (rule selectLoop_has [OF c(1), of "[]"]) (use d shape(2) liftBasicBlock_zexts [OF l] in simp_all)
  with selectTerminator_has [OF c(2)] show ?thesis by (simp add: c(3))
qed

subsection \<open>Blocks\<close>

text \<open>A block that has a run, lifted and selected: its code is in the form the scan and the encoder handle.\<close>

lemma selected_block:
  assumes p: "platform_ok p A" and b: "block_ok insts" and S: "list_all (ops_within sound_ops) insts" and n: "length insts < 2 ^ 26"
    and r: "rv_run ok insts s = Some res" and l: "liftBasicBlock (registerOrder p) insts Lifter_init = Inr (blk, lst)"
    and s: "selectInstructions blk InstructionSelector_init = Inr (sel, st)" and bs: "branch_safe blk"
  shows "scannable (vregOrder p) sel" and "list_all emitted sel" and "list_all encoder_has sel"
proof -
  obtain npc s' where "rv_run ok insts s = Some (npc, s')" using r by (cases res) simp
  from lifted_block [OF p b S n this] l
  have run: "ir_run ok blk (rv_x s) (rv_mem s) = Some (if is_ret (last insts) then 0 else npc, rv_x s', rv_mem s')"
    and ir: "list_all (\<lambda>i. ir_ok sound_ops (ir_kind i)) (instructions blk)" "distinct (map ir_valueId (instructions blk))"
      "4 * length (instructions blk) + 5 < 2 ^ 32"
    by (metis Inr_inject prod.inject)+
  from selectInstructions_shape [OF s ir(2,3) run bs] p show "scannable (vregOrder p) sel"
    by (simp add: scannable_def platform_ok_def)
  show "list_all emitted sel" by (rule selectInstructions_emitted [OF s ir(1)]) (simp add: sound_ops_def)
  show "list_all encoder_has sel" by (rule lifted_has [OF _ b n l s]) (use p in \<open>simp add: platform_ok_def\<close>)
qed

lemma translatable_by_pressure:
  assumes p: "platform_ok p A" and b: "block_ok insts" and S: "list_all (ops_within sound_ops) insts" and n: "length insts < 2 ^ 26"
    and r: "rv_run ok insts s = Some res" and l: "liftBasicBlock (registerOrder p) insts Lifter_init = Inr (blk, lst)"
    and s: "selectInstructions blk InstructionSelector_init = Inr (sel, st)" and bs: "branch_safe blk"
    and q: "\<forall>i \<in> set (computeLiveIntervals (vregOrder p) sel). pressure (computeLiveIntervals (vregOrder p) sel) (li_start i) \<le> 18"
    and size: "4 * length sel + os_pagesize p \<le> SHADOW_MEMORY_SIZE"
  shows "translatable p insts"
proof -
  note sel = selected_block [OF p b S n r l s bs]
  from linear_scan_pressure [OF q] obtain al where al: "linear_scan (vregOrder p) sel = Some al"
    "ran al \<subseteq> set (take 18 availableRegisters)" by auto
  let ?code = "map (rename_inst al) sel"
  have e: "list_all encodable ?code" by (rule allocated_encodable [OF sel(1) al(1) sel(2,3)])
  from encodeBlock_encodable [OF e] selectInstructions_nonempty [OF s] obtain bytes where enc: "encodeBlock ?code = Inr bytes" by auto
  have "list_all emitted ?code" using emitted_rename [OF ls.assign_usable [OF sel(1) al(1)]] sel(2) by (auto simp: list_all_iff)
  from encodeBlock_disassemble(3) [OF this enc] size have "length bytes + os_pagesize p \<le> SHADOW_MEMORY_SIZE" by simp
  moreover have "conforming ?code" by (rule conforming_rename [OF ls.suitable_plain [OF sel(1)] al(2)])
  moreover have "translateToARM64 p blk = Inr ?code" using translateToARM64_cases [OF s sel(1)] al(1) by simp
  ultimately show ?thesis using b S n l bs enc by (simp add: translatable_def)
qed

end
