(* ===== verification/ExampleProgram.thy ===== *)
theory ExampleProgram
  imports DispatcherCorrect DinoRISCMain
begin

text \<open>
  A function of two instructions, \<open>addi a0, a0, 5; ret\<close>, in a binary, and a platform that meets what the
  theorems assume: the processor is the interpreter of \<open>MachineCode\<close>, the shadow memory and the code lie
  in mappings of their own. The stages of the translation are evaluated on it.
\<close>

definition add5_text :: "u8 list" where
  "add5_text = [0x13, 0x05, 0x55, 0x00, 0x67, 0x80, 0x00, 0x00]"

definition add5_insts :: "rv_instruction list" where
  "add5_insts =
     [\<lparr>opcode = rvADDI, operands = [RvRegister 10, RvRegister 10, RvImmediate 5], rawInstruction = 0x00550513, address = 0x10000\<rparr>,
      \<lparr>opcode = rvJALR, operands = [RvRegister 0, RvRegister 1, RvImmediate 0], rawInstruction = 0x00008067, address = 0x10004\<rparr>]"

definition add5_elf :: elf_file where
  "add5_elf =
     \<lparr> elf_class = ELFCLASS64, elf_machine = EM_RISCV, elf_type = ET_EXEC, elf_entry = 0x10000,
       elf_sections =
         [\<lparr> sec_name = ''.text'', sec_type = 1, sec_flags = SHF_EXECINSTR, sec_address = 0x10000, sec_data = Some add5_text,
            sec_symbols = [] \<rparr>,
          \<lparr> sec_name = ''.symtab'', sec_type = SHT_SYMTAB, sec_flags = 0, sec_address = 0, sec_data = None,
            sec_symbols = [Some \<lparr> sym_name = ''add5'', sym_value = 0x10000, sym_size = 8, sym_bind = 1, sym_type = 2, sym_section = 1,
              sym_other = 0 \<rparr>] \<rparr>] \<rparr>"

definition add5_platform :: platform where
  "add5_platform =
     \<lparr> os_pagesize = 4096, os_mmap = (\<lambda>n _. if n = SHADOW_MEMORY_SIZE then Some 0x100000000 else Some 0x200000000),
       os_mprotect = (\<lambda>_ _. True), cpu = interpreter, elfio_load = (\<lambda>_. Some add5_elf), registerOrder = id, vregOrder = id \<rparr>"

subsection \<open>The stages\<close>

lemma add5_decodeLoop: "decodeLoop add5_text 0 0x10000 = Inr add5_insts"
  by code_simp

definition add5_block :: basic_block where
  "add5_block =
     \<lparr> instructions = [\<lparr>ir_valueId = 1, ir_kind = RegRead 10\<rparr>, \<lparr>ir_valueId = 2, ir_kind = Const i64 5\<rparr>,
         \<lparr>ir_valueId = 3, ir_kind = BinaryOp irAdd i64 1 2\<rparr>, \<lparr>ir_valueId = 4, ir_kind = RegWrite 10 3\<rparr>],
       terminator = Return None \<rparr>"

lemma add5_lift: "\<exists>st. liftBasicBlock id add5_insts Lifter_init = Inr (add5_block, st)"
  by (simp add: add5_insts_def add5_block_def liftBasicBlock_def isTerminator_def liftSingleInstruction_def liftITypeBinaryOp_def
    getRegisterValue_def createConstant_def createBinaryOp_def addInstruction_def setRegisterValue_def Lifter_init_def
    REG_ZERO_def REG_RA_def finalizeRegisterWrites_def finalizeRegisterWrite_def liftTerminator_def Let_def)

definition add5_selected :: "arm_instruction list" where
  "add5_selected =
     [MemoryInst armLDR SizeX (ArmVReg 0) (ArmReg X0) 80, TwoOperandInst armMOV SizeX (ArmVReg 1) (ArmImm 5),
      ThreeOperandInst armADD SizeX (ArmVReg 2) (ArmVReg 0) (ArmVReg 1), MemoryInst armSTR SizeX (ArmVReg 2) (ArmReg X0) 80,
      TwoOperandInst armMOV SizeX (ArmReg X0) (ArmImm 0), TwoOperandInst armRET SizeX (ArmReg X30) (ArmReg X30)]"

lemma add5_select: "\<exists>st. selectInstructions add5_block InstructionSelector_init = Inr (add5_selected, st)"
  by (simp add: add5_selected_def add5_block_def select_defs)

text \<open>The front end, as the translator calls it.\<close>

lemma add5_front:
  obtains lst sst where "liftBasicBlock (registerOrder add5_platform) add5_insts Lifter_init = Inr (add5_block, lst)"
    and "selectInstructions add5_block InstructionSelector_init = Inr (add5_selected, sst)"
proof -
  have "registerOrder add5_platform = id" by (simp add: add5_platform_def)
  with add5_lift add5_select that show thesis by fastforce
qed

definition add5_code :: "arm_instruction list" where
  "add5_code =
     [MemoryInst armLDR SizeX (ArmReg X1) (ArmReg X0) 80, TwoOperandInst armMOV SizeX (ArmReg X2) (ArmImm 5),
      ThreeOperandInst armADD SizeX (ArmReg X3) (ArmReg X1) (ArmReg X2), MemoryInst armSTR SizeX (ArmReg X3) (ArmReg X0) 80,
      TwoOperandInst armMOV SizeX (ArmReg X0) (ArmImm 0), TwoOperandInst armRET SizeX (ArmReg X30) (ArmReg X30)]"

lemma add5_allocate:
  "map_sum id (\<lambda>(b, c, st). (b, c)) (allocateRegisters add5_selected (computeLiveIntervals id add5_selected)) = Inr (True, add5_code)"
  by code_simp

lemma add5_lower: "translateToARM64 add5_platform add5_block = Inr add5_code"
proof -
  from add5_select obtain st where "selectInstructions add5_block InstructionSelector_init = Inr (add5_selected, st)" by blast
  then show ?thesis by (rule translateToARM64_eval) (simp add: add5_platform_def add5_allocate)
qed

lemma add5_encode: "map_sum id length (encodeBlock add5_code) = Inr 24"
  by code_simp

lemma add5_block_ok: "block_ok add5_insts"
  by (simp add: add5_insts_def block_ok_def body_ok_def wf_inst_def rv_format_of_def upper_ok_def link_ok_def isTerminator_def
    supported_opcodes_def lift_alu_def getRegister_def)

lemma add5_sound:
  shows "list_all (ops_within sound_ops) add5_insts" and "length add5_insts < 2 ^ 26" and "branch_safe add5_block"
  by (simp_all add: add5_insts_def ops_within_def sound_ops_def lift_alu_def)
     (auto simp: branch_safe_def no_alias_def add5_block_def split: sum.split)

lemma add5_pressure:
  "list_all (\<lambda>i. pressure (computeLiveIntervals id add5_selected) (li_start i) \<le> 18) (computeLiveIntervals id add5_selected)"
  by code_simp

lemma add5_scan: "fst (scanIntervals (computeLiveIntervals id add5_selected) RegisterAllocator_init)"
  by code_simp

lemma add5_translatable: "translatable add5_platform add5_insts"
proof -
  from add5_lift obtain st where l: "liftBasicBlock (registerOrder add5_platform) add5_insts Lifter_init = Inr (add5_block, st)"
    by (auto simp: add5_platform_def)
  from add5_encode obtain bs where e: "encodeBlock add5_code = Inr bs" "length bs = 24"
    by (cases "encodeBlock add5_code") auto
  have "conforming add5_code"
    by (simp add: conforming_def add5_code_def callee_saved_def)
  then show ?thesis
    using add5_block_ok add5_sound add5_lower e l
    by (simp add: translatable_def) (simp add: add5_platform_def SHADOW_MEMORY_SIZE_def)
qed

subsection \<open>The translator\<close>

definition add5_loaded :: translator where
  "add5_loaded =
     \<lparr> elfReader = \<lparr> reader = Some add5_elf, entryPoint = 0x10000,
         textSection = \<lparr> virtualAddress = 0x10000, text_data = add5_text \<rparr> \<rparr>,
       guestState = \<lparr> gs_x = (replicate 32 0)[2 := 0x7FFC00, 10 := 37], gs_pc = 0, gs_shadowMemory = 0x100000000,
         gs_shadowMemorySize = 0x800000, gs_guestMemoryBase = 0 \<rparr>,
       guestAddress = 0x7000, hostMemory = (\<lambda>_. 0), textSectionData = add5_text, textBaseAddress = 0x10000 \<rparr>"

lemma add5_load:
  "bindR (BinaryTranslator_init add5_platform 0x7000 (\<lambda>_. 0)) (\<lambda>st. loadRISCVBinary add5_platform ''add5.elf'' (setArgumentRegisters [37] st)) =
   Inr add5_loaded"
  by (simp add: BinaryTranslator_init_def initializeTranslator_def add5_platform_def ELFReader_init_def GuestState_init_def
    setArgumentRegisters_def writeRegister_def loadRISCVBinary_def loadFile_def add5_elf_def add5_loaded_def Let_def
    SHADOW_MEMORY_SIZE_def STACK_RESERVE_def SHF_EXECINSTR_def)

lemma add5_address: "getFunctionAddress ''add5'' (elfReader add5_loaded) = Some 0x10000"
  by (simp add: getFunctionAddress_def add5_loaded_def add5_elf_def SHT_SYMTAB_def SHT_DYNSYM_def)

lemma add5_decode: "decodeBlock add5_loaded 0x10000 = Inr add5_insts"
  by (simp add: decodeBlock_def add5_decodeLoop isValidPC_def add5_loaded_def) (simp add: add5_text_def add5_insts_def)

text \<open>Translators with the object and the shadow memory at these places.\<close>

definition placed :: "translator \<Rightarrow> bool" where
  "placed st \<longleftrightarrow> guestAddress st = 0x7000 \<and> shadow_base st = 0x100000000 \<and> gs_shadowMemorySize (guestState st) = 0x800000"

lemma code_mapping_apart:
  assumes "placed st" and "n < SHADOW_MEMORY_SIZE"
  shows "region 0x200000000 n \<inter> data_area st = {}"
proof -
  have "0x200000000 + of_nat i \<notin> data_area st" if i: "i < n" for i
  proof -
    have u: "unat (of_nat k + of_nat i :: u64) = k + i" if "k < 2 ^ 63" for k
      using unat_of_nat_small [where 'a = 64, of "k + i"] that i assms(2) by (simp add: SHADOW_MEMORY_SIZE_def)
    have "0x200000000 + of_nat i - 0x7000 = (of_nat 0x1FFFF9000 + of_nat i :: u64)"
      "0x200000000 + of_nat i - 0x100000000 = (of_nat 0x100000000 + of_nat i :: u64)" by simp_all
    then show ?thesis
      using u [of "0x1FFFF9000"] u [of "0x100000000"] assms(1)
      by (simp add: data_area_def placed_def sizeof_GuestState_def region_iff_offset)
  qed
  then show ?thesis by (auto simp: region_iff)
qed

lemma placed_platform_ok: "placed st \<Longrightarrow> platform_ok add5_platform (data_area st)"
  using code_mapping_apart interpreter_sound
  by (simp add: platform_ok_def mappable_def visits_once_def add5_platform_def)

lemma add5_platform_ok: "platform_ok add5_platform (data_area add5_loaded)"
  by (rule placed_platform_ok) (simp add: placed_def add5_loaded_def)

text \<open>The translator when the dispatch loop reaches the function.\<close>

definition add5_entry :: translator where
  "add5_entry = add5_loaded\<lparr>guestState := (guestState add5_loaded)\<lparr>gs_pc := 0x10000, gs_x := (gs_x (guestState add5_loaded))[1 := 0]\<rparr>\<rparr>"

lemma add5_entry_ok:
  shows "platform_ok add5_platform (data_area add5_entry)" and "represents add5_entry (guest_start add5_loaded)"
    and "decodeBlock add5_entry 0x10000 = Inr add5_insts"
proof -
  have c: "same_context add5_loaded add5_entry" by (simp add: same_context_def add5_entry_def)
  show "represents add5_entry (guest_start add5_loaded)"
    unfolding add5_entry_def by (rule represents_start) (simp add: wf_guest_def add5_loaded_def)
  show "platform_ok add5_platform (data_area add5_entry)" "decodeBlock add5_entry 0x10000 = Inr add5_insts"
    using same_context_eqs [OF c] add5_platform_ok add5_decode by simp_all
qed

lemma add5_run:
  "rv_run ok add5_insts (guest_start add5_loaded) =
   Some (0, (guest_start add5_loaded)\<lparr>rv_x := (rv_x (guest_start add5_loaded))(10 := 42)\<rparr>)"
  by (simp add: add5_insts_def rv_exec_def rv_alu_def rv_load_kind_def rv_store_width_def rv_cond_def rv_get_def rv_set_def
    guest_start_def guest_reg_def add5_loaded_def)

lemma add5_blocks:
  "guest_blocks add5_platform add5_loaded 1 0x10000 (guest_start add5_loaded)
     ((guest_start add5_loaded)\<lparr>rv_x := (rv_x (guest_start add5_loaded))(10 := 42)\<rparr>)"
  by (rule guest_blocks.finish [OF add5_decode add5_translatable add5_run])

subsection \<open>A processor that does not return\<close>

lemma add5_trap:
  "main (add5_platform\<lparr>cpu := \<lambda>_ _ _. None\<rparr>) 0x7000 (\<lambda>_. 0) [''dinorisc'', ''add5.elf'', ''add5'', ''37''] = Terminated HostTrap"
proof -
  let ?p = "add5_platform\<lparr>cpu := \<lambda>_ _ _. None\<rparr>"
  have p: "translateToARM64 ?p = translateToARM64 add5_platform" "BinaryTranslator_init ?p = BinaryTranslator_init add5_platform"
    "loadRISCVBinary ?p = loadRISCVBinary add5_platform"
    by (auto simp: fun_eq_iff translateToARM64_def BinaryTranslator_init_def initializeTranslator_def loadRISCVBinary_def)
  from add5_load obtain st where i: "BinaryTranslator_init ?p 0x7000 (\<lambda>_. 0) = Inr st"
    and l: "loadRISCVBinary ?p ''add5.elf'' (setArgumentRegisters [37] st) = Inr add5_loaded"
    by (auto simp: bindR_Inr_iff p)
  from add5_lift obtain lst where lift: "liftBasicBlock (registerOrder add5_platform) add5_insts Lifter_init = Inr (add5_block, lst)"
    by (auto simp: add5_platform_def)
  from add5_encode obtain bs where e: "encodeBlock add5_code = Inr bs" by (cases "encodeBlock add5_code") auto
  let ?gs = "(guestState add5_loaded)\<lparr>gs_pc := 0x10000, gs_x := (gs_x (guestState add5_loaded))[1 := 0]\<rparr>"
  let ?entry = "add5_loaded\<lparr>guestState := ?gs\<rparr>"
  let ?st = "?entry\<lparr>guestState := (guestState ?entry)\<lparr>gs_pc := 0x10000\<rparr>\<rparr>"
  have "decodeBlock ?st 0x10000 = Inr add5_insts"
    using add5_decode same_context_eqs(1) [of add5_loaded ?st] by (simp add: same_context_def)
  then have "translateBlock ?p ?st 0x10000 = Inr bs"
    by (simp add: translateBlock_def lift p add5_lower e)
  moreover have "executeMachineCode (host.truncate ?p) bs a m = Inl HostTrap" for a m
    by (simp add: executeMachineCode_def add5_platform_def host.truncate_def Let_def)
  ultimately have "executeBlock ?p 0x10000 ?st = Inl HostTrap"
    by (simp add: executeBlock_def Let_def)
  then have d: "dispatch ?p (Suc k) 0x10000 ?entry = Inl HostTrap" for k by (simp add: Let_def)
  have m: "MAX_EXECUTION_BLOCKS = Suc 9999" by (simp add: MAX_EXECUTION_BLOCKS_def)
  have "dispatch ?p MAX_EXECUTION_BLOCKS 0x10000 ?entry = Inl HostTrap" unfolding m by (rule d)
  then have "executeFunction ?p ''add5.elf'' ''add5'' (setArgumentRegisters [37] st) = Inl HostTrap"
    by (simp add: executeFunction_def l add5_address Let_def)
  moreover have "parseArguments [''37''] [] = Inr [37]"
    by (simp add: stoull_def parse_sign_def is_space_def digit_value_def Let_def)
  ultimately show ?thesis by (simp add: runTranslator_def reportResult_def i)
qed

subsection \<open>An endless loop\<close>

text \<open>The single instruction \<open>j .\<close>, that is \<open>jal x0, 0\<close>.\<close>

definition loop_insts :: "rv_instruction list" where
  "loop_insts = [\<lparr>opcode = rvJAL, operands = [RvRegister 0, RvImmediate 0], rawInstruction = 0x6F, address = 0x10000\<rparr>]"

definition loop_loaded :: translator where
  "loop_loaded = add5_loaded\<lparr>textSectionData := [0x6F, 0, 0, 0]\<rparr>"

definition loop_state :: rv_state where
  "loop_state = \<lparr> rv_x = guest_reg (guestState loop_loaded), rv_mem = (\<lambda>_. 0) \<rparr>"

lemma loop_platform_ok: "platform_ok add5_platform (data_area loop_loaded)"
  by (rule placed_platform_ok) (simp add: placed_def loop_loaded_def add5_loaded_def)

lemma loop_represents: "represents loop_loaded loop_state"
  by (simp add: represents_def loop_state_def loop_loaded_def add5_loaded_def wf_guest_def)

lemma loop_decodeLoop: "decodeLoop [0x6F, 0, 0, 0] 0 0x10000 = Inr loop_insts"
  by code_simp

lemma loop_decode: "decodeBlock loop_loaded 0x10000 = Inr loop_insts"
  by (simp add: decodeBlock_def loop_decodeLoop isValidPC_def loop_loaded_def add5_loaded_def) (simp add: loop_insts_def)

lemma loop_run: "rv_run (accessible loop_loaded) loop_insts loop_state = Some (0x10000, loop_state)"
  by (simp add: loop_insts_def rv_exec_def rv_set_def)

definition loop_block :: basic_block where
  "loop_block = \<lparr> instructions = [\<lparr>ir_valueId = 1, ir_kind = Const i64 0x10004\<rparr>], terminator = Branch 0x10000 \<rparr>"

lemma loop_lift: "\<exists>st. liftBasicBlock id loop_insts Lifter_init = Inr (loop_block, st)"
  by (simp add: loop_insts_def loop_block_def liftBasicBlock_def isTerminator_def createConstant_def addInstruction_def
    setRegisterValue_def Lifter_init_def REG_ZERO_def finalizeRegisterWrites_def liftTerminator_def Let_def)

definition loop_selected :: "arm_instruction list" where
  "loop_selected =
     [MoveWideInst armMOVZ SizeX (ArmVReg 0) 4 0, MoveWideInst armMOVK SizeX (ArmVReg 0) 1 16,
      MoveWideInst armMOVZ SizeX (ArmReg X0) 1 16, TwoOperandInst armRET SizeX (ArmReg X30) (ArmReg X30)]"

lemma loop_select: "\<exists>st. selectInstructions loop_block InstructionSelector_init = Inr (loop_selected, st)"
  by (simp add: loop_selected_def loop_block_def select_defs)

definition loop_code :: "arm_instruction list" where
  "loop_code =
     [MoveWideInst armMOVZ SizeX (ArmReg X1) 4 0, MoveWideInst armMOVK SizeX (ArmReg X1) 1 16,
      MoveWideInst armMOVZ SizeX (ArmReg X0) 1 16, TwoOperandInst armRET SizeX (ArmReg X30) (ArmReg X30)]"

lemma loop_allocate:
  "map_sum id (\<lambda>(b, c, st). (b, c)) (allocateRegisters loop_selected (computeLiveIntervals id loop_selected)) = Inr (True, loop_code)"
  by code_simp

lemma loop_lower: "translateToARM64 add5_platform loop_block = Inr loop_code"
proof -
  from loop_select obtain st where "selectInstructions loop_block InstructionSelector_init = Inr (loop_selected, st)" by blast
  then show ?thesis by (rule translateToARM64_eval) (simp add: add5_platform_def loop_allocate)
qed

lemma loop_encode: "map_sum id length (encodeBlock loop_code) = Inr 16"
  by code_simp

lemma loop_translatable: "translatable add5_platform loop_insts"
proof -
  from loop_lift obtain st where l: "liftBasicBlock (registerOrder add5_platform) loop_insts Lifter_init = Inr (loop_block, st)"
    by (auto simp: add5_platform_def)
  from loop_encode obtain bs where e: "encodeBlock loop_code = Inr bs" "length bs = 16"
    by (cases "encodeBlock loop_code") auto
  have "block_ok loop_insts"
    by (simp add: loop_insts_def block_ok_def body_ok_def wf_inst_def rv_format_of_def link_ok_def isTerminator_def getRegister_def)
  moreover have "list_all (ops_within sound_ops) loop_insts"
    by (simp add: loop_insts_def ops_within_def sound_ops_def lift_alu_def)
  moreover have "branch_safe loop_block"
    by (auto simp: branch_safe_def no_alias_def loop_block_def split: sum.split)
  moreover have "conforming loop_code"
    by (simp add: conforming_def loop_code_def callee_saved_def)
  moreover have "length loop_insts < 2 ^ 26" by (simp add: loop_insts_def)
  ultimately show ?thesis
    using loop_lower e l by (simp add: translatable_def) (simp add: add5_platform_def SHADOW_MEMORY_SIZE_def)
qed

end
