(* ===== verification/Spec2Isabelle.thy ===== *)
theory Spec2Isabelle
  imports TranslatorSafety TranslationSucceeds ExampleProgram
begin

text \<open>
  A verification of DinoRISC, a dynamic binary translator from RV64I to ARM64 (\<open>src/lib\<close>, \<open>src/tools\<close>).

  \<^bold>\<open>The program.\<close> The command line (\<open>tools/dinorisc/DinoRISCMain.cpp\<close>) creates a \<open>BinaryTranslator\<close>, passes integer
  arguments in a0 to a7 and calls a function of an ELF file. \<open>BinaryTranslator::executeFunction\<close> loads the
  file with \<open>ELFReader\<close>, looks the function up and dispatches: it executes the basic block at the
  program counter until the next program counter is 0 or 10000 blocks have been executed. \<open>executeBlock\<close> decodes the
  block (\<open>riscv::Decoder\<close>), lifts it to an intermediate representation (\<open>Lifter\<close>), selects ARM64 instructions over
  virtual registers (\<open>InstructionSelector\<close>), computes live intervals (\<open>LivenessAnalysis\<close>), allocates registers
  (\<open>RegisterAllocator\<close>), encodes (\<open>arm64::Encoder\<close>), and has \<open>ExecutionEngine\<close> map the bytes and call them with a
  pointer to the \<open>GuestState\<close>. The translated code reads and writes the guest registers through that pointer and
  the guest memory through the shadow memory.

  \<^bold>\<open>The model\<close>, one theory per component, with the names of the source:
  \<^item> \<open>Prelude\<close>: words, the exception monad \<open>bindR\<close> on sums, loops \<open>mapR\<close> and \<open>foldR\<close>, printing of numbers.
  \<^item> \<open>Errors\<close> (\<open>lib/Error.h\<close>): the exception classes, and the failures outside them (a read past the end of a vector, a
    bad variant access, a call of translated code that does not return).
  \<^item> \<open>RiscvInstruction\<close>, \<open>Decoder\<close> (\<open>lib/RISCV\<close>); \<open>IR\<close> (\<open>lib/IR\<close>); \<open>Lifter\<close> (\<open>lib/Lifter.cpp\<close>).
  \<^item> \<open>Arm64\<close>, \<open>Encoder\<close> (\<open>lib/ARM64\<close>); \<open>InstructionSelector\<close>, \<open>LivenessAnalysis\<close>, \<open>RegisterAllocator\<close> (\<open>lib/Lowering\<close>).
  \<^item> \<open>GuestState\<close> (\<open>lib/GuestState.h\<close>) with its layout in memory; \<open>ExecutionEngine\<close>; \<open>ELFReader\<close>;
    \<open>BinaryTranslator\<close>; \<open>DinoRISCMain\<close>.

  A class is a record, a method a function that takes the record and returns it updated, an exception an \<open>Inl\<close>.
  Machine integers are words of their width; counters the code keeps in 32 or 64 bits are natural numbers with the
  wrap-around written out. Code that is not under \<open>src/\<close> is a parameter: the record \<open>platform\<close> holds the operating
  system (\<open>getpagesize\<close>, \<open>mmap\<close>, \<open>mprotect\<close>), the processor, the ELFIO library and the iteration orders of the two hash
  containers whose order the code observes. All recursion is structural but for \<open>decodeLoop\<close> (measure: the bytes left)
  and \<open>to_base\<close> (the number); the bound of \<open>dispatch\<close> is the program's own \<open>MAX_EXECUTION_BLOCKS\<close>, not a device of the model.

  \<^bold>\<open>The references\<close> the components are compared with are specifications, not models of code: \<open>Memory\<close> (bytes, little-endian
  accesses; the locale \<open>memory\<close>, interpreted as \<open>le\<close>), \<open>RiscvSemantics\<close> (the RISC-V manual), \<open>IRSemantics\<close>,
  \<open>Arm64Semantics\<close> (the effect of ARM64 instructions), \<open>A64\<close> (the encoding tables and aliases of the Arm manual).

  \<^bold>\<open>What is shown.\<close>
  \<^item> \<open>DecoderCorrect\<close>: assembling by the formats of the manual and decoding is the identity; decoded instructions are
    well-formed (for all of RV64I but FENCE, which is rejected, and long arithmetic shifts, which are misread); the decoder throws \<open>DecodingError\<close> or reads past the data, nothing else.
  \<^item> \<open>LifterCorrect\<close>, \<open>LifterShape\<close>: the IR of a block has the effect of its RISC-V instructions, by a simulation that
    follows the register cache; which blocks are rejected; the form of lifted IR.
  \<^item> \<open>GuestWindow\<close>, \<open>SelectorCorrect\<close>, \<open>SelectorShape\<close>: the selected code has the effect of the IR on the guest
    state in host memory and touches nothing else. The locale \<open>guest_window\<close> is the interface to that memory,
    interpreted as \<open>gw\<close> on the layout the translator sets up.
  \<^item> \<open>Colouring\<close>, \<open>LinearScan\<close>: what a register allocation must satisfy for renaming to keep the meaning of code (the
    locale \<open>register_allocation\<close>), and that the linear scan satisfies it (\<open>ls\<close>); the scan succeeds when the registers
    suffice; the intervals are sorted and independent of the hash order.
  \<^item> \<open>LoweringCorrect\<close>: selection and allocation composed.
  \<^item> \<open>EncoderCorrect\<close>, \<open>EncodableCode\<close>, \<open>MachineCode\<close>: encoding and reading back by the tables is the identity (the
    locale \<open>instruction_code\<close>, interpreted as \<open>a64\<close>); the code the translator emits is in the class this holds for; running the
    bytes on a processor has the effect of the instructions. \<open>cpu_sound\<close> is what is assumed of the processor; an
    interpreter satisfies it (\<open>interpreter_sound\<close>).
  \<^item> \<open>TranslatorCorrect\<close>, \<open>DispatcherCorrect\<close>: the whole pipeline executes a block as the RISC-V semantics does, and the
    dispatch loop (the locale \<open>block_loop\<close>, interpreted as \<open>disp\<close>) a function.
  \<^item> \<open>TranslationSucceeds\<close>: the code selected for a lifted block has only opcodes the encoder has, so lowering fails only for
    lack of registers; with at most 18 live intervals at a time, which keeps to X1 to X18, a block is executed.
  \<^item> \<open>TranslatorSafety\<close>: without assumptions on the platform, which exceptions can escape, how many blocks
    the dispatch loop executes.
  \<^item> \<open>ExampleProgram\<close>: a binary, a platform and the evaluation of every stage, for the witnesses.
  \<^item> \<open>DinoRISCMain\<close> also holds what the command line does with its arguments; its \<open>stoull\<close> models the
    function of the C++ library that the program calls.
  \<^item> This theory: the theorems about the translator as a whole. A block whose guest accesses lie in the shadow memory changes
    no other host memory than the guest state and its code mapping (\<open>executeBlock_confined\<close>).

  \<^bold>\<open>Where the code departs from what it means to do\<close>, the correctness theorems exclude the case and a theorem states it: shifts by
    32 and more (\<open>decode_long_srai_is_srli\<close>), instructions of extensions (\<open>decode_ignores_funct7\<close>), upper immediates
    (\<open>lui_shifted_twice\<close>), return addresses (\<open>liftBasicBlock_loses_link\<close>), the temporaries of conditional branches
    (\<open>bne_never_taken\<close>), guest stores outside the shadow memory (\<open>guest_store_unchecked\<close>), the encodings of EOR, LSR and of loads with a negative offset, and guests that do not end
    (\<open>dispatch_endless\<close>). \<open>translatable\<close> collects the conditions on a block: no upper immediate, no return address in another
    register than x0, no XOR and no logical right shift, no reused branch temporary, and no allocated register that belongs to the caller.

  \<^bold>\<open>Not modelled.\<close> The progress messages on the standard output, \<open>munmap\<close> (the model does not reuse addresses), the
  debug assertion of the register allocator (its condition is \<open>computeLiveIntervals_sorted\<close>), the instruction cache, the
  tests, the third-party libraries ELFIO and Catch2, and what becomes of the translator's own objects
  when a guest store overwrites them (the text \<open>BinaryTranslator\<close> opens with says where this matters). Contents of the file other than \<open>.text\<close> and the symbols are not loaded by
  the program.
\<close>

section \<open>The translator as a whole\<close>

text \<open>
  C1: a block is executed as the guest would execute it. Given a translator that holds a RISC-V
  state, a block of the text section the pipeline handles and a platform that behaves as documented,
  \<open>executeBlock\<close> decodes, lifts, lowers, allocates, encodes and runs the block, returns the next
  program counter of the RISC-V semantics (0 for \<open>ret\<close>), and leaves a translator that holds the RISC-V
  state after the block; the text section and the layout of the memory stay as they are.
\<close>

theorem executeBlock_correct:
  assumes "platform_ok p (data_area st)" and "represents st s" and "decodeBlock st pc = Inr insts"
    and "translatable p insts" and "rv_run (accessible st) insts s = Some (npc, s')"
  shows "\<exists>st'. executeBlock p pc st = Inr (if is_ret (last insts) then 0 else npc, st') \<and> represents st' s' \<and> same_context st st'"
  using executeBlock_sim [OF assms] same_context_regs [OF same_context_refl] by metis

theorem executeBlock_correct_witness:
  "\<exists>st'. executeBlock add5_platform 0x10000 add5_entry = Inr (0, st') \<and> gs_x (guestState st') ! 10 = 42"
proof -
  from executeBlock_correct [OF add5_entry_ok add5_translatable add5_run] obtain st' where
    "executeBlock add5_platform 0x10000 add5_entry = Inr (0, st')"
    and s: "represents st' ((guest_start add5_loaded)\<lparr>rv_x := (rv_x (guest_start add5_loaded))(10 := 42)\<rparr>)" by auto
  moreover from represents_result [OF s] have "gs_x (guestState st') ! 10 = 42" by simp
  ultimately show ?thesis by blast
qed

text \<open>
  C2: a function is executed as the guest would execute it. If, from its address with return address 0, the
  guest's blocks lead to program counter 0 within the limit of blocks, \<open>executeFunction\<close> returns the low 32
  bits of x10 of the final RISC-V state, and the translator holds that state.
\<close>

theorem executeFunction_correct:
  assumes "loadRISCVBinary p inputPath st = Inr st1" and "getFunctionAddress f (elfReader st1) = Some addr" and "addr \<noteq> 0"
    and "wf_guest (guestState st1)" and "platform_ok p (data_area st1)"
    and "guest_blocks p st1 n addr (guest_start st1) s'" and "n \<le> MAX_EXECUTION_BLOCKS"
  shows "\<exists>st'. executeFunction p inputPath f st = Inr (ucast (rv_x s' 10), st') \<and> represents st' s' \<and> same_context st1 st'"
  using assms by (rule executeFunction_sim)

theorem executeFunction_correct_witness:
  "\<exists>st st'. executeFunction add5_platform ''add5.elf'' ''add5'' st = Inr (42, st')"
proof -
  from add5_load obtain st where l: "loadRISCVBinary add5_platform ''add5.elf'' st = Inr add5_loaded"
    by (auto simp: bindR_Inr_iff)
  from executeFunction_correct [OF l add5_address _ _ add5_platform_ok add5_blocks] show ?thesis
    by (auto simp: wf_guest_def add5_loaded_def MAX_EXECUTION_BLOCKS_def)
qed

text \<open>
  C3: the program. Under the same conditions, \<open>main\<close> prints the result of the function as a signed 32-bit
  number and exits with code 0.
\<close>

theorem main_correct:
  assumes "parseArguments args [] = Inr vals" and "BinaryTranslator_init p g m = Inr st"
    and "loadRISCVBinary p inputPath (setArgumentRegisters vals st) = Inr st1"
    and "getFunctionAddress f (elfReader st1) = Some addr" and "addr \<noteq> 0" and "platform_ok p (data_area st1)"
    and "guest_blocks p st1 n addr (guest_start st1) s'" and "n \<le> MAX_EXECUTION_BLOCKS"
  shows "main p g m (programName # inputPath # f # args) =
    Exited 0 (''Function '' @ f @ '' returned: '' @ int_string (sint (ucast (rv_x s' 10) :: i32)) @ newline) []"
proof -
  have "wf_guest (guestState st1)"
    using BinaryTranslator_init_wf [OF assms(2)] loadRISCVBinary_guest [OF assms(3)] by (simp add: setArgumentRegisters_def)
  from executeFunction_sim [OF assms(3-5) this assms(6-8)] show ?thesis
    using assms(1,2) by (auto simp: runTranslator_def reportResult_def)
qed

theorem main_correct_witness:
  "main add5_platform 0x7000 (\<lambda>_. 0) [''dinorisc'', ''add5.elf'', ''add5'', ''37''] =
   Exited 0 (''Function add5 returned: 42'' @ newline) []"
proof -
  from add5_load obtain st where i: "BinaryTranslator_init add5_platform 0x7000 (\<lambda>_. 0) = Inr st"
    and l: "loadRISCVBinary add5_platform ''add5.elf'' (setArgumentRegisters [37] st) = Inr add5_loaded"
    by (auto simp: bindR_Inr_iff)
  have a: "parseArguments [''37''] [] = Inr [37]"
    by (simp add: stoull_def parse_sign_def is_space_def digit_value_def Let_def)
  have r: "int_string (sint (ucast (42 :: u64) :: i32)) = ''42''"
    by (simp add: int_string_def dec_string_def to_base.simps digit_char_def)
  from main_correct [OF a i l add5_address _ add5_platform_ok add5_blocks] r show ?thesis
    by (simp add: MAX_EXECUTION_BLOCKS_def)
qed

text \<open>
  C14: following blocks is executing instructions. Whatever the blocks of \<open>guest_blocks\<close> do, the guest
  machine does instruction by instruction: it steps from the first block to program counter 0 and the same
  final state.
\<close>

theorem guest_blocks_machine:
  assumes "guest_blocks p st n pc s s'" and "length (textSectionData st) < 2 ^ 64 - 4"
  shows "(guest_step st)\<^sup>+\<^sup>+ (pc, s) (0, s')"
  using assms by (rule guest_blocks_steps)

theorem guest_blocks_machine_witness:
  "(guest_step add5_loaded)\<^sup>+\<^sup>+ (0x10000, guest_start add5_loaded)
     (0, (guest_start add5_loaded)\<lparr>rv_x := (rv_x (guest_start add5_loaded))(10 := 42)\<rparr>)"
  by (rule guest_blocks_machine [OF add5_blocks]) (simp add: add5_loaded_def add5_text_def)

text \<open>
  C4: executing a block succeeds. If the block has a run in the RISC-V semantics, its instructions are ones that
  are translated correctly, no branch temporary is reused and at most 18 of the live intervals meet at any point,
  then the translator finds registers, none of them the caller's, the encoder accepts the code, and
  \<open>executeBlock\<close> returns the next program counter with the RISC-V state after the block.
\<close>

theorem executeBlock_succeeds:
  assumes "platform_ok p (data_area st)" and "represents st s" and "decodeBlock st pc = Inr insts"
    and "rv_run (accessible st) insts s = Some (npc, s')"
    and "block_ok insts" and "list_all (ops_within sound_ops) insts" and "length insts < 2 ^ 26"
    and "liftBasicBlock (registerOrder p) insts Lifter_init = Inr (blk, lst)"
    and "selectInstructions blk InstructionSelector_init = Inr (sel, sst)" and "branch_safe blk"
    and "\<forall>i \<in> set (computeLiveIntervals (vregOrder p) sel). pressure (computeLiveIntervals (vregOrder p) sel) (li_start i) \<le> 18"
    and "4 * length sel + os_pagesize p \<le> SHADOW_MEMORY_SIZE"
  shows "\<exists>st'. executeBlock p pc st = Inr (if is_ret (last insts) then 0 else npc, st') \<and> represents st' s'"
  using executeBlock_sim [OF assms(1-3) translatable_by_pressure [OF assms(1,5-7,4,8-12)] assms(4)] by blast

theorem executeBlock_succeeds_witness:
  "\<exists>st'. executeBlock add5_platform 0x10000 add5_entry = Inr (0, st')"
proof -
  obtain lst sst where l: "liftBasicBlock (registerOrder add5_platform) add5_insts Lifter_init = Inr (add5_block, lst)"
    and s: "selectInstructions add5_block InstructionSelector_init = Inr (add5_selected, sst)" by (rule add5_front)
  have o: "vregOrder add5_platform = id" by (simp add: add5_platform_def)
  have size: "4 * length add5_selected + os_pagesize add5_platform \<le> SHADOW_MEMORY_SIZE"
    by (simp add: add5_selected_def add5_platform_def SHADOW_MEMORY_SIZE_def)
  from executeBlock_succeeds [OF add5_entry_ok add5_run add5_block_ok add5_sound(1,2) l s add5_sound(3)
      add5_pressure [unfolded list_all_iff, folded o] size]
  show ?thesis by auto
qed

text \<open>
  C15: executing a block is confined. Under the conditions of the theorem on \<open>executeBlock\<close> (in particular, the
  guest's accesses lie in the shadow memory), every byte of the host memory outside the guest state, the shadow memory and
  the mapping made for the code is unchanged, so whatever the program keeps elsewhere, the bytes of the
  text section for one, is out of the guest's reach.
\<close>

theorem executeBlock_confined:
  assumes "platform_ok p (data_area st)" and "represents st s" and "decodeBlock st pc = Inr insts"
    and "translatable p insts" and "rv_run (accessible st) insts s = Some (npc, s')"
  shows "\<exists>st' n a. executeBlock p pc st = Inr (if is_ret (last insts) then 0 else npc, st') \<and> n < SHADOW_MEMORY_SIZE \<and>
    os_mmap p n (write_guest (guestAddress st) (guestState st) (hostMemory st)) = Some a \<and>
    (\<forall>x. x \<notin> data_area st \<union> region a n \<longrightarrow> hostMemory st' x = hostMemory st x)"
proof -
  from executeBlock_run [OF assms] obtain gs m n a where
    "executeBlock p pc st = Inr (if is_ret (last insts) then 0 else npc, st\<lparr>guestState := gs, hostMemory := m\<rparr>)"
    "n < SHADOW_MEMORY_SIZE" "os_mmap p n (write_guest (guestAddress st) (guestState st) (hostMemory st)) = Some a"
    "\<forall>x. x \<notin> data_area st \<union> region a n \<longrightarrow> m x = hostMemory st x" by blast
  then show ?thesis by (intro exI [of _ "st\<lparr>guestState := gs, hostMemory := m\<rparr>"] exI [of _ n] exI [of _ a]) simp
qed

theorem executeBlock_confined_witness:
  "\<exists>st'. executeBlock add5_platform 0x10000 add5_entry = Inr (0, st') \<and> hostMemory st' 0x300000000 = hostMemory add5_entry 0x300000000"
proof -
  from executeBlock_confined [OF add5_entry_ok add5_translatable add5_run] obtain st' n a where
    e: "executeBlock add5_platform 0x10000 add5_entry = Inr (0, st')" and n: "n < SHADOW_MEMORY_SIZE"
    and a: "os_mmap add5_platform n (write_guest (guestAddress add5_entry) (guestState add5_entry) (hostMemory add5_entry)) = Some a"
    and f: "0x300000000 \<notin> data_area add5_entry \<union> region a n \<longrightarrow> hostMemory st' 0x300000000 = hostMemory add5_entry 0x300000000"
    by auto
  have "a = 0x200000000" using a n by (simp add: add5_platform_def)
  then have "0x300000000 \<notin> region a n" using n by (simp add: region_iff_offset SHADOW_MEMORY_SIZE_def)
  moreover have "0x300000000 \<notin> data_area add5_entry"
    by (simp add: data_area_def add5_entry_def add5_loaded_def region_iff_offset sizeof_GuestState_def)
  ultimately show ?thesis using e f by blast
qed

text \<open>
  C12: whatever registers the allocator assigns, the encoder accepts the instructions selected for a lifted
  block: it has the opcodes for all of them, although it lacks those of the zero extension of bytes and
  half-words and of divisions, which the selector knows.
\<close>

theorem selected_code_encodes:
  assumes "platform_ok p A" and "block_ok insts" and "list_all (ops_within sound_ops) insts" and "length insts < 2 ^ 26"
    and "rv_run ok insts s = Some res" and "liftBasicBlock (registerOrder p) insts Lifter_init = Inr (blk, lst)"
    and "selectInstructions blk InstructionSelector_init = Inr (sel, sst)" and "branch_safe blk"
    and "inst \<in> set sel" and "set (vregs inst) \<subseteq> dom al" and "ran al \<inter> {X0, X30, XSP} = {}"
  shows "\<exists>bs. encodeInstruction (rename_inst al inst) = Inr bs \<and> length bs = 4"
proof -
  note sel = selected_block [OF assms(1-8)]
  have "encodable (rename_inst al inst)"
    by (rule renamed_encodable [OF _ _ _ _ assms(10)])
       (use sel assms(9,11) ls.suitable_plain [OF sel(1)] in \<open>simp_all add: list_all_iff usable_def\<close>)
  from a64.encode_one [OF this] show ?thesis by blast
qed

theorem selected_code_encodes_witness:
  "\<exists>bs. encodeInstruction (ThreeOperandInst armADD SizeX (ArmReg X3) (ArmReg X1) (ArmReg X2)) = Inr bs \<and> length bs = 4"
proof -
  obtain lst sst where l: "liftBasicBlock (registerOrder add5_platform) add5_insts Lifter_init = Inr (add5_block, lst)"
    and s: "selectInstructions add5_block InstructionSelector_init = Inr (add5_selected, sst)" by (rule add5_front)
  have i: "ThreeOperandInst armADD SizeX (ArmVReg 2) (ArmVReg 0) (ArmVReg 1) \<in> set add5_selected" by (simp add: add5_selected_def)
  from selected_code_encodes [OF add5_platform_ok add5_block_ok add5_sound(1,2) add5_run l s add5_sound(3) i,
      of "[0 \<mapsto> X1, 1 \<mapsto> X2, 2 \<mapsto> X3]"]
  show ?thesis by (simp add: vreg_list_def)
qed

text \<open>
  C11: lowering a lifted block fails for lack of registers only: the code is encoded exactly when the linear scan
  assigns a register to every live interval.
\<close>

theorem lowering_succeeds_iff:
  assumes "platform_ok p A" and "block_ok insts" and "list_all (ops_within sound_ops) insts" and "length insts < 2 ^ 26"
    and "rv_run ok insts s = Some res" and "liftBasicBlock (registerOrder p) insts Lifter_init = Inr (blk, lst)"
    and "selectInstructions blk InstructionSelector_init = Inr (sel, sst)" and "branch_safe blk"
  shows "(\<exists>machineCode. bindR (translateToARM64 p blk) encodeBlock = Inr machineCode) =
    fst (scanIntervals (computeLiveIntervals (vregOrder p) sel) RegisterAllocator_init)"
proof -
  note sel = selected_block [OF assms]
  from lowering_iff [OF assms(7) sel(1,2)] sel(3) show ?thesis by (auto simp: linear_scan_def split: prod.split)
qed

theorem lowering_succeeds_iff_witness:
  "\<exists>machineCode. bindR (translateToARM64 add5_platform add5_block) encodeBlock = Inr machineCode"
proof -
  obtain lst sst where l: "liftBasicBlock (registerOrder add5_platform) add5_insts Lifter_init = Inr (add5_block, lst)"
    and s: "selectInstructions add5_block InstructionSelector_init = Inr (add5_selected, sst)" by (rule add5_front)
  have "fst (scanIntervals (computeLiveIntervals (vregOrder add5_platform) add5_selected) RegisterAllocator_init)"
    using add5_scan by (simp add: add5_platform_def)
  with lowering_succeeds_iff [OF add5_platform_ok add5_block_ok add5_sound(1,2) add5_run l s add5_sound(3)]
  show ?thesis by blast
qed

text \<open>
  C17: the block the translator decodes at an address of the text section is never empty and consists of the
  instructions that follow each other there, well-formed, up to the first terminator or the end of the
  section.
\<close>

theorem decodeBlock_correct:
  assumes "decodeBlock st pc = Inr insts"
  shows "insts \<noteq> [] \<and> list_all wf_inst insts \<and> list_all (\<lambda>i. \<not> isTerminator i) (butlast insts) \<and>
    (\<forall>i < length insts. address (insts ! i) = pc + of_nat (4 * i) \<and>
       decode (textSectionData st) (unat (pc - textBaseAddress st) + 4 * i) (pc + of_nat (4 * i)) = Inr (insts ! i)) \<and>
    (isTerminator (last insts) \<or> length (textSectionData st) = unat (pc - textBaseAddress st) + 4 * length insts)"
  using decodeBlock_shape [OF assms] decodeBlock_text [OF assms] by auto

theorem decodeBlock_correct_witness:
  "list_all wf_inst add5_insts \<and> list_all (\<lambda>i. \<not> isTerminator i) (butlast add5_insts) \<and> isTerminator (last add5_insts)"
  using decodeBlock_correct [OF add5_decode] by (simp add: add5_insts_def isTerminator_def)

text \<open>
  C18: whatever the platform does, translating a block fails only with an exception of the program's own
  classes, which the command line reports, unless the bytes from the block to the end of the text
  section do not divide into words: then the decoder reads past its end.
\<close>

theorem translateBlock_errors:
  assumes "translateBlock p st pc = Inl e"
  shows "is_dinorisc_error e \<or> e = OutOfBounds \<and> (length (textSectionData st) - unat (pc - textBaseAddress st)) mod 4 \<noteq> 0"
  using assms by (rule translateBlock_Inl)

theorem translateBlock_errors_witness:
  "\<exists>e. translateBlock add5_platform add5_loaded 0x20000 = Inl e \<and> is_dinorisc_error e"
proof -
  obtain e where e: "translateBlock add5_platform add5_loaded 0x20000 = Inl e"
    by (simp add: translateBlock_def decodeBlock_def isValidPC_def add5_loaded_def add5_text_def)
  have "(length (textSectionData add5_loaded) - unat (0x20000 - textBaseAddress add5_loaded)) mod 4 = 0"
    by (simp add: add5_loaded_def add5_text_def)
  with e translateBlock_errors [OF e] show ?thesis by auto
qed

text \<open>
  C19: code that still names a virtual register, as it does when the allocator has run out of registers, is
  never executed: the encoder throws \<open>EncodingError\<close>.
\<close>

theorem encodeInstruction_needs_allocation:
  assumes "vregs inst \<noteq> []"
  shows "\<exists>m. encodeInstruction inst = Inl (EncodingError m)"
proof (cases "encodeInstruction inst")
  case (Inl e)
  with encodeInstruction_throws [of inst] show ?thesis by (cases e) (auto simp: throws_only_def)
next
  case (Inr bs)
  with encodeWord_allocated [of inst] assms show ?thesis by (auto simp: encodeInstruction_def elim!: bindR_InrE)
qed

theorem encodeInstruction_needs_allocation_witness:
  "\<exists>m. encodeInstruction (TwoOperandInst armCMP SizeX (ArmReg X1) (ArmVReg 7)) = Inl (EncodingError m)"
  by (rule encodeInstruction_needs_allocation) (simp add: vreg_list_def)

text \<open>
  C16: the dispatch loop is the iteration of its step. It returns a state exactly when that state is reached by
  at most as many blocks as the limit allows, and the program counter is then 0 or the limit is used
  up; so at most \<open>MAX_EXECUTION_BLOCKS\<close> blocks are ever executed.
\<close>

theorem dispatch_bounded:
  "dispatch p k pc st = Inr st' \<longleftrightarrow>
     (\<exists>n pc'. n \<le> k \<and> (dispatch_step p ^^ n) (pc, st) (pc', st') \<and> (pc' = 0 \<or> n = k))"
  by (rule dispatch_steps_iff)

text \<open>
  C40: a guest that loops for ever is not noticed. If a block leads back to itself with the same registers and
  memory, the dispatch loop still returns, for every limit, as if the function had finished.
\<close>

theorem dispatch_endless:
  assumes "platform_ok p (data_area st)" and "represents st s" and "decodeBlock st pc = Inr insts" and "translatable p insts"
    and "\<not> is_ret (last insts)" and "pc \<noteq> 0" and "rv_run (accessible st) insts s = Some (pc, s)"
  shows "\<exists>st'. dispatch p k pc st = Inr st' \<and> represents st' s"
proof -
  from guest_block.block [OF assms(6,3,4,7)] assms(5) have "guest_block p st (pc, s) (pc, s)" by simp
  moreover have "held p st st s" using assms(1,2) by (simp add: held_def same_context_refl)
  ultimately have "\<exists>st'. dispatch p k pc st = Inr st' \<and> held p st st' s" by (rule disp.loop_forever)
  then show ?thesis by (auto simp: held_def)
qed

theorem dispatch_endless_witness:
  "\<exists>st'. dispatch add5_platform MAX_EXECUTION_BLOCKS 0x10000 loop_loaded = Inr st' \<and> represents st' loop_state"
  by (rule dispatch_endless [OF loop_platform_ok loop_represents loop_decode loop_translatable _ _ loop_run])
     (simp_all add: loop_insts_def is_ret_def)

text \<open>
  C20: the command line lets no exception of the program escape: it terminates abnormally only when the decoder
  reads past the end of the text section or the translated code does not return (as far as the guest
  does not overwrite the translator's own objects, which the model keeps apart from the guest's memory).
\<close>

theorem main_uncaught:
  assumes "main p g m argv = Terminated e"
  shows "e = OutOfBounds \<or> e = HostTrap"
proof -
  have "runTranslator p g m inputPath f vals = Inl e \<Longrightarrow> is_dinorisc_error e \<or> e = OutOfBounds \<or> e = HostTrap" for inputPath f vals
    using runTranslator_throws [of p g m inputPath f vals] by (simp add: throws_only_def)
  with assms show ?thesis by (cases "(p, g, m, argv)" rule: main.cases) (auto simp: reportResult_def invalidArgument_def split: sum.splits if_splits)
qed

theorem main_uncaught_witness:
  "\<exists>e. main (add5_platform\<lparr>cpu := \<lambda>_ _ _. None\<rparr>) 0x7000 (\<lambda>_. 0) [''dinorisc'', ''add5.elf'', ''add5'', ''37''] = Terminated e \<and>
     (e = OutOfBounds \<or> e = HostTrap)"
  using main_uncaught [OF add5_trap] add5_trap by blast

text \<open>
  C29: the arguments of the command line are the first eight integer arguments of the function, in a0 to a7; the
  other registers and the rest of the guest state keep their values.
\<close>

theorem setArgumentRegisters_correct:
  assumes "wf_guest (guestState st)" and "j < 32"
  shows "gs_x (guestState (setArgumentRegisters args st)) ! j =
      (if 10 \<le> j \<and> j < 10 + min 8 (length args) then args ! (j - 10) else gs_x (guestState st) ! j) \<and>
    guestState (setArgumentRegisters args st) = (guestState st)\<lparr>gs_x := gs_x (guestState (setArgumentRegisters args st))\<rparr>"
  using setArguments_nth [OF assms(1), of 0 j args] assms(2) setArguments_other [of 0 args "guestState st"]
  by (auto simp: setArgumentRegisters_def)

theorem setArgumentRegisters_correct_witness:
  "gs_x (guestState (setArgumentRegisters [7, 8] add5_loaded)) ! 11 = 8 \<and>
   gs_x (guestState (setArgumentRegisters [7, 8] add5_loaded)) ! 2 = 0x7FFC00"
  using setArgumentRegisters_correct [of add5_loaded 11 "[7, 8]"] setArgumentRegisters_correct [of add5_loaded 2 "[7, 8]"]
  by (simp add: wf_guest_def add5_loaded_def)

end
